(* ===== verification/Cpu_Set.thy ===== *)
theory Cpu_Set
  imports Prelude
begin

text \<open>
  The CPU mask of crates/core/src/topology.rs: \<open>CpuSet\<close>, sixteen 64-bit words laid out as the
  kernel's \<open>cpu_set_t\<close>, with its word-level operations. \<open>members\<close> reads a mask as the set of
  its CPU numbers; the lemmas show that each operation computes the set operation it stands
  for. The interface the other components use is the locale \<open>cpu_mask\<close>, interpreted here.
\<close>

unbundle bit_operations_syntax

section \<open>The mask and its operations\<close>

record CpuSet =
  bits :: "u64 list"

definition CPU_SETSIZE :: nat where "CPU_SETSIZE = 1024"
definition CPU_WORD_BITS :: nat where "CPU_WORD_BITS = 64"
definition CPU_WORDS :: nat where "CPU_WORDS = CPU_SETSIZE div CPU_WORD_BITS"

lemmas cpu_size_defs = CPU_SETSIZE_def CPU_WORD_BITS_def CPU_WORDS_def

definition cpuset_new :: CpuSet where
  "cpuset_new = \<lparr>bits = replicate CPU_WORDS 0\<rparr>"

definition cpuset_set :: "nat \<Rightarrow> CpuSet \<Rightarrow> CpuSet" where
  "cpuset_set cpu s =
     (if cpu < CPU_SETSIZE
      then s\<lparr>bits := (bits s)[cpu div CPU_WORD_BITS :=
             (bits s ! (cpu div CPU_WORD_BITS)) OR push_bit (cpu mod CPU_WORD_BITS) 1]\<rparr>
      else s)"

definition cpuset_is_set :: "CpuSet \<Rightarrow> nat \<Rightarrow> bool" where
  "cpuset_is_set s cpu =
     (cpu < CPU_SETSIZE \<and>
      (bits s ! (cpu div CPU_WORD_BITS)) AND push_bit (cpu mod CPU_WORD_BITS) 1 \<noteq> 0)"

definition count_ones :: "u64 \<Rightarrow> nat" where
  "count_ones w = length (filter (bit w) [0..<64])"

definition cpuset_count :: "CpuSet \<Rightarrow> nat" where
  "cpuset_count s = sum_list (map count_ones (bits s))"

definition cpuset_or :: "CpuSet \<Rightarrow> CpuSet \<Rightarrow> CpuSet" where
  "cpuset_or d s = d\<lparr>bits := map (\<lambda>(x, y). x OR y) (zip (bits d) (bits s))\<rparr>"

definition cpuset_and :: "CpuSet \<Rightarrow> CpuSet \<Rightarrow> CpuSet" where
  "cpuset_and d s = d\<lparr>bits := map (\<lambda>(x, y). x AND y) (zip (bits d) (bits s))\<rparr>"

definition cpuset_is_empty :: "CpuSet \<Rightarrow> bool" where
  "cpuset_is_empty s = list_all (\<lambda>w. w = 0) (bits s)"

text \<open>Clearing one bit, as the online filter of \<open>apply_affinity\<close> does in place.\<close>

definition cpuset_clear :: "nat \<Rightarrow> CpuSet \<Rightarrow> CpuSet" where
  "cpuset_clear cpu s =
     s\<lparr>bits := (bits s)[cpu div CPU_WORD_BITS :=
        (bits s ! (cpu div CPU_WORD_BITS)) AND NOT (push_bit (cpu mod CPU_WORD_BITS) 1)]\<rparr>"

definition word_cpus :: "nat \<Rightarrow> u64 \<Rightarrow> nat list" where
  "word_cpus wi w =
     map (\<lambda>b. wi * CPU_WORD_BITS + b)
       (filter (\<lambda>b. drop_bit b w AND 1 = 1) [0..<CPU_WORD_BITS])"

definition cpuset_iter :: "CpuSet \<Rightarrow> nat list" where
  "cpuset_iter s = concat (map (\<lambda>(wi, w). word_cpus wi w) (enumerate 0 (bits s)))"

text \<open>The array type of \<open>bits\<close> as an invariant of the record.\<close>

definition wf_cpuset :: "CpuSet \<Rightarrow> bool" where
  "wf_cpuset s = (length (bits s) = CPU_WORDS)"

definition members :: "CpuSet \<Rightarrow> nat set" where
  "members s = {cpu. cpuset_is_set s cpu}"

section \<open>Word-level facts\<close>

lemma and_push_bit_1: "(w :: u64) AND push_bit n 1 \<noteq> 0 \<longleftrightarrow> bit w n"
proof -
  have "w AND push_bit n 1 = w AND 2 ^ n" by (simp add: push_bit_eq_mult)
  then show ?thesis by (simp add: and_exp_eq_0_iff_not_bit)
qed

lemma drop_bit_and_1: "drop_bit n (w :: u64) AND 1 = 1 \<longleftrightarrow> bit w n"
  by (simp add: bit_iff_odd_drop_bit and_one_eq odd_iff_mod_2_eq_one)

lemma bit_push_bit_1: "bit (2 ^ n :: u64) m \<longleftrightarrow> m = n \<and> n < 64"
  by (auto simp: bit_exp_iff possible_bit_word)

lemma is_set_bit:
  "cpuset_is_set s c \<longleftrightarrow> c < 1024 \<and> bit (bits s ! (c div 64)) (c mod 64)"
  by (simp add: cpuset_is_set_def and_push_bit_1 cpu_size_defs del: push_bit_of_1)

lemma word_zero_iff: "(w :: u64) = 0 \<longleftrightarrow> (\<forall>n < 64. \<not> bit w n)"
proof
  assume *: "\<forall>n < 64. \<not> bit w n"
  show "w = 0"
  proof (rule bit_eqI)
    fix n
    assume "possible_bit TYPE(u64) n"
    then show "bit w n = bit 0 n" using * by (simp add: possible_bit_word)
  qed
qed simp

lemma count_ones_zero: "count_ones w = 0 \<longleftrightarrow> w = 0"
  by (auto simp: count_ones_def word_zero_iff filter_empty_conv)

lemma word_eq_iff: "(w :: u64) = v \<longleftrightarrow> (\<forall>n < 64. bit w n = bit v n)"
  by (auto intro!: bit_word_eqI simp: possible_bit_word)

lemma members_bound: "c \<in> members s \<Longrightarrow> c < 1024"
  by (simp add: members_def is_set_bit)

lemma finite_members [simp]: "finite (members s)"
  by (rule finite_subset [of _ "{..<1024}"]) (auto dest: members_bound)

section \<open>Each operation as a set operation\<close>

lemma wf_new [simp]: "wf_cpuset cpuset_new"
  by (simp add: wf_cpuset_def cpuset_new_def)

lemma wf_set [simp]: "wf_cpuset s \<Longrightarrow> wf_cpuset (cpuset_set c s)"
  by (simp add: wf_cpuset_def cpuset_set_def)

lemma wf_clear [simp]: "wf_cpuset s \<Longrightarrow> wf_cpuset (cpuset_clear c s)"
  by (simp add: wf_cpuset_def cpuset_clear_def)

lemma wf_or [simp]: "wf_cpuset s \<Longrightarrow> wf_cpuset t \<Longrightarrow> wf_cpuset (cpuset_or s t)"
  by (simp add: wf_cpuset_def cpuset_or_def)

lemma wf_and [simp]: "wf_cpuset s \<Longrightarrow> wf_cpuset t \<Longrightarrow> wf_cpuset (cpuset_and s t)"
  by (simp add: wf_cpuset_def cpuset_and_def)

lemma members_new [simp]: "members cpuset_new = {}"
  by (auto simp: members_def is_set_bit cpuset_new_def cpu_size_defs)

lemma same_slot: "c div 64 = d div 64 \<Longrightarrow> c mod 64 = d mod 64 \<Longrightarrow> c = (d :: nat)"
  by (metis div_mod_decomp)

lemma div_64_word: "c < 1024 \<Longrightarrow> (c :: nat) div 64 < 16"
  by simp

lemma members_set [simp]:
  assumes "wf_cpuset s"
  shows "members (cpuset_set c s) = (if c < 1024 then insert c (members s) else members s)"
proof (cases "c < 1024")
  case True
  have len: "length (bits s) = 16" using assms by (simp add: wf_cpuset_def cpu_size_defs)
  have "cpuset_is_set (cpuset_set c s) d \<longleftrightarrow> d = c \<or> cpuset_is_set s d" for d
  proof (cases "d < 1024 \<and> d div 64 = c div 64")
    case same: True
    then show ?thesis using True len
      by (auto simp: is_set_bit cpuset_set_def cpu_size_defs bit_or_iff bit_push_bit_1
          dest: same_slot)
  next
    case False
    then show ?thesis using True len
      by (auto simp: is_set_bit cpuset_set_def cpu_size_defs nth_list_update)
  qed
  with True show ?thesis by (auto simp: members_def)
next
  case False
  then show ?thesis by (simp add: cpuset_set_def cpu_size_defs)
qed

lemma members_clear:
  assumes "wf_cpuset s" and "c < 1024"
  shows "members (cpuset_clear c s) = members s - {c}"
proof -
  have len: "length (bits s) = 16" using assms by (simp add: wf_cpuset_def cpu_size_defs)
  have "cpuset_is_set (cpuset_clear c s) d \<longleftrightarrow> d \<noteq> c \<and> cpuset_is_set s d" for d
  proof (cases "d < 1024 \<and> d div 64 = c div 64")
    case same: True
    then show ?thesis using assms len
      by (auto simp: is_set_bit cpuset_clear_def cpu_size_defs bit_and_iff bit_not_iff
          bit_push_bit_1 possible_bit_word dest: same_slot)
  next
    case False
    then show ?thesis using assms len
      by (auto simp: is_set_bit cpuset_clear_def cpu_size_defs nth_list_update)
  qed
  then show ?thesis by (auto simp: members_def)
qed

lemma members_or [simp]:
  "wf_cpuset s \<Longrightarrow> wf_cpuset t \<Longrightarrow> members (cpuset_or s t) = members s \<union> members t"
  by (auto simp: members_def is_set_bit cpuset_or_def wf_cpuset_def cpu_size_defs bit_or_iff
      div_64_word)

lemma members_and [simp]:
  "wf_cpuset s \<Longrightarrow> wf_cpuset t \<Longrightarrow> members (cpuset_and s t) = members s \<inter> members t"
  by (auto simp: members_def is_set_bit cpuset_and_def wf_cpuset_def cpu_size_defs bit_and_iff
      div_64_word)

lemma cpuset_eqI:
  assumes "wf_cpuset s" and "wf_cpuset t" and "members s = members t"
  shows "s = (t :: CpuSet)"
proof -
  have len: "length (bits s) = 16" "length (bits t) = 16"
    using assms by (simp_all add: wf_cpuset_def cpu_size_defs)
  have "bits s ! i = bits t ! i" if i: "i < 16" for i
  proof -
    have "bit (bits s ! i) n = bit (bits t ! i) n" if n: "n < 64" for n
    proof -
      have "64 * i + n \<in> members s \<longleftrightarrow> 64 * i + n \<in> members t" by (simp add: assms(3))
      then show ?thesis using i n by (simp add: members_def is_set_bit)
    qed
    then show ?thesis by (simp add: word_eq_iff)
  qed
  then have "bits s = bits t" using len by (simp add: list_eq_iff_nth_eq)
  then show ?thesis by simp
qed

section \<open>Iteration and counting\<close>

lemma word_cpus_eq: "word_cpus wi w = map (\<lambda>b. wi * 64 + b) (filter (bit w) [0..<64])"
  by (simp add: word_cpus_def drop_bit_and_1 cpu_size_defs cong: filter_cong)

lemma set_word_cpus: "c \<in> set (word_cpus wi w) \<longleftrightarrow> c div 64 = wi \<and> bit w (c mod 64)"
  by (auto simp: word_cpus_eq image_iff intro!: exI [of _ "c mod 64"])

lemma sorted_word_cpus: "sorted_wrt (<) (word_cpus wi w)"
  by (simp add: word_cpus_eq sorted_wrt_map sorted_wrt_filter)

fun iter_from :: "nat \<Rightarrow> u64 list \<Rightarrow> nat list" where
  "iter_from n [] = []"
| "iter_from n (w # ws) = word_cpus n w @ iter_from (Suc n) ws"

lemma iter_from_enumerate:
  "concat (map (\<lambda>(wi, w). word_cpus wi w) (enumerate n ws)) = iter_from n ws"
  by (induction ws arbitrary: n) simp_all

lemma set_iter_from:
  "c \<in> set (iter_from n ws) \<longleftrightarrow>
     n \<le> c div 64 \<and> c div 64 < n + length ws \<and> bit (ws ! (c div 64 - n)) (c mod 64)"
proof (induction ws arbitrary: n)
  case Nil
  then show ?case by simp
next
  case (Cons w ws)
  show ?case
    by (cases "c div 64 = n") (auto simp: set_word_cpus Cons.IH nth_Cons' Suc_diff_le)
qed

lemma sorted_iter_from: "sorted_wrt (<) (iter_from n ws)"
proof (induction ws arbitrary: n)
  case Nil
  then show ?case by simp
next
  case (Cons w ws)
  have "a < b" if "a \<in> set (word_cpus n w)" and "b \<in> set (iter_from (Suc n) ws)" for a b
  proof -
    from that have "a div 64 = n" and "Suc n \<le> b div 64"
      by (auto simp: set_word_cpus set_iter_from)
    then show ?thesis by (metis Suc_le_eq div_le_mono leI not_le)
  qed
  then show ?case
    using sorted_word_cpus [of n w] Cons.IH [of "Suc n"]
    by (simp add: sorted_wrt_append)
qed

lemma set_iter: "wf_cpuset s \<Longrightarrow> set (cpuset_iter s) = members s"
  by (auto simp: cpuset_iter_def iter_from_enumerate set_iter_from members_def is_set_bit
      wf_cpuset_def cpu_size_defs)

lemma sorted_iter: "sorted_wrt (<) (cpuset_iter s)"
  by (simp add: cpuset_iter_def iter_from_enumerate sorted_iter_from)

lemma distinct_iter: "distinct (cpuset_iter s)"
  using sorted_iter [of s] by (simp add: strict_sorted_iff)

lemma length_iter_from: "length (iter_from n ws) = sum_list (map count_ones ws)"
  by (induction ws arbitrary: n) (simp_all add: word_cpus_eq count_ones_def)

lemma count_card: "wf_cpuset s \<Longrightarrow> cpuset_count s = card (members s)"
  by (metis cpuset_count_def cpuset_iter_def iter_from_enumerate distinct_card distinct_iter
      length_iter_from set_iter)

lemma count_zero [simp]: "wf_cpuset s \<Longrightarrow> cpuset_count s = 0 \<longleftrightarrow> members s = {}"
  by (simp add: count_card)

lemma count_pos [simp]: "wf_cpuset s \<Longrightarrow> 0 < cpuset_count s \<longleftrightarrow> members s \<noteq> {}"
  by (metis count_zero neq0_conv)

lemma is_empty_members: "wf_cpuset s \<Longrightarrow> cpuset_is_empty s \<longleftrightarrow> members s = {}"
proof -
  assume wf: "wf_cpuset s"
  have "cpuset_is_empty s \<longleftrightarrow> cpuset_count s = 0"
    by (auto simp: cpuset_is_empty_def cpuset_count_def sum_list_eq_0_iff count_ones_zero
        list_all_iff)
  then show ?thesis using wf by simp
qed

lemma iter_sorted_list: "wf_cpuset s \<Longrightarrow> cpuset_iter s = sorted_list_of_set (members s)"
  by (metis set_iter sorted_iter sorted_list_of_set.idem_if_sorted_distinct strict_sorted_iff)

section \<open>The interface of a CPU mask\<close>

locale cpu_mask =
  fixes empty :: 'm
    and add :: "nat \<Rightarrow> 'm \<Rightarrow> 'm"
    and isin :: "'m \<Rightarrow> nat \<Rightarrow> bool"
    and union :: "'m \<Rightarrow> 'm \<Rightarrow> 'm"
    and inter :: "'m \<Rightarrow> 'm \<Rightarrow> 'm"
    and size_of :: "'m \<Rightarrow> nat"
    and elems :: "'m \<Rightarrow> nat set"
    and invar :: "'m \<Rightarrow> bool"
    and limit :: nat
  assumes elems_empty: "elems empty = {}"
    and invar_empty: "invar empty"
    and elems_add: "invar m \<Longrightarrow> elems (add c m) = (if c < limit then insert c (elems m) else elems m)"
    and invar_add: "invar m \<Longrightarrow> invar (add c m)"
    and isin_elems: "isin m c \<longleftrightarrow> c \<in> elems m"
    and elems_union: "invar m \<Longrightarrow> invar n \<Longrightarrow> elems (union m n) = elems m \<union> elems n"
    and invar_union: "invar m \<Longrightarrow> invar n \<Longrightarrow> invar (union m n)"
    and elems_inter: "invar m \<Longrightarrow> invar n \<Longrightarrow> elems (inter m n) = elems m \<inter> elems n"
    and invar_inter: "invar m \<Longrightarrow> invar n \<Longrightarrow> invar (inter m n)"
    and size_elems: "invar m \<Longrightarrow> size_of m = card (elems m)"
    and elems_limit: "c \<in> elems m \<Longrightarrow> c < limit"
    and elems_inject: "invar m \<Longrightarrow> invar n \<Longrightarrow> elems m = elems n \<Longrightarrow> m = n"
begin

lemma fold_add_invar: "invar m \<Longrightarrow> invar (fold add cs m)"
  by (induction cs arbitrary: m) (simp_all add: invar_add)

lemma fold_add_elems: "invar m \<Longrightarrow> elems (fold add cs m) = elems m \<union> {c \<in> set cs. c < limit}"
  by (induction cs arbitrary: m) (auto simp: elems_add invar_add)

lemma fold_add_if_invar: "invar m \<Longrightarrow> invar (fold (\<lambda>c m. if p c then add c m else m) cs m)"
  by (induction cs arbitrary: m) (simp_all add: invar_add)

lemma fold_add_if_elems:
  "invar m \<Longrightarrow> elems (fold (\<lambda>c m. if p c then add c m else m) cs m) =
     elems m \<union> {c \<in> set cs. c < limit \<and> p c}"
  by (induction cs arbitrary: m) (auto simp: elems_add invar_add)

lemma fold_union_invar:
  "invar m \<Longrightarrow> (\<forall>x \<in> set xs. invar (f x)) \<Longrightarrow> invar (fold (\<lambda>x m. union m (f x)) xs m)"
  by (induction xs arbitrary: m) (simp_all add: invar_union)

lemma fold_union_elems:
  "invar m \<Longrightarrow> (\<forall>x \<in> set xs. invar (f x)) \<Longrightarrow>
   elems (fold (\<lambda>x m. union m (f x)) xs m) = elems m \<union> (\<Union>x \<in> set xs. elems (f x))"
  by (induction xs arbitrary: m) (auto simp: elems_union invar_union)

lemma finite_elems: "finite (elems m)"
  by (rule finite_subset [of _ "{..<limit}"]) (auto dest: elems_limit)

lemma size_zero: "invar m \<Longrightarrow> size_of m = 0 \<longleftrightarrow> elems m = {}"
  by (simp add: size_elems finite_elems)

lemma size_inter_le: "invar m \<Longrightarrow> invar n \<Longrightarrow> size_of (inter m n) \<le> size_of m"
  by (simp add: size_elems elems_inter invar_inter card_mono finite_elems)

lemma inter_fixed: "invar m \<Longrightarrow> invar n \<Longrightarrow> inter m n = m \<longleftrightarrow> elems m \<subseteq> elems n"
  by (metis Int_absorb2 elems_inject elems_inter inf.cobounded2 invar_inter)

lemma union_assoc:
  "invar a \<Longrightarrow> invar b \<Longrightarrow> invar c \<Longrightarrow> union (union a b) c = union a (union b c)"
  by (rule elems_inject) (auto simp: elems_union invar_union)

lemma union_comm: "invar a \<Longrightarrow> invar b \<Longrightarrow> union a b = union b a"
  by (rule elems_inject) (auto simp: elems_union invar_union)

end

lemma is_set_members: "cpuset_is_set s c \<longleftrightarrow> c \<in> members s"
  by (simp add: members_def)

interpretation cpus: cpu_mask cpuset_new cpuset_set cpuset_is_set cpuset_or cpuset_and
    cpuset_count members wf_cpuset 1024
  by unfold_locales
    (simp_all add: count_card is_set_members members_bound cpuset_eqI)

end
