(* ===== verification/Cpu_Ranges.thy ===== *)
theory Cpu_Ranges
  imports Cpu_Set
begin

text \<open>
  The text form of a CPU mask (crates/core/src/topology.rs): \<open>to_range_string\<close> prints
  "0-3,6-7", \<open>parse_cpu_ranges\<close> reads it back, accepting commas, blanks and tabs, reversed
  ranges and an optional filter of present CPUs. The lemmas give the meaning of both as sets
  of CPU numbers and the round trip between them.
\<close>

unbundle bit_operations_syntax

section \<open>Printing\<close>

text \<open>The mutable locals of \<open>to_range_string\<close>.\<close>

record range_st =
  rs_out :: string
  rs_start :: "nat option"
  rs_end :: "nat option"
  rs_first :: bool

definition push_range ::
  "string \<Rightarrow> nat option \<Rightarrow> nat option \<Rightarrow> bool \<Rightarrow> string \<times> bool" where
  "push_range s start end1 first =
     (case (start, end1) of
        (Some lo, Some hi) \<Rightarrow>
          (s @ (if first then [] else '','')
             @ (if lo = hi then show_nat lo else show_nat lo @ ''-'' @ show_nat hi), False)
      | _ \<Rightarrow> (s, first))"

text \<open>
  One set bit. \<open>end.unwrap()\<close> is only reached with \<open>end\<close> set together with \<open>start\<close>
  (\<open>range_inv\<close> below), so the case \<open>None\<close> is never taken.
\<close>

definition scan_bit :: "nat \<Rightarrow> u64 \<Rightarrow> nat \<Rightarrow> range_st \<Rightarrow> range_st" where
  "scan_bit base word b st =
     (if word AND push_bit b 1 \<noteq> 0
      then (let cpu = base + b in
        case rs_start st of
          None \<Rightarrow> st\<lparr>rs_start := Some cpu, rs_end := Some cpu\<rparr>
        | Some _ \<Rightarrow>
            (if rs_end st \<noteq> None \<and> cpu = the (rs_end st) + 1
             then st\<lparr>rs_end := Some cpu\<rparr>
             else (case push_range (rs_out st) (rs_start st) (rs_end st) (rs_first st) of
                     (out, first) \<Rightarrow>
                       st\<lparr>rs_out := out, rs_first := first,
                          rs_start := Some cpu, rs_end := Some cpu\<rparr>)))
      else st)"

definition scan_word :: "nat \<times> u64 \<Rightarrow> range_st \<Rightarrow> range_st" where
  "scan_word p st =
     (case p of (wi, word) \<Rightarrow>
        if word = 0
        then (if rs_start st \<noteq> None
              then (case push_range (rs_out st) (rs_start st) (rs_end st) (rs_first st) of
                      (out, first) \<Rightarrow>
                        st\<lparr>rs_out := out, rs_first := first, rs_start := None, rs_end := None\<rparr>)
              else st)
        else fold (scan_bit (wi * CPU_WORD_BITS) word) [0..<CPU_WORD_BITS] st)"

definition to_range_string :: "CpuSet \<Rightarrow> string" where
  "to_range_string s =
     (let st = fold scan_word (enumerate 0 (bits s))
                 \<lparr>rs_out = [], rs_start = None, rs_end = None, rs_first = True\<rparr>
      in fst (push_range (rs_out st) (rs_start st) (rs_end st) (rs_first st)))"

section \<open>Parsing\<close>

definition is_cpu_sep :: "char \<Rightarrow> bool" where
  "is_cpu_sep c = (c = CHR '','' \<or> c = CHR '' '' \<or> c = CHR 0x09)"

definition usize_or_max :: "string \<Rightarrow> nat" where
  "usize_or_max s = (case parse_usize s of None \<Rightarrow> usize_max | Some v \<Rightarrow> v)"

text \<open>The bounds one piece of the specification denotes, \<open>None\<close> where the loop continues.\<close>

definition part_range :: "string \<Rightarrow> (nat \<times> nat) option" where
  "part_range part0 =
     (let part = trim part0 in
      if part = [] then None
      else case split_once (CHR ''-'') part of
        Some (x, y) \<Rightarrow>
          (let a = usize_or_max x;
               b = (case parse_usize y of None \<Rightarrow> a | Some v \<Rightarrow> v)
           in if a = usize_max then None
              else if a \<le> b then Some (a, b) else Some (b, a))
      | None \<Rightarrow>
          (let v = usize_or_max part in if v = usize_max then None else Some (v, v)))"

definition is_present :: "CpuSet option \<Rightarrow> nat \<Rightarrow> bool" where
  "is_present present i = (case present of None \<Rightarrow> True | Some p \<Rightarrow> cpuset_is_set p i)"

definition add_range :: "CpuSet option \<Rightarrow> nat \<times> nat \<Rightarrow> CpuSet \<Rightarrow> CpuSet" where
  "add_range present r set0 =
     fold (\<lambda>i s. if is_present present i then cpuset_set i s else s)
       [fst r..<Suc (min (snd r) (CPU_SETSIZE - 1))] set0"

definition add_part :: "CpuSet option \<Rightarrow> string \<Rightarrow> CpuSet \<Rightarrow> CpuSet" where
  "add_part present part s =
     (case part_range part of None \<Rightarrow> s | Some r \<Rightarrow> add_range present r s)"

definition parse_cpu_ranges :: "string \<Rightarrow> CpuSet option \<Rightarrow> CpuSet" where
  "parse_cpu_ranges spec present =
     (if spec = [] then cpuset_new
      else fold (add_part present) (split_on is_cpu_sep spec) cpuset_new)"

section \<open>What the parser accepts\<close>

lemma add_range_wf [simp]: "wf_cpuset s \<Longrightarrow> wf_cpuset (add_range present r s)"
  by (simp add: add_range_def cpus.fold_add_if_invar)

lemma add_range_members [simp]:
  "wf_cpuset s \<Longrightarrow> members (add_range present r s) =
     members s \<union> {c. fst r \<le> c \<and> c \<le> snd r \<and> c < 1024 \<and> is_present present c}"
  by (auto simp: add_range_def cpus.fold_add_if_elems cpu_size_defs)

definition part_cpus :: "string \<Rightarrow> nat set" where
  "part_cpus part =
     (case part_range part of None \<Rightarrow> {} | Some r \<Rightarrow> {c. fst r \<le> c \<and> c \<le> snd r})"

lemma add_part_wf [simp]: "wf_cpuset s \<Longrightarrow> wf_cpuset (add_part present p s)"
  by (simp add: add_part_def split: option.splits)

lemma add_part_members [simp]:
  "wf_cpuset s \<Longrightarrow> members (add_part present p s) =
     members s \<union> {c. c < 1024 \<and> is_present present c \<and> c \<in> part_cpus p}"
  by (auto simp: add_part_def part_cpus_def split: option.splits)

lemma parse_fold:
  "wf_cpuset s \<Longrightarrow> wf_cpuset (fold (add_part present) ps s) \<and>
   members (fold (add_part present) ps s) =
     members s \<union> {c. c < 1024 \<and> is_present present c \<and> (\<exists>p \<in> set ps. c \<in> part_cpus p)}"
  by (induction ps arbitrary: s) auto

lemma part_cpus_Nil [simp]: "part_cpus [] = {}"
  by (simp add: part_cpus_def part_range_def trim_def)

lemma parse_wf [simp]: "wf_cpuset (parse_cpu_ranges spec present)"
  using parse_fold [OF wf_new, of present] by (simp add: parse_cpu_ranges_def)

lemma parse_members:
  "members (parse_cpu_ranges spec present) =
     {c. c < 1024 \<and> is_present present c \<and> (\<exists>p \<in> set (split_on is_cpu_sep spec). c \<in> part_cpus p)}"
  using parse_fold [OF wf_new, of present] by (auto simp: parse_cpu_ranges_def)

lemma parse_present:
  "wf_cpuset p \<Longrightarrow> parse_cpu_ranges spec (Some p) = cpuset_and (parse_cpu_ranges spec None) p"
  by (rule cpuset_eqI) (auto simp: parse_members is_present_def members_def [symmetric]
      is_set_members)

section \<open>The printer's output as a list of ranges\<close>

definition show_range :: "nat \<times> nat \<Rightarrow> string" where
  "show_range r =
     (if fst r = snd r then show_nat (fst r) else show_nat (fst r) @ ''-'' @ show_nat (snd r))"

definition show_ranges :: "(nat \<times> nat) list \<Rightarrow> string" where
  "show_ranges rs = join '','' (map show_range rs)"

definition range_cpus :: "(nat \<times> nat) list \<Rightarrow> nat set" where
  "range_cpus rs = (\<Union>r \<in> set rs. {fst r..snd r})"

lemma join_snoc: "xs \<noteq> [] \<Longrightarrow> join sep (xs @ [x]) = join sep xs @ sep @ x"
  by (induction sep xs rule: join.induct) simp_all

lemma push_range_show:
  "push_range (show_ranges rs) (Some lo) (Some hi) (rs = []) = (show_ranges (rs @ [(lo, hi)]), False)"
  by (cases "rs = []") (simp_all add: push_range_def show_ranges_def show_range_def join_snoc)

lemma range_cpus_simps [simp]:
  "range_cpus [] = {}" "range_cpus (rs @ [(lo, hi)]) = range_cpus rs \<union> {lo..hi}"
  by (auto simp: range_cpus_def)

text \<open>
  The loop invariant: after the CPUs below \<open>n\<close>, the text printed and the pending range
  denote exactly the members below \<open>n\<close>.
\<close>

definition range_inv :: "nat set \<Rightarrow> (nat \<times> nat) list \<Rightarrow> nat \<Rightarrow> range_st \<Rightarrow> bool" where
  "range_inv S rs n st \<longleftrightarrow>
     rs_out st = show_ranges rs \<and> rs_first st = (rs = []) \<and>
     (\<forall>r \<in> set rs. fst r \<le> snd r \<and> snd r < n) \<and>
     (case (rs_start st, rs_end st) of
        (None, None) \<Rightarrow> range_cpus rs = {c \<in> S. c < n}
      | (Some lo, Some hi) \<Rightarrow> lo \<le> hi \<and> hi < n \<and> range_cpus rs \<union> {lo..hi} = {c \<in> S. c < n}
      | _ \<Rightarrow> False)"

lemma less_Suc_members:
  "{c \<in> S. c < Suc n} = (if n \<in> S then insert n {c \<in> S. c < n} else {c \<in> S. c < n})"
  by (auto simp: less_Suc_eq)

lemma scan_bit_inv:
  assumes inv: "range_inv S rs (base + b) st" and bit: "bit w b \<longleftrightarrow> base + b \<in> S"
  shows "\<exists>rs'. range_inv S rs' (Suc (base + b)) (scan_bit base w b st)"
proof (cases "base + b \<in> S")
  case False
  then have "scan_bit base w b st = st"
    using bit by (simp add: scan_bit_def and_push_bit_1 del: push_bit_of_1)
  moreover have "range_inv S rs (Suc (base + b)) st"
    using inv False by (auto simp: range_inv_def less_Suc_members split: option.splits)
  ultimately show ?thesis by auto
next
  case True
  then have on: "w AND push_bit b 1 \<noteq> 0" using bit by (simp add: and_push_bit_1 del: push_bit_of_1)
  show ?thesis
  proof (cases "rs_start st")
    case None
    with inv True on have "range_inv S rs (Suc (base + b)) (scan_bit base w b st)"
      by (auto simp: range_inv_def scan_bit_def less_Suc_members Let_def split: option.splits)
    then show ?thesis by blast
  next
    case (Some lo)
    with inv obtain hi where hi: "rs_end st = Some hi" "lo \<le> hi" "hi < base + b"
      "range_cpus rs \<union> {lo..hi} = {c \<in> S. c < base + b}"
      by (auto simp: range_inv_def split: option.splits)
    show ?thesis
    proof (cases "base + b = hi + 1")
      case step: True
      have "range_cpus rs \<union> {lo..Suc hi} = {c \<in> S. c < Suc (Suc hi)}"
        using True hi step by (simp add: less_Suc_members atLeastAtMostSuc_conv)
      with inv Some hi step on
      have "range_inv S rs (Suc (base + b)) (scan_bit base w b st)"
        by (auto simp: range_inv_def scan_bit_def Let_def)
      then show ?thesis by blast
    next
      case new: False
      with inv Some hi True on
      have "range_inv S (rs @ [(lo, hi)]) (Suc (base + b)) (scan_bit base w b st)"
        by (auto simp: range_inv_def scan_bit_def Let_def push_range_show less_Suc_members
            split: prod.splits)
      then show ?thesis by blast
    qed
  qed
qed

lemma scan_bits_inv:
  assumes "\<And>b. b < k + m \<Longrightarrow> bit w b \<longleftrightarrow> base + b \<in> S" and "range_inv S rs (base + k) st"
  shows "\<exists>rs'. range_inv S rs' (base + (k + m)) (fold (scan_bit base w) [k..<k + m] st)"
  using assms
proof (induction m arbitrary: k rs st)
  case 0
  then show ?case by auto
next
  case (Suc m)
  have "bit w k \<longleftrightarrow> base + k \<in> S" using Suc.prems(1) [of k] by simp
  from scan_bit_inv [OF Suc.prems(2) this]
  obtain rs' where "range_inv S rs' (base + Suc k) (scan_bit base w k st)" by auto
  with Suc.IH [of "Suc k"] Suc.prems(1) show ?case
    by (simp add: upt_conv_Cons del: upt_Suc)
qed

text \<open>Raising the bound over a gap, and closing the pending range.\<close>

lemma range_inv_gap:
  assumes "range_inv S rs n st" and "n \<le> m" and "{c \<in> S. c < m} = {c \<in> S. c < n}"
  shows "range_inv S rs m st"
  using assms unfolding range_inv_def by (fastforce split: option.splits)

lemma range_inv_flush:
  assumes "range_inv S rs n st" and "rs_start st = Some lo"
    and "push_range (rs_out st) (rs_start st) (rs_end st) (rs_first st) = (out, first)"
  shows "\<exists>rs'. range_inv S rs' n
    (st\<lparr>rs_out := out, rs_first := first, rs_start := None, rs_end := None\<rparr>)"
proof -
  from assms(1,2) obtain hi where "rs_end st = Some hi" "lo \<le> hi" "hi < n"
    "range_cpus rs \<union> {lo..hi} = {c \<in> S. c < n}"
    by (auto simp: range_inv_def split: option.splits)
  with assms have "range_inv S (rs @ [(lo, hi)]) n
    (st\<lparr>rs_out := out, rs_first := first, rs_start := None, rs_end := None\<rparr>)"
    by (auto simp: range_inv_def push_range_show)
  then show ?thesis by blast
qed

lemma empty_word_gap:
  fixes S :: "nat set"
  assumes "\<And>b. b < 64 \<Longrightarrow> wi * 64 + b \<notin> S"
  shows "{c \<in> S. c < wi * 64 + 64} = {c \<in> S. c < wi * 64}"
proof -
  have "c < wi * 64" if c: "c \<in> S" "c < wi * 64 + 64" for c
  proof (rule ccontr)
    assume "\<not> c < wi * 64"
    then have "c - wi * 64 < 64" "c = wi * 64 + (c - wi * 64)" using c by auto
    with assms [of "c - wi * 64"] c show False by metis
  qed
  then show ?thesis by auto
qed

lemma scan_word_inv:
  assumes S: "\<And>b. b < 64 \<Longrightarrow> bit w b \<longleftrightarrow> wi * 64 + b \<in> S"
    and inv: "range_inv S rs (wi * 64) st"
  shows "\<exists>rs'. range_inv S rs' (wi * 64 + 64) (scan_word (wi, w) st)"
proof (cases "w = 0")
  case False
  from scan_bits_inv [of 0 64 w "wi * 64" S rs st] S inv False show ?thesis
    by (simp add: scan_word_def cpu_size_defs)
next
  case True
  with S have gap: "{c \<in> S. c < wi * 64 + 64} = {c \<in> S. c < wi * 64}"
    by (intro empty_word_gap) simp
  have inv': "range_inv S rs (wi * 64 + 64) st"
    by (rule range_inv_gap [OF inv _ gap]) simp
  show ?thesis
  proof (cases "rs_start st")
    case None
    with inv' True show ?thesis by (auto simp: scan_word_def)
  next
    case (Some lo)
    with range_inv_flush [OF inv' Some] True show ?thesis
      by (auto simp: scan_word_def split: prod.splits)
  qed
qed

lemma scan_words_inv:
  assumes "\<And>i b. i < length ws \<Longrightarrow> b < 64 \<Longrightarrow> bit (ws ! i) b \<longleftrightarrow> (wi + i) * 64 + b \<in> S"
    and "range_inv S rs (wi * 64) st"
  shows "\<exists>rs'. range_inv S rs' ((wi + length ws) * 64) (fold scan_word (enumerate wi ws) st)"
  using assms
proof (induction ws arbitrary: wi rs st)
  case Nil
  then show ?case by auto
next
  case (Cons w ws)
  have "bit w b \<longleftrightarrow> wi * 64 + b \<in> S" if "b < 64" for b
    using Cons.prems(1) [of 0 b] that by simp
  from scan_word_inv [OF this Cons.prems(2)]
  obtain rs' where rs': "range_inv S rs' (Suc wi * 64) (scan_word (wi, w) st)"
    by (auto simp: add.commute)
  have "\<exists>rs'. range_inv S rs' ((Suc wi + length ws) * 64)
      (fold scan_word (enumerate (Suc wi) ws) (scan_word (wi, w) st))"
    using Cons.prems(1) [of "Suc _"] by (intro Cons.IH [OF _ rs']) simp
  then show ?case by simp
qed

lemma to_range_string_ranges:
  assumes "wf_cpuset s"
  shows "\<exists>rs. to_range_string s = show_ranges rs \<and> range_cpus rs = members s \<and>
    (\<forall>r \<in> set rs. fst r \<le> snd r \<and> snd r < 1024)"
proof -
  let ?st0 = "\<lparr>rs_out = [], rs_start = None, rs_end = None, rs_first = True\<rparr>"
  have len: "length (bits s) = 16" using assms by (simp add: wf_cpuset_def cpu_size_defs)
  have "range_inv (members s) [] (0 * 64) ?st0"
    by (simp add: range_inv_def show_ranges_def)
  from scan_words_inv [OF _ this, of "bits s"] len
  obtain rs where rs: "range_inv (members s) rs 1024 (fold scan_word (enumerate 0 (bits s)) ?st0)"
    by (auto simp: members_def is_set_bit)
  have all: "{c \<in> members s. c < 1024} = members s" by (auto dest: members_bound)
  let ?st = "fold scan_word (enumerate 0 (bits s)) ?st0"
  show ?thesis
  proof (cases "rs_start ?st")
    case None
    with rs all have "to_range_string s = show_ranges rs \<and> range_cpus rs = members s \<and>
      (\<forall>r \<in> set rs. fst r \<le> snd r \<and> snd r < 1024)"
      by (auto simp: to_range_string_def range_inv_def Let_def push_range_def split: option.splits)
    then show ?thesis by blast
  next
    case (Some lo)
    with rs all obtain hi where "rs_end ?st = Some hi" "lo \<le> hi" "hi < 1024"
      "range_cpus rs \<union> {lo..hi} = members s"
      by (auto simp: range_inv_def split: option.splits)
    with rs Some have "to_range_string s = show_ranges (rs @ [(lo, hi)]) \<and>
      range_cpus (rs @ [(lo, hi)]) = members s \<and>
      (\<forall>r \<in> set (rs @ [(lo, hi)]). fst r \<le> snd r \<and> snd r < 1024)"
      by (auto simp: to_range_string_def range_inv_def Let_def push_range_show)
    then show ?thesis by blast
  qed
qed

section \<open>Round trip\<close>

lemma split_once_none: "d \<notin> set s \<Longrightarrow> split_once d s = None"
  by (induction s) auto

lemma split_once_sep: "d \<notin> set a \<Longrightarrow> split_once d (a @ d # b) = Some (a, b)"
  by (induction a) auto

lemma show_nat_no: "\<not> is_digit c \<Longrightarrow> c \<notin> set (show_nat n)"
  using show_nat_digits [of n] by blast

lemma usize_or_max_show: "n < 1024 \<Longrightarrow> usize_or_max (show_nat n) = n"
  by (simp add: usize_or_max_def parse_usize_show_nat)

lemma show_range_chars:
  "c \<in> set (show_range r) \<Longrightarrow> is_digit c \<or> c = CHR ''-''"
  using show_nat_digits by (auto simp: show_range_def split: if_splits)

lemma show_range_not_sep: "\<forall>c \<in> set (show_range r). \<not> is_cpu_sep c"
  by (auto simp: is_cpu_sep_def dest: show_range_chars)

lemma trim_show_range: "trim (show_range r) = show_range r"
  by (rule trim_none) (auto simp: is_ws_def char_code_def is_digit_def dest!: show_range_chars)

lemma part_range_show:
  assumes "fst r \<le> snd r" and "snd r < 1024"
  shows "part_range (show_range r) = Some r"
proof (cases "fst r = snd r")
  case True
  with assms have "split_once (CHR ''-'') (show_range r) = None"
    by (simp add: show_range_def split_once_none show_nat_no)
  with assms True show ?thesis
    by (auto simp: part_range_def trim_show_range Let_def usize_or_max_show usize_max_def)
      (simp_all add: show_range_def usize_or_max_show prod_eq_iff)
next
  case False
  with assms have "split_once (CHR ''-'') (show_range r) = Some (show_nat (fst r), show_nat (snd r))"
    by (simp add: show_range_def split_once_sep show_nat_no)
  moreover have "show_range r \<noteq> []" using False by (simp add: show_range_def)
  ultimately show ?thesis using assms
    by (simp add: part_range_def trim_show_range Let_def usize_or_max_show usize_max_def
        parse_usize_show_nat)
qed

lemma parse_show_ranges:
  assumes "\<forall>r \<in> set rs. fst r \<le> snd r \<and> snd r < 1024"
  shows "members (parse_cpu_ranges (show_ranges rs) None) = range_cpus rs"
proof (cases "rs = []")
  case True
  then show ?thesis by (simp add: show_ranges_def parse_cpu_ranges_def)
next
  case False
  have "split_on is_cpu_sep (show_ranges rs) = map show_range rs"
    unfolding show_ranges_def using False
    by (intro split_on_join) (use show_range_not_sep in \<open>auto simp: is_cpu_sep_def\<close>)
  then have "members (parse_cpu_ranges (show_ranges rs) None) =
      {c. c < 1024 \<and> (\<exists>r \<in> set rs. c \<in> part_cpus (show_range r))}"
    by (simp add: parse_members is_present_def)
  also have "\<dots> = {c. c < 1024 \<and> (\<exists>r \<in> set rs. c \<in> {fst r..snd r})}"
    using assms by (auto simp: part_cpus_def part_range_show)
  also have "\<dots> = range_cpus rs"
    using assms unfolding range_cpus_def by fastforce
  finally show ?thesis .
qed

lemma parse_to_range_string: "wf_cpuset s \<Longrightarrow> parse_cpu_ranges (to_range_string s) None = s"
  by (metis cpuset_eqI parse_show_ranges parse_wf to_range_string_ranges)

lemma to_range_string_inj:
  "wf_cpuset s \<Longrightarrow> wf_cpuset t \<Longrightarrow> to_range_string s = to_range_string t \<longleftrightarrow> s = t"
  by (metis parse_to_range_string)

lemma join_Nil: "join sep xs = [] \<Longrightarrow> \<forall>x \<in> set xs. x \<noteq> [] \<Longrightarrow> xs = []"
  by (induction sep xs rule: join.induct) simp_all

lemma show_range_not_Nil [simp]: "show_range r \<noteq> []"
  by (simp add: show_range_def)

lemma show_ranges_Nil: "show_ranges rs = [] \<longleftrightarrow> rs = []"
  using join_Nil [of "'',''" "map show_range rs"] by (auto simp: show_ranges_def)

lemma to_range_string_Nil: "wf_cpuset s \<Longrightarrow> to_range_string s = [] \<longleftrightarrow> members s = {}"
proof -
  assume wf: "wf_cpuset s"
  from to_range_string_ranges [OF wf] obtain rs where
    "to_range_string s = show_ranges rs" and "range_cpus rs = members s"
    and le: "\<forall>r \<in> set rs. fst r \<le> snd r" by blast
  moreover have "range_cpus rs = {} \<longleftrightarrow> rs = []"
    using le by (cases rs) (auto simp: range_cpus_def)
  ultimately show ?thesis by (simp add: show_ranges_Nil)
qed

end
