(* ===== verification/Os.thy ===== *)
theory Os
  imports Cpu_Ranges
begin

text \<open>
  The operating system as the sources see it: one field per system call or standard-library
  call the program makes, each a function that may read and change the kernel's state \<open>'k\<close>
  (reads too: the answer to the same question may differ the next time). The record is an
  argument of every definition that calls the kernel, so a theorem about such a definition
  holds for every behaviour of the kernel. On top of it: the part of proc.rs, caps.rs,
  foreground.rs and capability.rs that only reads.
\<close>

section \<open>The calls\<close>

text \<open>
  Failing calls answer \<open>None\<close> where the source drops the error, and \<open>Some errno\<close> for an error
  number the source inspects (\<open>None\<close> is success there).
\<close>

record 'k os =
  os_read_file :: "string \<Rightarrow> 'k \<Rightarrow> string option \<times> 'k"
  os_read_at :: "string \<Rightarrow> nat \<Rightarrow> 'k \<Rightarrow> string option \<times> 'k"
  os_read_dir :: "string \<Rightarrow> 'k \<Rightarrow> string list option \<times> 'k"
  os_write_file :: "string \<Rightarrow> string \<Rightarrow> 'k \<Rightarrow> bool \<times> 'k"
  os_append_file :: "string \<Rightarrow> string \<Rightarrow> 'k \<Rightarrow> bool \<times> 'k"
  os_exists :: "string \<Rightarrow> 'k \<Rightarrow> bool \<times> 'k"
  os_mkdir :: "string \<Rightarrow> 'k \<Rightarrow> errno option \<times> 'k"
  os_chmod_chown :: "string \<Rightarrow> 'k \<Rightarrow> unit \<times> 'k"
  os_rmdir :: "string \<Rightarrow> 'k \<Rightarrow> bool \<times> 'k"
  os_open_dir :: "string \<Rightarrow> 'k \<Rightarrow> int \<times> 'k"
  os_getaffinity :: "pid \<Rightarrow> 'k \<Rightarrow> u64 list option \<times> 'k"
  os_setaffinity :: "pid \<Rightarrow> u64 list \<Rightarrow> 'k \<Rightarrow> errno option \<times> 'k"
  os_setscheduler :: "pid \<Rightarrow> int \<Rightarrow> int \<Rightarrow> 'k \<Rightarrow> errno option \<times> 'k"
  os_setpriority :: "pid \<Rightarrow> int \<Rightarrow> 'k \<Rightarrow> errno option \<times> 'k"
  os_setattr :: "pid \<Rightarrow> int list \<Rightarrow> 'k \<Rightarrow> errno option \<times> 'k"
  os_kill0 :: "pid \<Rightarrow> 'k \<Rightarrow> errno option \<times> 'k"
  os_geteuid :: "'k \<Rightarrow> int \<times> 'k"
  os_capget :: "'k \<Rightarrow> (u32 \<times> u32) option \<times> 'k"
  os_unix_secs :: "'k \<Rightarrow> nat option \<times> 'k"
  os_mono_secs :: "'k \<Rightarrow> int \<times> 'k"
  os_instant :: "'k \<Rightarrow> int \<times> 'k"
  os_sleep :: "nat \<Rightarrow> 'k \<Rightarrow> unit \<times> 'k"

text \<open>A call of the kernel as a computation over its state.\<close>

definition sys :: "('k \<Rightarrow> 'a \<times> 'k) \<Rightarrow> ('k, 'a) state" where
  "sys f = State f"

lemma run_sys [simp]: "run_state (sys f) k = f k"
  by (simp add: sys_def)

lemma run_bind [simp]:
  "run_state (State_Monad.bind m f) s = (case run_state m s of (a, s') \<Rightarrow> run_state (f a) s')"
  by (cases m) simp

lemma run_return [simp]: "run_state (ret x) s = (x, s)"
  by (simp add: State_Monad.return_def)

text \<open>Every answer a computation can give satisfies \<open>Q\<close>.\<close>

definition gives :: "('a \<Rightarrow> bool) \<Rightarrow> ('s, 'a) state \<Rightarrow> bool" where
  "gives Q m = (\<forall>s. Q (fst (run_state m s)))"

named_theorems gives_intros

lemma givesD: "gives Q m \<Longrightarrow> Q (fst (run_state m s))"
  by (simp add: gives_def)

lemma gives_return [gives_intros]: "Q x \<Longrightarrow> gives Q (ret x)"
  by (simp add: gives_def)

lemma gives_any: "(\<And>x. Q x) \<Longrightarrow> gives Q m"
  by (simp add: gives_def)

lemma gives_bind: "gives R m \<Longrightarrow> (\<And>x. R x \<Longrightarrow> gives Q (f x)) \<Longrightarrow> gives Q (State_Monad.bind m f)"
  by (auto simp: gives_def split: prod.splits) (metis fst_conv)

lemma gives_bind_any [gives_intros]: "(\<And>x. gives Q (f x)) \<Longrightarrow> gives Q (State_Monad.bind m f)"
  by (rule gives_bind [where R = "\<lambda>_. True"]) (simp_all add: gives_def)

lemma gives_if [gives_intros]:
  "(b \<Longrightarrow> gives Q m) \<Longrightarrow> (\<not> b \<Longrightarrow> gives Q n) \<Longrightarrow> gives Q (if b then m else n)"
  by simp

lemma gives_option [gives_intros]:
  "(x = None \<Longrightarrow> gives Q m) \<Longrightarrow> (\<And>y. x = Some y \<Longrightarrow> gives Q (f y)) \<Longrightarrow>
   gives Q (case x of None \<Rightarrow> m | Some y \<Rightarrow> f y)"
  by (cases x) auto

lemma gives_foldM:
  assumes "I b" and "\<And>x b. x \<in> set xs \<Longrightarrow> I b \<Longrightarrow> gives I (f x b)"
  shows "gives I (foldM f xs b)"
  using assms by (induction xs arbitrary: b) (auto intro!: gives_return intro: gives_bind)

section \<open>Process files (crates/core/src/proc.rs)\<close>

text \<open>
  The sources drop a name that is not valid UTF-8; the byte strings here are the valid ones,
  a failed validation being one of the ways a read can answer \<open>None\<close>.
\<close>

definition ESRCH :: errno where "ESRCH = 3"
definition EPERM :: errno where "EPERM = 1"
definition EINVAL :: errno where "EINVAL = 22"
definition EEXIST :: errno where "EEXIST = 17"
definition EIO :: errno where "EIO = 5"

definition MAX_PKG_LEN :: nat where "MAX_PKG_LEN = 128"
definition MAX_THREAD_LEN :: nat where "MAX_THREAD_LEN = 32"

definition proc_path :: "pid \<Rightarrow> string \<Rightarrow> string" where
  "proc_path p suffix = ''/proc/'' @ show_int p @ ''/'' @ suffix"

text \<open>
  \<open>write!\<close> into the 32-byte path buffer fails when the text does not fit
  (\<open>proc_path_fits\<close> below: it always fits).
\<close>

definition read_proc_file :: "'k os \<Rightarrow> pid \<Rightarrow> string \<Rightarrow> nat \<Rightarrow> ('k, string option) state" where
  "read_proc_file os p suffix cap =
     (if 32 < length (proc_path p suffix) then ret None
      else do {
        r \<leftarrow> sys (os_read_at os (proc_path p suffix) cap);
        ret (case r of None \<Rightarrow> None
             | Some bytes \<Rightarrow> (let b = take cap bytes in if b = [] then None else Some b))
      })"

definition nul :: char where "nul = char_of (0::nat)"

definition rsplit_last :: "char \<Rightarrow> string \<Rightarrow> string" where
  "rsplit_last d s = last (split_on (\<lambda>c. c = d) s)"

definition cmdline_name :: "string \<Rightarrow> string option" where
  "cmdline_name bytes =
     (let cmdline = takeWhile (\<lambda>b. b \<noteq> nul) bytes;
          trimmed = trim (rsplit_last (CHR ''/'') cmdline)
      in if trimmed = [] then None else Some trimmed)"

definition read_cmdline :: "'k os \<Rightarrow> pid \<Rightarrow> ('k, string option) state" where
  "read_cmdline os p = do {
     r \<leftarrow> read_proc_file os p ''cmdline'' MAX_PKG_LEN;
     ret (case r of None \<Rightarrow> None | Some bytes \<Rightarrow> cmdline_name bytes)
   }"

definition comm_name :: "string \<Rightarrow> string" where
  "comm_name bytes = trim (takeWhile (\<lambda>b. b \<noteq> nul \<and> \<not> is_newline b) bytes)"

definition read_thread_name :: "'k os \<Rightarrow> pid \<Rightarrow> ('k, string option) state" where
  "read_thread_name os t = do {
     r \<leftarrow> read_proc_file os t ''comm'' MAX_THREAD_LEN;
     ret (case r of None \<Rightarrow> None | Some bytes \<Rightarrow> Some (comm_name bytes))
   }"

definition nth_opt :: "'a list \<Rightarrow> nat \<Rightarrow> 'a option" where
  "nth_opt xs n = (if n < length xs then Some (xs ! n) else None)"

definition start_time_of :: "string \<Rightarrow> nat option" where
  "start_time_of content =
     (case rsplit_once (CHR '')'') content of
        None \<Rightarrow> None
      | Some (_, after) \<Rightarrow>
          (case nth_opt (split_whitespace after) 19 of None \<Rightarrow> None | Some v \<Rightarrow> parse_u64 v))"

definition read_start_time :: "'k os \<Rightarrow> pid \<Rightarrow> ('k, nat option) state" where
  "read_start_time os p = do {
     r \<leftarrow> sys (os_read_file os (proc_path p ''stat''));
     ret (case r of None \<Rightarrow> None | Some content \<Rightarrow> start_time_of content)
   }"

definition oom_adj_of :: "string option \<Rightarrow> int" where
  "oom_adj_of r =
     (case r of None \<Rightarrow> 0
      | Some v \<Rightarrow> (case parse_i32 (trim v) of None \<Rightarrow> 0 | Some i \<Rightarrow> i))"

definition read_oom_adj :: "'k os \<Rightarrow> pid \<Rightarrow> ('k, int) state" where
  "read_oom_adj os p = do {
     r \<leftarrow> sys (os_read_file os (proc_path p ''oom_score_adj''));
     ret (oom_adj_of r)
   }"

text \<open>\<open>find_map\<close>: the first line that has the prefix and parses.\<close>

fun find_map :: "('a \<Rightarrow> 'b option) \<Rightarrow> 'a list \<Rightarrow> 'b option" where
  "find_map f [] = None"
| "find_map f (x # xs) = (case f x of Some y \<Rightarrow> Some y | None \<Rightarrow> find_map f xs)"

definition tgid_line :: "string \<Rightarrow> int option" where
  "tgid_line l =
     (case strip_prefix ''Tgid:'' (trim l) of None \<Rightarrow> None | Some v \<Rightarrow> parse_i32 (trim v))"

definition read_tgid :: "'k os \<Rightarrow> pid \<Rightarrow> ('k, int option) state" where
  "read_tgid os p = do {
     r \<leftarrow> sys (os_read_file os (proc_path p ''status''));
     ret (case r of None \<Rightarrow> None | Some status \<Rightarrow> find_map tgid_line (str_lines status))
   }"

definition parse_stat_fields :: "string \<Rightarrow> string list option" where
  "parse_stat_fields stat =
     (case rsplit_once (CHR '')'') stat of
        None \<Rightarrow> None | Some (_, after) \<Rightarrow> Some (split_whitespace (trim after)))"

definition processor_of :: "string \<Rightarrow> nat option" where
  "processor_of stat =
     (case parse_stat_fields stat of None \<Rightarrow> None
      | Some f \<Rightarrow> (case nth_opt f 36 of None \<Rightarrow> None | Some v \<Rightarrow> parse_u32 v))"

definition read_processor :: "'k os \<Rightarrow> pid \<Rightarrow> ('k, nat option) state" where
  "read_processor os t = do {
     r \<leftarrow> sys (os_read_file os (proc_path t ''stat''));
     ret (case r of None \<Rightarrow> None | Some stat \<Rightarrow> processor_of stat)
   }"

text \<open>The sum wraps at 64 bits (release build).\<close>

definition cpu_ticks_of :: "string \<Rightarrow> nat option" where
  "cpu_ticks_of stat =
     (case parse_stat_fields stat of None \<Rightarrow> None
      | Some f \<Rightarrow>
          (case (nth_opt f 10, nth_opt f 11) of
             (Some u, Some s) \<Rightarrow>
               (case (parse_u64 u, parse_u64 s) of
                  (Some ut, Some st) \<Rightarrow> Some ((ut + st) mod 2 ^ 64) | _ \<Rightarrow> None)
           | _ \<Rightarrow> None))"

definition read_thread_cpu_secs :: "'k os \<Rightarrow> pid \<Rightarrow> ('k, nat option) state" where
  "read_thread_cpu_secs os t = do {
     r \<leftarrow> sys (os_read_file os (proc_path t ''stat''));
     ret (case r of None \<Rightarrow> None | Some stat \<Rightarrow> cpu_ticks_of stat)
   }"

definition is_alive :: "'k os \<Rightarrow> pid \<Rightarrow> ('k, bool) state" where
  "is_alive os p = do {
     r \<leftarrow> sys (os_kill0 os p);
     ret (case r of None \<Rightarrow> True | Some e \<Rightarrow> e \<noteq> ESRCH)
   }"

definition list_tids :: "'k os \<Rightarrow> pid \<Rightarrow> ('k, pid list) state" where
  "list_tids os p = do {
     r \<leftarrow> sys (os_read_dir os (''/proc/'' @ show_int p @ ''/task''));
     ret (case r of None \<Rightarrow> [] | Some names \<Rightarrow> List.map_filter parse_i32 names)
   }"

section \<open>Privileges (crates/core/src/caps.rs)\<close>

definition CAP_SYS_NICE :: nat where "CAP_SYS_NICE = 23"

definition cap_bit :: "u32 \<times> u32 \<Rightarrow> nat \<Rightarrow> bool" where
  "cap_bit data cap =
     (let word = (if cap < 32 then fst data else snd data)
      in word AND push_bit (cap mod 32) 1 \<noteq> 0)"

definition has_cap :: "'k os \<Rightarrow> nat \<Rightarrow> ('k, bool) state" where
  "has_cap os cap = do {
     r \<leftarrow> sys (os_capget os);
     ret (case r of None \<Rightarrow> False | Some data \<Rightarrow> cap_bit data cap)
   }"

definition can_rt_sched :: "'k os \<Rightarrow> ('k, bool) state" where
  "can_rt_sched os = do {
     uid \<leftarrow> sys (os_geteuid os);
     if uid = 0 then ret True else has_cap os CAP_SYS_NICE
   }"

section \<open>Lemmas\<close>

lemma show_nat_length: "n < 10 ^ k \<Longrightarrow> 0 < k \<Longrightarrow> length (show_nat n) \<le> k"
proof (induction n arbitrary: k rule: show_nat.induct)
  case (1 n)
  show ?case
  proof (cases "n < 10")
    case True
    with "1.prems" show ?thesis by (simp add: show_nat.simps [of n])
  next
    case False
    with "1.prems" obtain j where k: "k = Suc j" "0 < j"
      by (metis One_nat_def gr0_conv_Suc neq0_conv power_one_right)
    with "1.prems" have "n div 10 < 10 ^ j" by (simp add: less_mult_imp_div_less mult.commute)
    with "1.IH" False k show ?thesis by (simp add: show_nat.simps [of n])
  qed
qed

lemma show_int_length: "\<bar>i\<bar> < 10 ^ 10 \<Longrightarrow> length (show_int i) \<le> 11"
proof -
  assume i: "\<bar>i\<bar> < 10 ^ 10"
  then have "length (show_nat (nat \<bar>i\<bar>)) \<le> 10"
    by (intro show_nat_length) (simp_all add: nat_less_iff)
  then show ?thesis by (cases "i < 0") (simp_all add: show_int_def)
qed

lemma proc_path_fits:
  assumes "- (2 ^ 31) \<le> p" and "p < 2 ^ 31" and "length suffix \<le> 14"
  shows "length (proc_path p suffix) \<le> 32"
proof -
  have "\<bar>p\<bar> < 10 ^ 10" using assms(1,2) by simp
  from show_int_length [OF this] assms(3) show ?thesis by (simp add: proc_path_def)
qed

end
