(* ===== verification/Topology.thy ===== *)
theory Topology
  imports Complex_Main Os
begin

text \<open>
  CPU topology (crates/core/src/topology.rs): the classification of capacity groups into
  clusters, the detection of clusters and frequency domains from sysfs, the cpuset
  directories, and \<open>init_cpu_topo\<close>. The system-call wrappers on \<open>CpuSet\<close> stand here too.
\<close>

definition BASE_CPUSET :: string where "BASE_CPUSET = ''/dev/cpuset/threadctl''"

section \<open>System calls on masks\<close>

definition read_to_string :: "'k os \<Rightarrow> string \<Rightarrow> ('k, string option) state" where
  "read_to_string os path = sys (os_read_file os path)"

definition get_affinity :: "'k os \<Rightarrow> pid \<Rightarrow> ('k, CpuSet option) state" where
  "get_affinity os tid = do {
     r \<leftarrow> sys (os_getaffinity os tid);
     ret (case r of None \<Rightarrow> None | Some ws \<Rightarrow> Some \<lparr>bits = ws\<rparr>)
   }"

definition set_affinity :: "'k os \<Rightarrow> CpuSet \<Rightarrow> pid \<Rightarrow> ('k, errno option) state" where
  "set_affinity os s tid = sys (os_setaffinity os tid (bits s))"

text \<open>The first line with the prefix decides; an empty list is \<open>None\<close>.\<close>

fun allowed_of_lines :: "string list \<Rightarrow> CpuSet option" where
  "allowed_of_lines [] = None"
| "allowed_of_lines (l # ls) =
     (case strip_prefix ''Cpus_allowed_list:'' l of
        None \<Rightarrow> allowed_of_lines ls
      | Some v \<Rightarrow>
          (let list = trim v in if list = [] then None else Some (parse_cpu_ranges list None)))"

definition read_allowed_mask :: "'k os \<Rightarrow> pid \<Rightarrow> ('k, CpuSet option) state" where
  "read_allowed_mask os tid = do {
     r \<leftarrow> read_to_string os (proc_path tid ''status'');
     ret (case r of None \<Rightarrow> None | Some content \<Rightarrow> allowed_of_lines (str_lines content))
   }"

definition create_cpuset_dir :: "'k os \<Rightarrow> string \<Rightarrow> string \<Rightarrow> string \<Rightarrow> ('k, bool) state" where
  "create_cpuset_dir os path cpus mems = do {
     e \<leftarrow> sys (os_mkdir os path);
     if e \<noteq> None \<and> e \<noteq> Some EEXIST then ret False
     else do {
       _ \<leftarrow> sys (os_chmod_chown os path);
       a \<leftarrow> sys (os_write_file os (path @ ''/cpus'') cpus);
       if \<not> a then ret False
       else sys (os_write_file os (path @ ''/mems'') mems)
     }
   }"

definition remove_cpuset_dir :: "'k os \<Rightarrow> string \<Rightarrow> ('k, bool) state" where
  "remove_cpuset_dir os path = sys (os_rmdir os path)"

section \<open>Clusters\<close>

datatype CpuClusterKind = Prime | Big | Mid | Little | Unknown

fun config_name :: "CpuClusterKind \<Rightarrow> string" where
  "config_name Prime = ''prime''"
| "config_name Big = ''big''"
| "config_name Mid = ''mid''"
| "config_name Little = ''little''"
| "config_name Unknown = ''unknown''"

text \<open>
  The ratio is a quotient of two 32-bit values computed in \<open>f64\<close>; it is compared with 2 only,
  and a quotient of such values that is below 2 is also below 2 after rounding (the gap to 2
  is at least 2 to the power -32), so the exact quotient decides the same way.
\<close>

definition ALL_BIG_MAX_RATIO :: rat where "ALL_BIG_MAX_RATIO = 2"
definition ALL_BIG_MIN_CAPACITY :: nat where "ALL_BIG_MIN_CAPACITY = 300"
definition f64_max :: rat where "f64_max = (2 ^ 53 - 1) * 2 ^ 971"

definition middle_kind :: "nat \<Rightarrow> nat \<Rightarrow> CpuClusterKind" where
  "middle_kind n i =
     (if i = 0 then Little
      else if i = n - 1 then Prime
      else if 4 \<le> n \<and> i = 1 then Mid
      else Big)"

definition classify_clusters :: "(nat \<times> nat list) list \<Rightarrow> CpuClusterKind list" where
  "classify_clusters groups =
     (let n = length groups in
      if n = 0 then []
      else if n = 1 then [Unknown]
      else if n = 2 then
        (let min_cap = fst (groups ! 0); max_cap = fst (groups ! 1);
             ratio = (if 0 < min_cap then of_nat max_cap / of_nat min_cap else f64_max)
         in if ratio < ALL_BIG_MAX_RATIO \<and> ALL_BIG_MIN_CAPACITY < min_cap
            then [Big, Prime] else [Little, Big])
      else map (middle_kind n) [0..<n])"

record CpuCluster =
  kind :: CpuClusterKind
  cl_cpus :: CpuSet
  range_str :: string
  capacity :: nat

text \<open>\<open>BTreeMap::entry(cap).or_default().push(cpu)\<close> on a list sorted by key.\<close>

fun group_push :: "nat \<Rightarrow> 'a \<Rightarrow> (nat \<times> 'a list) list \<Rightarrow> (nat \<times> 'a list) list" where
  "group_push k x [] = [(k, [x])]"
| "group_push k x ((k', xs) # gs) =
     (if k < k' then (k, [x]) # (k', xs) # gs
      else if k = k' then (k', xs @ [x]) # gs
      else (k', xs) # group_push k x gs)"

definition SYS_CPU :: string where "SYS_CPU = ''/sys/devices/system/cpu''"

definition cpu_entry :: "string \<Rightarrow> nat option" where
  "cpu_entry name = (if starts_with ''cpu'' name then parse_usize (drop 3 name) else None)"

definition read_capacity ::
  "'k os \<Rightarrow> string \<Rightarrow> (nat \<times> nat list) list \<Rightarrow> ('k, (nat \<times> nat list) list) state" where
  "read_capacity os name groups =
     (case cpu_entry name of
        None \<Rightarrow> ret groups
      | Some cpu \<Rightarrow> do {
          r \<leftarrow> read_to_string os (SYS_CPU @ ''/'' @ name @ ''/cpu_capacity'');
          ret (case r of None \<Rightarrow> groups
               | Some raw \<Rightarrow>
                   (case parse_u32 (trim raw) of
                      None \<Rightarrow> groups | Some cap \<Rightarrow> group_push cap cpu groups))
        })"

definition build_cluster :: "CpuClusterKind \<Rightarrow> nat \<times> nat list \<Rightarrow> CpuCluster" where
  "build_cluster k g =
     (let cpus = fold cpuset_set (snd g) cpuset_new
      in \<lparr>kind = k, cl_cpus = cpus, range_str = to_range_string cpus, capacity = fst g\<rparr>)"

definition clusters_of_groups :: "(nat \<times> nat list) list \<Rightarrow> CpuCluster list" where
  "clusters_of_groups groups = map2 build_cluster (classify_clusters groups) groups"

definition detect_clusters :: "'k os \<Rightarrow> ('k, CpuCluster list) state" where
  "detect_clusters os = do {
     entries \<leftarrow> sys (os_read_dir os SYS_CPU);
     groups \<leftarrow> foldM (read_capacity os) (case entries of None \<Rightarrow> [] | Some es \<Rightarrow> es) [];
     if groups = [] then do {
       r \<leftarrow> read_to_string os (SYS_CPU @ ''/online'');
       ret (let cpus = (case r of None \<Rightarrow> cpuset_new
                        | Some content \<Rightarrow> parse_cpu_ranges (trim content) None)
            in [\<lparr>kind = Unknown, cl_cpus = cpus, range_str = to_range_string cpus, capacity = 0\<rparr>])
     }
     else ret (clusters_of_groups groups)
   }"

section \<open>Frequency domains\<close>

definition policy_entry :: "string \<Rightarrow> nat option" where
  "policy_entry name =
     (case strip_prefix ''policy'' name of None \<Rightarrow> None | Some p \<Rightarrow> parse_usize p)"

definition read_domain ::
  "'k os \<Rightarrow> string \<Rightarrow> (nat \<times> CpuSet) list \<Rightarrow> ('k, (nat \<times> CpuSet) list) state" where
  "read_domain os name domains =
     (case policy_entry name of
        None \<Rightarrow> ret domains
      | Some idx \<Rightarrow> do {
          let base = SYS_CPU @ ''/cpufreq/'' @ name;
          r1 \<leftarrow> read_to_string os (base @ ''/related_cpus'');
          r \<leftarrow> (case r1 of Some c \<Rightarrow> ret (Some c)
                | None \<Rightarrow> read_to_string os (base @ ''/affected_cpus''));
          ret (case r of None \<Rightarrow> domains
               | Some raw \<Rightarrow>
                   (let s = parse_cpu_ranges (trim raw) None
                    in if 0 < cpuset_count s then domains @ [(idx, s)] else domains))
        })"

definition detect_dvfs_domains :: "'k os \<Rightarrow> ('k, CpuSet list) state" where
  "detect_dvfs_domains os = do {
     entries \<leftarrow> sys (os_read_dir os (SYS_CPU @ ''/cpufreq''));
     (case entries of
        None \<Rightarrow> ret []
      | Some es \<Rightarrow> do {
          domains \<leftarrow> foldM (read_domain os) es [];
          ret (map snd (sort_key fst domains))
        })
   }"

section \<open>The topology\<close>

record CpuTopology =
  present_cpus :: CpuSet
  present_str :: string
  online_cpus :: CpuSet
  online_str :: string
  mems_str :: string
  cpuset_enabled :: bool
  base_cpuset_fd :: int
  clusters :: "CpuCluster list"
  dvfs_domains :: "CpuSet list"

definition topo_default :: CpuTopology where
  "topo_default = \<lparr>present_cpus = cpuset_new, present_str = [], online_cpus = cpuset_new,
     online_str = [], mems_str = [], cpuset_enabled = False, base_cpuset_fd = -1,
     clusters = [], dvfs_domains = []\<rparr>"

definition read_trimmed :: "'k os \<Rightarrow> string \<Rightarrow> string \<Rightarrow> ('k, string) state" where
  "read_trimmed os path dflt = do {
     r \<leftarrow> read_to_string os path;
     ret (case r of None \<Rightarrow> dflt | Some c \<Rightarrow> trim c)
   }"

definition init_cpu_topo :: "'k os \<Rightarrow> ('k, CpuTopology) state" where
  "init_cpu_topo os = do {
     present \<leftarrow> read_trimmed os (SYS_CPU @ ''/present'') [];
     online \<leftarrow> read_trimmed os (SYS_CPU @ ''/online'') [];
     cls \<leftarrow> detect_clusters os;
     doms \<leftarrow> detect_dvfs_domains os;
     let topo = topo_default\<lparr>present_str := present,
       present_cpus := parse_cpu_ranges present None,
       online_str := online, online_cpus := parse_cpu_ranges online None,
       clusters := cls, dvfs_domains := doms\<rparr>;
     root \<leftarrow> sys (os_exists os ''/dev/cpuset'');
     if \<not> root then ret topo
     else do {
       created \<leftarrow> create_cpuset_dir os BASE_CPUSET present ''0'';
       topo2 \<leftarrow> (if created then do {
                    fd \<leftarrow> sys (os_open_dir os BASE_CPUSET);
                    ret (topo\<lparr>base_cpuset_fd := fd, cpuset_enabled := (fd \<noteq> -1)\<rparr>)
                  } else ret topo);
       mems \<leftarrow> read_trimmed os (BASE_CPUSET @ ''/mems'') ''0'';
       ret (topo2\<lparr>mems_str := mems\<rparr>)
     }
   }"

section \<open>Lemmas\<close>

lemma classify_length [simp]: "length (classify_clusters gs) = length gs"
  by (simp add: classify_clusters_def Let_def)

lemma classify_two:
  "classify_clusters [(a, xs), (b, ys)] =
     (if 300 < a \<and> b < 2 * a then [Big, Prime] else [Little, Big])"
proof -
  have "(of_nat b / of_nat a < (2 :: rat)) = (b < 2 * a)" if "0 < a"
  proof -
    have "(of_nat b / of_nat a < (2 :: rat)) = (of_nat b < (of_nat (2 * a) :: rat))"
      using that by (simp add: divide_less_eq)
    then show ?thesis by (simp only: of_nat_less_iff)
  qed
  then show ?thesis
    by (auto simp: classify_clusters_def ALL_BIG_MAX_RATIO_def ALL_BIG_MIN_CAPACITY_def)
qed

lemma classify_many:
  assumes "2 < length gs" and "i < length gs"
  shows "classify_clusters gs ! i = middle_kind (length gs) i"
  using assms unfolding classify_clusters_def Let_def by (simp del: length_0_conv)

lemma group_push_keys: "fst ` set (group_push k x gs) = insert k (fst ` set gs)"
  by (induction k x gs rule: group_push.induct) auto

lemma group_push_sorted:
  "sorted_wrt (<) (map fst gs) \<Longrightarrow> sorted_wrt (<) (map fst (group_push k x gs))"
proof (induction k x gs rule: group_push.induct)
  case (2 k x k' xs gs)
  then show ?case
    using group_push_keys [of k x gs] by (auto simp flip: image_set)
qed simp

lemma group_push_not_Nil: "\<forall>g \<in> set gs. snd g \<noteq> [] \<Longrightarrow> \<forall>g \<in> set (group_push k x gs). snd g \<noteq> []"
  by (induction k x gs rule: group_push.induct) auto

lemma fold_cpuset_set:
  "wf_cpuset s \<Longrightarrow> wf_cpuset (fold cpuset_set xs s) \<and>
     members (fold cpuset_set xs s) = members s \<union> {c \<in> set xs. c < 1024}"
  by (induction xs arbitrary: s) auto

definition cluster_ok :: "CpuCluster \<Rightarrow> bool" where
  "cluster_ok c \<longleftrightarrow> wf_cpuset (cl_cpus c) \<and> range_str c = to_range_string (cl_cpus c)"

definition clusters_ok :: "CpuCluster list \<Rightarrow> bool" where
  "clusters_ok cs \<longleftrightarrow> cs \<noteq> [] \<and> sorted_wrt (<) (map capacity cs) \<and> (\<forall>c \<in> set cs. cluster_ok c) \<and>
     (length cs = 1 \<longrightarrow> kind (hd cs) = Unknown)"

lemma build_cluster_simps [simp]:
  "kind (build_cluster k g) = k" "capacity (build_cluster k g) = fst g"
  "cl_cpus (build_cluster k g) = fold cpuset_set (snd g) cpuset_new"
  by (simp_all add: build_cluster_def Let_def)

lemma build_cluster_ok: "cluster_ok (build_cluster k g)"
  using fold_cpuset_set [OF wf_new, of "snd g"]
  by (simp add: cluster_ok_def) (simp add: build_cluster_def Let_def)

lemma clusters_of_groups_length [simp]: "length (clusters_of_groups gs) = length gs"
  by (simp add: clusters_of_groups_def)

lemma clusters_of_groups_nth:
  "i < length gs \<Longrightarrow> clusters_of_groups gs ! i = build_cluster (classify_clusters gs ! i) (gs ! i)"
  by (simp add: clusters_of_groups_def)

lemma clusters_of_groups_ok:
  assumes "gs \<noteq> []" and "sorted_wrt (<) (map fst gs)"
  shows "clusters_ok (clusters_of_groups gs)"
proof -
  have caps: "map capacity (clusters_of_groups gs) = map fst gs"
    by (rule nth_equalityI) (simp_all add: clusters_of_groups_nth)
  have ok: "cluster_ok c" if "c \<in> set (clusters_of_groups gs)" for c
    using that by (auto simp: in_set_conv_nth clusters_of_groups_nth build_cluster_ok)
  have one: "kind (hd (clusters_of_groups gs)) = Unknown" if "length gs = 1"
    using that by (cases gs) (simp_all add: clusters_of_groups_def classify_clusters_def)
  show ?thesis using assms ok one
    unfolding clusters_ok_def caps by (metis clusters_of_groups_length length_0_conv)
qed

lemma read_capacity_sorted:
  "sorted_wrt (<) (map fst gs) \<Longrightarrow>
   gives (\<lambda>gs. sorted_wrt (<) (map fst gs)) (read_capacity os name gs)"
  unfolding read_capacity_def
  by (intro gives_intros) (auto split: option.splits intro: group_push_sorted)

lemma detect_clusters_ok: "gives clusters_ok (detect_clusters os)"
proof -
  let ?I = "\<lambda>gs. sorted_wrt (<) (map fst (gs :: (nat \<times> nat list) list))"
  have fold: "gives ?I (foldM (read_capacity os) es [])" for es
    by (rule gives_foldM) (simp_all add: read_capacity_sorted)
  have single: "clusters_ok [\<lparr>kind = Unknown, cl_cpus = c, range_str = to_range_string c, capacity = 0\<rparr>]"
    if "wf_cpuset c" for c
    using that by (simp add: clusters_ok_def cluster_ok_def)
  show ?thesis
    unfolding detect_clusters_def
    by (rule gives_bind_any, rule gives_bind [OF fold], intro gives_intros)
      (auto simp: single Let_def clusters_of_groups_ok split: option.splits)
qed

definition domains_ok :: "CpuSet list \<Rightarrow> bool" where
  "domains_ok ds \<longleftrightarrow> (\<forall>d \<in> set ds. wf_cpuset d \<and> members d \<noteq> {})"

lemma read_domain_ok:
  "domains_ok (map snd ds) \<Longrightarrow> gives (\<lambda>ds. domains_ok (map snd ds)) (read_domain os name ds)"
  unfolding read_domain_def Let_def
  by (intro gives_intros) (auto simp: domains_ok_def split: option.splits)

lemma detect_dvfs_domains_ok: "gives domains_ok (detect_dvfs_domains os)"
proof -
  have fold: "gives (\<lambda>ds. domains_ok (map snd ds)) (foldM (read_domain os) es [])" for es
    by (rule gives_foldM) (simp_all add: read_domain_ok, simp add: domains_ok_def)
  show ?thesis
    unfolding detect_dvfs_domains_def
    by (rule gives_bind_any, rule gives_option, rule gives_return, simp add: domains_ok_def,
        rule gives_bind [OF fold], rule gives_return)
      (simp add: domains_ok_def)
qed

definition topo_ok :: "CpuTopology \<Rightarrow> bool" where
  "topo_ok t \<longleftrightarrow>
     wf_cpuset (present_cpus t) \<and> wf_cpuset (online_cpus t) \<and>
     present_cpus t = parse_cpu_ranges (present_str t) None \<and>
     online_cpus t = parse_cpu_ranges (online_str t) None \<and>
     clusters_ok (clusters t) \<and> domains_ok (dvfs_domains t) \<and>
     (cpuset_enabled t \<longleftrightarrow> base_cpuset_fd t \<noteq> -1)"

lemma init_cpu_topo_ok: "gives topo_ok (init_cpu_topo os)"
proof -
  let ?topo = "\<lambda>present online cls doms. topo_default\<lparr>present_str := present,
       present_cpus := parse_cpu_ranges present None, online_str := online,
       online_cpus := parse_cpu_ranges online None, clusters := cls, dvfs_domains := doms\<rparr>"
  have topo: "topo_ok (?topo p q cls doms)" if "clusters_ok cls" "domains_ok doms" for p q cls doms
    using that by (simp add: topo_ok_def topo_default_def)
  have fd: "topo_ok (t\<lparr>base_cpuset_fd := fd, cpuset_enabled := (fd \<noteq> -1)\<rparr>)" if "topo_ok t" for t fd
    using that by (simp add: topo_ok_def)
  have mems: "topo_ok (t\<lparr>mems_str := m\<rparr>)" if "topo_ok t" for t m
    using that by (simp add: topo_ok_def)
  show ?thesis
    unfolding init_cpu_topo_def Let_def
    apply (rule gives_bind_any, rule gives_bind_any)
    apply (rule gives_bind [OF detect_clusters_ok], rule gives_bind [OF detect_dvfs_domains_ok])
    apply (rule gives_bind_any, rule gives_if, rule gives_return, rule topo, assumption+)
    apply (rule gives_bind_any, rule gives_bind [where R = topo_ok])
     apply (rule gives_if, rule gives_bind_any)
      apply (rule gives_return, rule fd, rule topo, assumption+)
     apply (rule gives_return, rule topo, assumption+)
    apply (rule gives_bind_any, rule gives_return, erule mems)
    done
qed

end
