(* ===== verification/Policy.thy ===== *)
theory Policy
  imports Topology
begin

text \<open>
  Scheduling policies, the compiled policy of a rule and the outcomes of applying it
  (crates/core/src/policy.rs); the configured form of a rule and its \<open>sched\<close> field
  (crates/core/src/config.rs).
\<close>

datatype SchedPolicy = Other | Fifo | Rr | Batch | Idle

definition sched_from_str :: "string \<Rightarrow> SchedPolicy option" where
  "sched_from_str s =
     (if s = ''other'' \<or> s = ''normal'' \<or> s = [] then Some Other
      else if s = ''fifo'' then Some Fifo
      else if s = ''rr'' then Some Rr
      else if s = ''batch'' then Some Batch
      else if s = ''idle'' then Some Idle
      else None)"

fun is_rt :: "SchedPolicy \<Rightarrow> bool" where
  "is_rt Fifo = True"
| "is_rt Rr = True"
| "is_rt _ = False"

text \<open>The numbers of the Linux scheduling classes.\<close>

fun to_libc :: "SchedPolicy \<Rightarrow> int" where
  "to_libc Other = 0"
| "to_libc Fifo = 1"
| "to_libc Rr = 2"
| "to_libc Batch = 3"
| "to_libc Idle = 5"

record Policy =
  cpus :: CpuSet
  cpuset_dir :: string
  sched :: "SchedPolicy option"
  sched_prio :: "int option"
  nice :: "int option"
  uclamp_min :: "nat option"
  uclamp_max :: "nat option"

datatype ApplyOutcome =
  Applied | Exited | BlockedByCgroup | Downgraded | BlockedByPerm | OEinval | Failed | SkippedNoCpus

record SchedSpec =
  ss_policy :: SchedPolicy
  ss_prio :: "int option"

record RuleConfig =
  rc_pkg :: string
  rc_thread :: string
  rc_cpus :: string
  rc_sched :: "string option"
  rc_nice :: "int option"
  rc_uclamp_min :: "nat option"
  rc_uclamp_max :: "nat option"

definition sched_spec_of :: "string \<Rightarrow> SchedSpec option" where
  "sched_spec_of s =
     (let (name, prio) = (case split_once (CHR '':'') s of
                            Some (n, p) \<Rightarrow> (n, parse_i32 p) | None \<Rightarrow> (s, None))
      in case sched_from_str name of
           None \<Rightarrow> None | Some policy \<Rightarrow> Some \<lparr>ss_policy = policy, ss_prio = prio\<rparr>)"

definition sched_spec :: "RuleConfig \<Rightarrow> SchedSpec option" where
  "sched_spec rc = (case rc_sched rc of None \<Rightarrow> None | Some s \<Rightarrow> sched_spec_of s)"

fun sched_name :: "SchedPolicy \<Rightarrow> string" where
  "sched_name Other = ''other''"
| "sched_name Fifo = ''fifo''"
| "sched_name Rr = ''rr''"
| "sched_name Batch = ''batch''"
| "sched_name Idle = ''idle''"

lemma sched_from_str_name [simp]: "sched_from_str (sched_name p) = Some p"
  by (cases p) (simp_all add: sched_from_str_def)

lemma sched_name_no_colon: "CHR '':'' \<notin> set (sched_name p)"
  by (cases p) simp_all

lemma to_libc_inj: "to_libc p = to_libc q \<longleftrightarrow> p = q"
  by (cases p; cases q) simp_all

lemma parse_signed_show_nat:
  assumes "int n < 2 ^ (w - 1)"
  shows "parse_signed w (show_nat n) = Some (int n)"
proof -
  obtain c cs where c: "show_nat n = c # cs" by (cases "show_nat n") auto
  then have d: "is_digit c" using show_nat_hd [of n] by simp
  then have "c \<noteq> CHR ''+''" "c \<noteq> CHR ''-''" by auto
  moreover have "- (2 ^ (w - 1)) \<le> int n" by (rule order_trans [of _ 0]) simp_all
  ultimately show ?thesis using c assms parse_digits_show_nat [of n]
    by (simp add: parse_signed_def Let_def del: parse_digits.simps)
qed

lemma parse_signed_show_neg:
  assumes "0 < n" and "int n \<le> 2 ^ (w - 1)"
  shows "parse_signed w (CHR ''-'' # show_nat n) = Some (- int n)"
proof -
  have "- int n < 2 ^ (w - 1)" by (rule less_le_trans [of _ 0]) (use assms in simp_all)
  then show ?thesis using assms parse_digits_show_nat [of n]
    by (simp add: parse_signed_def Let_def del: parse_digits.simps)
qed

lemma parse_i32_show_int:
  assumes "- (2 ^ 31) \<le> i" and "i < 2 ^ 31"
  shows "parse_i32 (show_int i) = Some i"
  using assms parse_signed_show_nat [of "nat i" 32] parse_signed_show_neg [of "nat (- i)" 32]
  by (auto simp: parse_i32_def show_int_def)

lemma sched_spec_round_trip:
  assumes "- (2 ^ 31) \<le> i" and "i < 2 ^ 31"
  shows "sched_spec_of (sched_name p @ '':'' @ show_int i) = Some \<lparr>ss_policy = p, ss_prio = Some i\<rparr>"
  using split_once_sep [OF sched_name_no_colon, of p "show_int i"] parse_i32_show_int [OF assms]
  by (simp add: sched_spec_of_def)

end
