(* ===== verification/Mask_Properties.thy ===== *)
theory Mask_Properties
  imports Policy
begin

text \<open>
  The properties of the CPU masks, their text form, the topology built from them and the
  \<open>sched\<close> field of a rule.
\<close>

section \<open>Masks and ranges\<close>

definition sample_mask :: CpuSet where
  "sample_mask = fold cpuset_set [0, 1, 2, 5, 64, 1023] cpuset_new"

lemma sample_mask_wf: "wf_cpuset sample_mask"
  using fold_cpuset_set [OF wf_new] by (simp add: sample_mask_def)

lemma sample_mask_members: "members sample_mask = {0, 1, 2, 5, 64, 1023}"
  by (simp add: sample_mask_def insert_commute)

text \<open>C39. Printing a mask as a range string and parsing the string gives the mask back.\<close>

theorem range_string_round_trip:
  assumes "wf_cpuset s"
  shows "parse_cpu_ranges (to_range_string s) None = s"
  using assms by (rule parse_to_range_string)

theorem range_string_round_trip_witness:
  "parse_cpu_ranges (to_range_string sample_mask) None = sample_mask"
  by (rule range_string_round_trip [OF sample_mask_wf])

text \<open>
  The range string is a faithful name of the mask: two masks have the same string exactly
  when they are equal, and only the empty mask has the empty string. The cpuset directories
  are named by these strings.
\<close>

theorem range_string_is_a_name:
  assumes "wf_cpuset s" and "wf_cpuset t"
  shows "(to_range_string s = to_range_string t \<longleftrightarrow> s = t) \<and> (to_range_string s = [] \<longleftrightarrow> members s = {})"
  using assms by (simp add: to_range_string_inj to_range_string_Nil)

theorem range_string_is_a_name_witness:
  "to_range_string sample_mask \<noteq> to_range_string cpuset_new \<and> to_range_string sample_mask \<noteq> []"
  using range_string_is_a_name [OF sample_mask_wf wf_new] sample_mask_members by auto

text \<open>
  Parsing with a filter of present CPUs is parsing without one, intersected with the
  present CPUs; and whatever the text, the result is a mask of CPUs below 1024.
\<close>

theorem parse_filters_present:
  assumes "wf_cpuset p"
  shows "parse_cpu_ranges spec (Some p) = cpuset_and (parse_cpu_ranges spec None) p \<and>
    members (parse_cpu_ranges spec (Some p)) \<subseteq> members p \<inter> {..<1024}"
  using assms parse_present [OF assms, of spec]
  by (auto dest: members_bound)

theorem parse_filters_present_witness:
  "members (parse_cpu_ranges ''0-7,9'' (Some sample_mask)) \<subseteq> {0, 1, 2, 5, 64, 1023}"
  using parse_filters_present [OF sample_mask_wf, of "''0-7,9''"] sample_mask_members by auto

text \<open>
  The word-level operations compute the set operations: union, intersection, the number
  of members, emptiness, and an iteration in increasing order without repetition.
\<close>

theorem mask_operations:
  assumes "wf_cpuset s" and "wf_cpuset t"
  shows "members (cpuset_or s t) = members s \<union> members t \<and>
    members (cpuset_and s t) = members s \<inter> members t \<and>
    cpuset_count s = card (members s) \<and>
    (cpuset_is_empty s \<longleftrightarrow> members s = {}) \<and>
    cpuset_iter s = sorted_list_of_set (members s)"
  using assms by (simp add: count_card is_empty_members iter_sorted_list)

theorem mask_operations_witness:
  "cpuset_iter sample_mask = [0, 1, 2, 5, 64, 1023] \<and> cpuset_count sample_mask = 6"
  using mask_operations [OF sample_mask_wf wf_new] by (simp add: sample_mask_members)

section \<open>Topology\<close>

text \<open>
  The kinds of the clusters, for every list of capacity groups: none, one unknown, two by
  the ratio and minimum of their capacities, and from three on little first, prime last, the
  second of four or more middle and the others big.
\<close>

theorem cluster_kinds:
  "classify_clusters gs =
     (case gs of
        [] \<Rightarrow> []
      | [g] \<Rightarrow> [Unknown]
      | [(a, _), (b, _)] \<Rightarrow> if 300 < a \<and> b < 2 * a then [Big, Prime] else [Little, Big]
      | _ \<Rightarrow> Little # map (\<lambda>i. if i = 1 \<and> 4 \<le> length gs then Mid else Big) [1..<length gs - 1] @ [Prime])"
proof -
  consider "gs = []" | g where "gs = [g]" | a xs b ys where "gs = [(a, xs), (b, ys)]"
    | g h i js where "gs = g # h # i # js"
    by (metis list.exhaust surj_pair)
  then show ?thesis
  proof cases
    case (4 g h i js)
    define n where "n = length js"
    have "[0..<Suc (Suc (Suc n))] = 0 # [1..<Suc (Suc n)] @ [Suc (Suc n)]"
      by (simp add: upt_conv_Cons [symmetric])
    moreover have "map (middle_kind (Suc (Suc (Suc n)))) [1..<Suc (Suc n)] =
        map (\<lambda>i. if i = 1 \<and> 1 \<le> n then Mid else Big) [1..<Suc (Suc n)]"
      by (auto simp: middle_kind_def)
    ultimately show ?thesis
      by (simp add: 4 classify_clusters_def n_def [symmetric] middle_kind_def)
  qed (simp_all add: classify_two, simp add: classify_clusters_def, simp add: classify_clusters_def)
qed

text \<open>
  C40. Whatever the kernel's files say, the detected topology is consistent: both masks are
  the parses of the strings kept beside them, there is a cluster, the clusters are in strictly
  increasing order of capacity and named by their range, no frequency domain is empty, and
  the cpuset channel is enabled exactly when its directory is open.
\<close>

theorem detected_topology:
  "topo_ok (fst (run_state (init_cpu_topo os) k))"
  by (rule givesD [OF init_cpu_topo_ok])

section \<open>Scheduling specifications\<close>

text \<open>
  The text \<open>name:priority\<close> of every policy and every 32-bit priority is read back as that
  policy and priority.
\<close>

theorem sched_spec_parses:
  assumes "- (2 ^ 31) \<le> i" and "i < 2 ^ 31"
  shows "sched_spec_of (sched_name p @ '':'' @ show_int i) = Some \<lparr>ss_policy = p, ss_prio = Some i\<rparr>"
  using assms by (rule sched_spec_round_trip)

theorem sched_spec_parses_witness:
  "sched_spec_of (sched_name Fifo @ '':'' @ show_int (- 60)) = Some \<lparr>ss_policy = Fifo, ss_prio = Some (- 60)\<rparr>"
  by (rule sched_spec_parses) simp_all

end
