(* ===== verification/Merge.thy ===== *)
theory Merge
  imports Policy
begin

text \<open>
  Field-level merging of the rules that match a package (crates/core/src/merge.rs): rules are
  sorted by the explicit priority of their source, CPU masks are united within the highest
  group that has one, the first policy and the first nice value win, and uclamp bounds
  accumulate over all sources. \<open>merge_spec\<close> states each field's strategy directly, and
  \<open>merge_rules_spec\<close> shows that the loop computes it.
\<close>

section \<open>Sources and matches (crates/core/src/ruleset.rs)\<close>

datatype RuleSource =
  Global | Profile | Group | PackageWildcard | PackageExact | ThreadType | ThreadExact

fun priority :: "RuleSource \<Rightarrow> nat" where
  "priority Global = 10"
| "priority Profile = 20"
| "priority Group = 30"
| "priority PackageWildcard = 40"
| "priority PackageExact = 50"
| "priority ThreadType = 60"
| "priority ThreadExact = 70"

record RuleMatch =
  index :: nat
  source :: RuleSource

record CompiledRule =
  cr_pkg :: string
  cr_thread :: string
  thread_pattern :: "string option"
  cr_policy :: Policy

section \<open>The strategy table\<close>

datatype MergeStrategy = Override | FillMissing | BitOr | FirstWins | SMax | SMin

definition MERGE_TABLE :: "(string \<times> MergeStrategy) list" where
  "MERGE_TABLE = [(''cpus'', BitOr), (''sched'', FirstWins), (''nice'', FirstWins),
     (''uclamp_min'', SMax), (''uclamp_max'', SMin)]"

definition validate_table :: bool where
  "validate_table =
     (let seen = fold (\<lambda>(n, s) m. m(n \<mapsto> s)) MERGE_TABLE Map.empty
      in card (dom seen) = length MERGE_TABLE)"

section \<open>Merging\<close>

record merge_st =
  m_cpus :: CpuSet
  m_cpus_set :: bool
  m_sched :: "SchedPolicy option"
  m_prio :: "int option"
  m_nice :: "int option"
  m_umin :: "nat option"
  m_umax :: "nat option"
  m_group_cpus :: CpuSet
  m_group_has :: bool
  m_cur :: "RuleSource option"

definition merge_init :: merge_st where
  "merge_init = \<lparr>m_cpus = cpuset_new, m_cpus_set = False, m_sched = None, m_prio = None,
     m_nice = None, m_umin = None, m_umax = None, m_group_cpus = cpuset_new,
     m_group_has = False, m_cur = None\<rparr>"

definition flush_group :: "merge_st \<Rightarrow> merge_st" where
  "flush_group st =
     (if m_group_has st \<and> \<not> m_cpus_set st
      then st\<lparr>m_cpus := m_group_cpus st, m_cpus_set := True\<rparr> else st)"

definition enter_group :: "RuleSource \<Rightarrow> merge_st \<Rightarrow> merge_st" where
  "enter_group src st =
     (if m_cur st \<noteq> Some src
      then (flush_group st)\<lparr>m_group_cpus := cpuset_new, m_group_has := False, m_cur := Some src\<rparr>
      else st)"

definition acc_cpus :: "CpuSet \<Rightarrow> merge_st \<Rightarrow> merge_st" where
  "acc_cpus c st =
     (if 0 < cpuset_count c
      then st\<lparr>m_group_cpus := cpuset_or (m_group_cpus st) c, m_group_has := True\<rparr> else st)"

definition acc_sched :: "Policy \<Rightarrow> merge_st \<Rightarrow> merge_st" where
  "acc_sched p st =
     (if m_sched st = None \<and> sched p \<noteq> None
      then st\<lparr>m_sched := sched p, m_prio := sched_prio p\<rparr> else st)"

definition acc_nice :: "Policy \<Rightarrow> merge_st \<Rightarrow> merge_st" where
  "acc_nice p st = (if m_nice st = None then st\<lparr>m_nice := nice p\<rparr> else st)"

definition combine_opt :: "(nat \<Rightarrow> nat \<Rightarrow> nat) \<Rightarrow> nat option \<Rightarrow> nat option \<Rightarrow> nat option" where
  "combine_opt f cur new =
     (case new of None \<Rightarrow> cur
      | Some m \<Rightarrow> Some (case cur of None \<Rightarrow> m | Some c \<Rightarrow> f c m))"

definition acc_uclamp :: "Policy \<Rightarrow> merge_st \<Rightarrow> merge_st" where
  "acc_uclamp p st =
     st\<lparr>m_umin := combine_opt max (m_umin st) (uclamp_min p),
        m_umax := combine_opt min (m_umax st) (uclamp_max p)\<rparr>"

definition merge_step :: "RuleSource \<times> Policy \<Rightarrow> merge_st \<Rightarrow> merge_st" where
  "merge_step sp st =
     acc_uclamp (snd sp) (acc_nice (snd sp) (acc_sched (snd sp)
       (acc_cpus (cpus (snd sp)) (enter_group (fst sp) st))))"

text \<open>\<open>sort_by_key(Reverse(priority))\<close> is stable.\<close>

definition by_priority :: "RuleMatch list \<Rightarrow> RuleMatch list" where
  "by_priority ms = sort_key (\<lambda>m. - int (priority (source m))) ms"

definition match_policy :: "CompiledRule list \<Rightarrow> RuleMatch \<Rightarrow> RuleSource \<times> Policy" where
  "match_policy rules m = (source m, cr_policy (rules ! index m))"

definition merge_finish :: "merge_st \<Rightarrow> Policy option" where
  "merge_finish st0 =
     (let st = flush_group st0 in
      if \<not> m_cpus_set st \<and> m_sched st = None \<and> m_nice st = None \<and>
         m_umin st = None \<and> m_umax st = None
      then None
      else Some \<lparr>cpus = m_cpus st, cpuset_dir = to_range_string (m_cpus st), sched = m_sched st,
                 sched_prio = m_prio st, nice = m_nice st,
                 uclamp_min = m_umin st, uclamp_max = m_umax st\<rparr>)"

definition merge_rules :: "RuleMatch list \<Rightarrow> CompiledRule list \<Rightarrow> Policy option" where
  "merge_rules matches rules =
     merge_finish (fold merge_step (map (match_policy rules) (by_priority matches)) merge_init)"

definition fill_missing :: "Policy \<Rightarrow> Policy \<Rightarrow> Policy" where
  "fill_missing p fb =
     (let p1 = (if cpuset_count (cpus p) = 0 then p\<lparr>cpus := cpus fb\<rparr> else p);
          p2 = (if sched p1 = None
                then p1\<lparr>sched := sched fb, sched_prio := sched_prio fb\<rparr> else p1);
          p3 = (if nice p2 = None then p2\<lparr>nice := nice fb\<rparr> else p2);
          p4 = (if uclamp_min p3 = None then p3\<lparr>uclamp_min := uclamp_min fb\<rparr> else p3)
      in if uclamp_max p4 = None then p4\<lparr>uclamp_max := uclamp_max fb\<rparr> else p4)"

section \<open>What the loop computes\<close>

text \<open>The fields one by one, over the rules in priority order.\<close>

definition has_cpus_sp :: "RuleSource \<times> Policy \<Rightarrow> bool" where
  "has_cpus_sp sp = (0 < cpuset_count (cpus (snd sp)))"

definition first_sched :: "(RuleSource \<times> Policy) list \<Rightarrow> (SchedPolicy \<times> int option) option" where
  "first_sched sps =
     find_map (\<lambda>sp. map_option (\<lambda>s. (s, sched_prio (snd sp))) (sched (snd sp))) sps"

definition first_nice :: "(RuleSource \<times> Policy) list \<Rightarrow> int option" where
  "first_nice sps = find_map (\<lambda>sp. nice (snd sp)) sps"

definition opt_vals :: "(Policy \<Rightarrow> nat option) \<Rightarrow> (RuleSource \<times> Policy) list \<Rightarrow> nat set" where
  "opt_vals f sps = {v. \<exists>sp \<in> set sps. f (snd sp) = Some v}"

definition opt_bound :: "(nat set \<Rightarrow> nat) \<Rightarrow> nat set \<Rightarrow> nat option" where
  "opt_bound agg V = (if V = {} then None else Some (agg V))"

definition top_source :: "(RuleSource \<times> Policy) list \<Rightarrow> RuleSource option" where
  "top_source sps = find_map (\<lambda>sp. if has_cpus_sp sp then Some (fst sp) else None) sps"

definition union_cpus :: "RuleSource \<Rightarrow> (RuleSource \<times> Policy) list \<Rightarrow> CpuSet" where
  "union_cpus src sps =
     fold (\<lambda>sp c. cpuset_or c (cpus (snd sp)))
       (filter (\<lambda>sp. fst sp = src \<and> has_cpus_sp sp) sps) cpuset_new"

definition top_cpus :: "(RuleSource \<times> Policy) list \<Rightarrow> CpuSet" where
  "top_cpus sps = (case top_source sps of None \<Rightarrow> cpuset_new | Some t \<Rightarrow> union_cpus t sps)"

definition merge_spec :: "(RuleSource \<times> Policy) list \<Rightarrow> Policy option" where
  "merge_spec sps =
     (if top_source sps = None \<and> first_sched sps = None \<and> first_nice sps = None \<and>
         opt_vals uclamp_min sps = {} \<and> opt_vals uclamp_max sps = {}
      then None
      else Some \<lparr>cpus = top_cpus sps, cpuset_dir = to_range_string (top_cpus sps),
        sched = map_option fst (first_sched sps),
        sched_prio = (case first_sched sps of None \<Rightarrow> None | Some (_, p) \<Rightarrow> p),
        nice = first_nice sps,
        uclamp_min = opt_bound Max (opt_vals uclamp_min sps),
        uclamp_max = opt_bound Min (opt_vals uclamp_max sps)\<rparr>)"

named_theorems merge_fields

lemma merge_step_sched [merge_fields]:
  "m_sched (merge_step sp st) = (if m_sched st = None then sched (snd sp) else m_sched st)"
  "m_prio (merge_step sp st) =
     (if m_sched st = None \<and> sched (snd sp) \<noteq> None then sched_prio (snd sp) else m_prio st)"
  by (auto simp: merge_step_def acc_uclamp_def acc_nice_def acc_sched_def acc_cpus_def
      enter_group_def flush_group_def)

lemma merge_step_nice [merge_fields]:
  "m_nice (merge_step sp st) = (if m_nice st = None then nice (snd sp) else m_nice st)"
  by (auto simp: merge_step_def acc_uclamp_def acc_nice_def acc_sched_def acc_cpus_def
      enter_group_def flush_group_def)

lemma merge_step_uclamp [merge_fields]:
  "m_umin (merge_step sp st) = combine_opt max (m_umin st) (uclamp_min (snd sp))"
  "m_umax (merge_step sp st) = combine_opt min (m_umax st) (uclamp_max (snd sp))"
  by (auto simp: merge_step_def acc_uclamp_def acc_nice_def acc_sched_def acc_cpus_def
      enter_group_def flush_group_def)

lemma merge_step_cpus [merge_fields]:
  "m_cur (merge_step sp st) = Some (fst sp)"
  "m_cpus (merge_step sp st) =
     (if m_cur st \<noteq> Some (fst sp) then m_cpus (flush_group st) else m_cpus st)"
  "m_cpus_set (merge_step sp st) =
     (if m_cur st \<noteq> Some (fst sp) then m_cpus_set (flush_group st) else m_cpus_set st)"
  "m_group_has (merge_step sp st) =
     (has_cpus_sp sp \<or> (m_cur st = Some (fst sp) \<and> m_group_has st))"
  "m_group_cpus (merge_step sp st) =
     (let g = (if m_cur st = Some (fst sp) then m_group_cpus st else cpuset_new)
      in if has_cpus_sp sp then cpuset_or g (cpus (snd sp)) else g)"
  by (auto simp: merge_step_def acc_uclamp_def acc_nice_def acc_sched_def acc_cpus_def
      enter_group_def flush_group_def has_cpus_sp_def Let_def)

lemma find_map_snoc:
  "find_map f (xs @ [x]) = (case find_map f xs of None \<Rightarrow> f x | Some y \<Rightarrow> Some y)"
  by (induction xs) (auto split: option.splits)

lemma opt_vals_snoc:
  "opt_vals f (sps @ [sp]) = (case f (snd sp) of None \<Rightarrow> opt_vals f sps | Some v \<Rightarrow> insert v (opt_vals f sps))"
  by (auto simp: opt_vals_def split: option.splits)

lemma finite_opt_vals [simp]: "finite (opt_vals f sps)"
proof -
  have "opt_vals f sps \<subseteq> (\<lambda>sp. the (f (snd sp))) ` set sps"
    by (force simp: opt_vals_def image_iff)
  then show ?thesis by (rule finite_subset) simp
qed

lemma fold_sched:
  "m_sched (fold merge_step sps merge_init) = map_option fst (first_sched sps) \<and>
   m_prio (fold merge_step sps merge_init) =
     (case first_sched sps of None \<Rightarrow> None | Some (_, p) \<Rightarrow> p)"
proof (induction sps rule: rev_induct)
  case Nil
  then show ?case by (simp add: merge_init_def first_sched_def)
next
  case (snoc sp sps)
  then show ?case
    by (auto simp: merge_fields first_sched_def find_map_snoc split: option.splits)
qed

lemma fold_nice: "m_nice (fold merge_step sps merge_init) = first_nice sps"
  by (induction sps rule: rev_induct)
    (auto simp: merge_init_def first_nice_def merge_fields find_map_snoc split: option.splits)

lemma fold_uclamp:
  "m_umin (fold merge_step sps merge_init) = opt_bound Max (opt_vals uclamp_min sps) \<and>
   m_umax (fold merge_step sps merge_init) = opt_bound Min (opt_vals uclamp_max sps)"
proof (induction sps rule: rev_induct)
  case Nil
  then show ?case by (simp add: merge_init_def opt_bound_def opt_vals_def)
next
  case (snoc sp sps)
  then show ?case
    by (auto simp: merge_fields opt_bound_def opt_vals_snoc combine_opt_def max.commute
        min.commute split: option.splits)
qed

lemma priority_inj: "priority a = priority b \<longleftrightarrow> a = b"
  by (cases a; cases b) simp_all

definition ordered_sps :: "(RuleSource \<times> Policy) list \<Rightarrow> bool" where
  "ordered_sps sps = sorted_wrt (\<lambda>a b. priority (fst b) \<le> priority (fst a)) sps"

lemma ordered_snoc:
  "ordered_sps (sps @ [sp]) \<longleftrightarrow>
     ordered_sps sps \<and> (\<forall>a \<in> set sps. priority (fst sp) \<le> priority (fst a))"
  by (auto simp: ordered_sps_def sorted_wrt_append)

text \<open>The group that is open after a prefix, and what was adopted from the groups before it.\<close>

definition cpu_inv :: "(RuleSource \<times> Policy) list \<Rightarrow> merge_st \<Rightarrow> bool" where
  "cpu_inv sps st \<longleftrightarrow>
     m_cur st = (if sps = [] then None else Some (fst (last sps))) \<and>
     (m_group_has st \<longrightarrow> \<not> m_cpus_set st \<longrightarrow> m_group_cpus st = union_cpus (fst (last sps)) sps) \<and>
     (\<not> m_group_has st \<longrightarrow> m_group_cpus st = cpuset_new) \<and>
     (case top_source sps of
        None \<Rightarrow> \<not> m_cpus_set st \<and> \<not> m_group_has st \<and> m_cpus st = cpuset_new
      | Some t \<Rightarrow>
          (if sps \<noteq> [] \<and> t = fst (last sps) then \<not> m_cpus_set st \<and> m_group_has st
           else m_cpus_set st \<and> m_cpus st = union_cpus t sps))"

lemma top_source_snoc:
  "top_source (sps @ [sp]) =
     (case top_source sps of None \<Rightarrow> if has_cpus_sp sp then Some (fst sp) else None | Some t \<Rightarrow> Some t)"
  by (simp add: top_source_def find_map_snoc split: option.splits)

lemma union_cpus_snoc:
  "union_cpus t (sps @ [sp]) =
     (if fst sp = t \<and> has_cpus_sp sp then cpuset_or (union_cpus t sps) (cpus (snd sp))
      else union_cpus t sps)"
  by (simp add: union_cpus_def)

lemma find_map_None: "find_map f xs = None \<longleftrightarrow> (\<forall>x \<in> set xs. f x = None)"
  by (induction xs) (auto split: option.splits)

lemma find_map_SomeD: "find_map f xs = Some y \<Longrightarrow> \<exists>x \<in> set xs. f x = Some y"
  by (induction xs) (auto split: option.splits)

lemma top_source_in: "top_source sps = Some t \<Longrightarrow> t \<in> fst ` set sps"
  unfolding top_source_def by (drule find_map_SomeD) (auto split: if_splits)

lemma union_cpus_None: "top_source sps = None \<Longrightarrow> union_cpus t sps = cpuset_new"
  unfolding top_source_def find_map_None union_cpus_def
  by (subst filter_False) (auto split: if_splits)

lemma union_cpus_fresh: "t \<notin> fst ` set sps \<Longrightarrow> union_cpus t sps = cpuset_new"
  unfolding union_cpus_def by (subst filter_False) auto

lemma flush_fields:
  "m_cpus (flush_group st) = (if m_group_has st \<and> \<not> m_cpus_set st then m_group_cpus st else m_cpus st)"
  "m_cpus_set (flush_group st) = (m_cpus_set st \<or> m_group_has st)"
  "m_sched (flush_group st) = m_sched st" "m_prio (flush_group st) = m_prio st"
  "m_nice (flush_group st) = m_nice st" "m_umin (flush_group st) = m_umin st"
  "m_umax (flush_group st) = m_umax st"
  by (auto simp: flush_group_def)

lemma cpu_inv_init: "cpu_inv [] merge_init"
  by (simp add: cpu_inv_def merge_init_def top_source_def)

lemma cpu_inv_same:
  assumes "cpu_inv sps st" and "sps \<noteq> []" and "fst (last sps) = fst sp"
  shows "cpu_inv (sps @ [sp]) (merge_step sp st)"
  using assms
  by (auto simp: cpu_inv_def merge_fields top_source_snoc union_cpus_snoc union_cpus_None Let_def
      split: option.splits if_splits)

lemma cpu_inv_new:
  assumes inv: "cpu_inv sps st" and new: "fst sp \<notin> fst ` set sps"
  shows "cpu_inv (sps @ [sp]) (merge_step sp st)"
proof -
  have cur: "m_cur st \<noteq> Some (fst sp)"
    using inv new by (cases sps rule: rev_cases) (auto simp: cpu_inv_def)
  have u: "union_cpus (fst sp) sps = cpuset_new" using new by (rule union_cpus_fresh)
  show ?thesis
  proof (cases "top_source sps")
    case None
    with inv cur show ?thesis
      by (auto simp: cpu_inv_def merge_fields flush_fields top_source_snoc union_cpus_snoc u Let_def)
  next
    case (Some t)
    from top_source_in [OF this] have t_in: "t \<in> fst ` set sps" .
    then have t: "sps \<noteq> []" by auto
    have t': "t \<noteq> fst sp" using t_in new by blast
    with t t' inv cur Some show ?thesis
      by (cases "t = fst (last sps)") (auto simp: cpu_inv_def merge_fields flush_fields top_source_snoc union_cpus_snoc u Let_def)
  qed
qed

lemma fold_cpu_inv: "ordered_sps sps \<Longrightarrow> cpu_inv sps (fold merge_step sps merge_init)"
proof (induction sps rule: rev_induct)
  case Nil
  then show ?case by (simp add: cpu_inv_init)
next
  case (snoc sp sps)
  then have inv: "cpu_inv sps (fold merge_step sps merge_init)"
    and le: "\<forall>a \<in> set sps. priority (fst sp) \<le> priority (fst a)"
    and ord: "ordered_sps sps" by (auto simp: ordered_snoc)
  show ?case
  proof (cases "sps \<noteq> [] \<and> fst (last sps) = fst sp")
    case True
    with cpu_inv_same [OF inv] show ?thesis by simp
  next
    case False
    have "fst sp \<notin> fst ` set sps"
    proof
      assume "fst sp \<in> fst ` set sps"
      then obtain a where a: "a \<in> set sps" "fst a = fst sp" by auto
      then obtain ys l where l: "sps = ys @ [l]" by (cases sps rule: rev_cases) auto
      have "priority (fst l) \<le> priority (fst a)" using a ord l by (auto simp: ordered_snoc)
      with le l a have "priority (fst l) = priority (fst sp)" by (auto intro: le_antisym)
      with False l show False by (simp add: priority_inj)
    qed
    from cpu_inv_new [OF inv this] show ?thesis by simp
  qed
qed

lemma merge_fold_spec:
  assumes "ordered_sps sps"
  shows "merge_finish (fold merge_step sps merge_init) = merge_spec sps"
proof -
  let ?st = "fold merge_step sps merge_init"
  have inv: "cpu_inv sps ?st" using assms by (rule fold_cpu_inv)
  have set: "m_cpus_set (flush_group ?st) \<longleftrightarrow> top_source sps \<noteq> None"
    using inv by (auto simp: cpu_inv_def flush_fields split: option.splits if_splits)
  have cpus: "m_cpus (flush_group ?st) = top_cpus sps"
    using inv by (auto simp: cpu_inv_def flush_fields top_cpus_def split: option.splits if_splits)
  have opt: "opt_bound agg V = None \<longleftrightarrow> V = {}" for agg V by (simp add: opt_bound_def)
  show ?thesis
    by (simp add: merge_finish_def Let_def set cpus flush_fields(3-) fold_sched fold_nice
        fold_uclamp merge_spec_def opt)
qed

lemma ordered_by_priority: "ordered_sps (map (match_policy rules) (by_priority ms))"
proof -
  have "sorted (map (\<lambda>m. - int (priority (source m))) (by_priority ms))"
    by (simp add: by_priority_def)
  then show ?thesis
    by (simp add: ordered_sps_def sorted_map sorted_wrt_map match_policy_def)
qed

lemma merge_rules_eq_spec:
  "merge_rules ms rules = merge_spec (map (match_policy rules) (by_priority ms))"
  by (simp add: merge_rules_def merge_fold_spec ordered_by_priority)

lemma merge_rules_Nil [simp]: "merge_rules [] rules = None"
  by (simp add: merge_rules_def by_priority_def merge_finish_def merge_init_def flush_group_def)

end
