(* ===== verification/Floats.thy ===== *)
theory Floats
  imports Complex_Main Prelude
begin

text \<open>
  The floating-point values of the program. The sources use \<open>f64\<close> for ratios of small integers
  and for numbers parsed from sysfs, and only compare them with constants, so the model keeps
  the special values (not-a-number, the infinities), whose comparisons matter, and computes the
  finite ones exactly: rounding, overflow and the sign of zero are abstracted. Where a number is
  printed, Float_Text rounds it.
\<close>

datatype f64 = Nan | PInf | NInf | Fin rat

fun f_lt :: "f64 \<Rightarrow> f64 \<Rightarrow> bool" where
  "f_lt (Fin a) (Fin b) = (a < b)"
| "f_lt Nan _ = False"
| "f_lt _ Nan = False"
| "f_lt NInf y = (y \<noteq> NInf)"
| "f_lt x PInf = (x \<noteq> PInf)"
| "f_lt PInf _ = False"
| "f_lt (Fin _) NInf = False"

definition f_eq :: "f64 \<Rightarrow> f64 \<Rightarrow> bool" where
  "f_eq x y = (x = y \<and> x \<noteq> Nan)"

definition f_ge :: "f64 \<Rightarrow> f64 \<Rightarrow> bool" where
  "f_ge x y = (f_lt y x \<or> f_eq x y)"

fun f_add :: "f64 \<Rightarrow> f64 \<Rightarrow> f64" where
  "f_add (Fin a) (Fin b) = Fin (a + b)"
| "f_add Nan _ = Nan"
| "f_add _ Nan = Nan"
| "f_add PInf NInf = Nan"
| "f_add NInf PInf = Nan"
| "f_add PInf _ = PInf"
| "f_add _ PInf = PInf"
| "f_add NInf _ = NInf"
| "f_add _ NInf = NInf"

fun f_neg :: "f64 \<Rightarrow> f64" where
  "f_neg (Fin a) = Fin (- a)"
| "f_neg PInf = NInf"
| "f_neg NInf = PInf"
| "f_neg Nan = Nan"

definition f_sub :: "f64 \<Rightarrow> f64 \<Rightarrow> f64" where
  "f_sub x y = f_add x (f_neg y)"

definition f_inf_sign :: "bool \<Rightarrow> f64" where
  "f_inf_sign neg = (if neg then NInf else PInf)"

fun f_div :: "f64 \<Rightarrow> f64 \<Rightarrow> f64" where
  "f_div Nan _ = Nan"
| "f_div _ Nan = Nan"
| "f_div (Fin a) (Fin b) =
     (if b = 0 then (if a = 0 then Nan else f_inf_sign (a < 0)) else Fin (a / b))"
| "f_div (Fin _) _ = Fin 0"
| "f_div PInf (Fin b) = f_inf_sign (b < 0)"
| "f_div NInf (Fin b) = f_inf_sign (0 \<le> b)"
| "f_div _ _ = Nan"

text \<open>\<open>f64::max\<close> ignores a not-a-number operand; \<open>f64::clamp\<close> keeps it.\<close>

definition f_max :: "f64 \<Rightarrow> f64 \<Rightarrow> f64" where
  "f_max x y = (if x = Nan then y else if y = Nan then x else if f_lt x y then y else x)"

definition f_clamp :: "f64 \<Rightarrow> f64 \<Rightarrow> f64 \<Rightarrow> f64" where
  "f_clamp lo hi x = (if f_lt x lo then lo else if f_lt hi x then hi else x)"

definition f_of_nat :: "nat \<Rightarrow> f64" where
  "f_of_nat n = Fin (of_nat n)"

section \<open>Parsing\<close>

text \<open>\<open>str::parse\<close> at \<open>f64\<close>: sign, digits with an optional point, optional exponent, or a name.\<close>

definition digits_ok :: "string \<Rightarrow> bool" where
  "digits_ok s = list_all is_digit s"

definition parse_mantissa :: "string \<Rightarrow> rat option" where
  "parse_mantissa s =
     (let (a, b) = (case split_once (CHR ''.'') s of None \<Rightarrow> (s, []) | Some p \<Rightarrow> p)
      in if a @ b = [] then None
         else case parse_digits 0 (a @ b) of
           None \<Rightarrow> None | Some n \<Rightarrow> Some (of_nat n / 10 ^ length b))"

definition parse_exponent :: "string \<Rightarrow> int option" where
  "parse_exponent s =
     (case s of [] \<Rightarrow> None
      | c # cs \<Rightarrow>
          (let ds = (if c = CHR ''-'' \<or> c = CHR ''+'' then cs else s)
           in if ds = [] then None
              else case parse_digits 0 ds of None \<Rightarrow> None
                   | Some n \<Rightarrow> Some (if c = CHR ''-'' then - int n else int n)))"

definition scale10 :: "int \<Rightarrow> rat \<Rightarrow> rat" where
  "scale10 e r = (if 0 \<le> e then r * 10 ^ nat e else r / 10 ^ nat (- e))"

definition parse_decimal :: "string \<Rightarrow> rat option" where
  "parse_decimal s =
     (let lower = map (\<lambda>c. if c = CHR ''E'' then CHR ''e'' else c) s
      in case split_once (CHR ''e'') lower of
           None \<Rightarrow> parse_mantissa lower
         | Some (m, e) \<Rightarrow>
             (case (parse_mantissa m, parse_exponent e) of
                (Some r, Some x) \<Rightarrow> Some (scale10 x r) | _ \<Rightarrow> None))"

definition parse_f64 :: "string \<Rightarrow> f64 option" where
  "parse_f64 s =
     (let neg = (s \<noteq> [] \<and> hd s = CHR ''-'');
          body = (if s \<noteq> [] \<and> (hd s = CHR ''-'' \<or> hd s = CHR ''+'') then tl s else s);
          name = to_lowercase body;
          sign = (\<lambda>x. if neg then f_neg x else x)
      in if name = ''nan'' then Some Nan
         else if name = ''inf'' \<or> name = ''infinity'' then Some (sign PInf)
         else case parse_decimal body of None \<Rightarrow> None | Some r \<Rightarrow> Some (sign (Fin r)))"

section \<open>Values between two bounds\<close>

definition f_between :: "rat \<Rightarrow> rat \<Rightarrow> f64 \<Rightarrow> bool" where
  "f_between lo hi x = (\<exists>r. x = Fin r \<and> lo \<le> r \<and> r \<le> hi)"

lemma f_between_Fin [simp]: "f_between lo hi (Fin r) \<longleftrightarrow> lo \<le> r \<and> r \<le> hi"
  by (simp add: f_between_def)

lemma f_lt_Nan [simp]: "\<not> f_lt x Nan"
  by (cases x) simp_all

lemma f_clamp_between:
  "lo \<le> hi \<Longrightarrow> x \<noteq> Nan \<Longrightarrow> f_between lo hi (f_clamp (Fin lo) (Fin hi) x)"
  by (cases x) (auto simp: f_clamp_def)

lemma f_clamp_Nan [simp]: "f_clamp lo hi Nan = Nan"
  by (simp add: f_clamp_def)

lemma f_div_nat_between:
  assumes "a \<le> b"
  shows "f_between 0 1 (if b = 0 then Fin 0 else f_div (f_of_nat a) (f_of_nat b))"
  using assms by (simp add: f_of_nat_def divide_le_eq)

lemma f_max_not_Nan: "f_max x y = Nan \<longleftrightarrow> x = Nan \<and> y = Nan"
  by (auto simp: f_max_def)

end
