(* ===== verification/System_Context.thy ===== *)
theory System_Context
  imports Floats Os "HOL-Library.List_Lexorder" "HOL-Library.Char_ord"
begin

text \<open>
  The state of the system the daemon reacts to (crates/core/src/system_context.rs): memory
  pressure from PSI, thermal zones and cooling devices, battery, the lowest frequency ratio, and
  the poller whose interval follows the pressure. \<open>sample\<close> reads all of it from the kernel.
\<close>

datatype PressureLevel = Normal | Moderate | Critical

record ThermalZone =
  zone_type :: string
  temperature_mc :: int

record SystemContext =
  memory_pressure :: PressureLevel
  memory_avg10 :: f64
  thermal_zones :: "ThermalZone list"
  sc_thermal_pressure :: f64
  battery_pct :: "nat option"
  is_charging :: bool
  sc_freq_throttle :: f64
  next_poll_interval :: nat

definition rd :: "'k os \<Rightarrow> string \<Rightarrow> ('k, string option) state" where
  "rd os path = sys (os_read_file os path)"

definition rd_default :: "'k os \<Rightarrow> string \<Rightarrow> ('k, string) state" where
  "rd_default os path = do { r \<leftarrow> rd os path; ret (case r of None \<Rightarrow> [] | Some s \<Rightarrow> s) }"

section \<open>Frequencies\<close>

definition CPUFREQ :: string where "CPUFREQ = ''/sys/devices/system/cpu/cpufreq''"

text \<open>One directory entry; the local \<open>min\<close> starts at 1 and \<open>found\<close> at false.\<close>

definition freq_ratio :: "string \<Rightarrow> string \<Rightarrow> f64 option" where
  "freq_ratio cur_s max_s =
     (case (parse_f64 (trim cur_s), parse_f64 (trim max_s)) of
        (Some cur_f, Some max_f) \<Rightarrow>
          (if f_lt (Fin 0) max_f then Some (f_clamp (Fin 0) (Fin 1) (f_div cur_f max_f)) else None)
      | _ \<Rightarrow> None)"

definition freq_entry :: "'k os \<Rightarrow> string \<Rightarrow> f64 \<times> bool \<Rightarrow> ('k, f64 \<times> bool) state" where
  "freq_entry os name acc = do {
     cur \<leftarrow> rd os (CPUFREQ @ ''/'' @ name @ ''/scaling_cur_freq'');
     (case cur of
        None \<Rightarrow> ret acc
      | Some cur_s \<Rightarrow> do {
          mx \<leftarrow> rd os (CPUFREQ @ ''/'' @ name @ ''/scaling_max_freq'');
          ret (case mx of
             None \<Rightarrow> acc
           | Some max_s \<Rightarrow>
               (case freq_ratio cur_s max_s of
                  None \<Rightarrow> acc
                | Some ratio \<Rightarrow> (if f_lt ratio (fst acc) then ratio else fst acc, True)))
        })
   }"

definition read_freq_throttle :: "'k os \<Rightarrow> ('k, f64) state" where
  "read_freq_throttle os = do {
     entries \<leftarrow> sys (os_read_dir os CPUFREQ);
     (case entries of
        None \<Rightarrow> ret (Fin 1)
      | Some es \<Rightarrow> do {
          acc \<leftarrow> foldM (freq_entry os) es (Fin 1, False);
          ret (if snd acc then fst acc else Fin 1)
        })
   }"

section \<open>Temperature\<close>

definition THERMAL :: string where "THERMAL = ''/sys/class/thermal''"

definition parse_file_f64 :: "string option \<Rightarrow> f64 option" where
  "parse_file_f64 r = (case r of None \<Rightarrow> None | Some v \<Rightarrow> parse_f64 (trim v))"

definition cooling_entry :: "'k os \<Rightarrow> string \<Rightarrow> f64 \<times> nat \<Rightarrow> ('k, f64 \<times> nat) state" where
  "cooling_entry os name acc =
     (if \<not> starts_with ''cooling_device'' name then ret acc
      else do {
        cur \<leftarrow> rd os (THERMAL @ ''/'' @ name @ ''/cur_state'');
        mx \<leftarrow> rd os (THERMAL @ ''/'' @ name @ ''/max_state'');
        ret (case (parse_file_f64 cur, parse_file_f64 mx) of
          (Some c, Some m) \<Rightarrow>
            (if f_lt (Fin 0) m then (f_add (fst acc) (f_div c m), snd acc + 1) else acc)
        | _ \<Rightarrow> acc)
      })"

definition thermal_pressure_read :: "'k os \<Rightarrow> ('k, f64) state" where
  "thermal_pressure_read os = do {
     entries \<leftarrow> sys (os_read_dir os THERMAL);
     acc \<leftarrow> foldM (cooling_entry os) (case entries of None \<Rightarrow> [] | Some es \<Rightarrow> es) (Fin 0, 0);
     ret (if snd acc = 0 then Fin 0 else f_div (fst acc) (f_of_nat (snd acc)))
   }"

definition zone_entry ::
  "'k os \<Rightarrow> string \<Rightarrow> ThermalZone list \<Rightarrow> ('k, ThermalZone list) state" where
  "zone_entry os name zones =
     (if \<not> starts_with ''thermal_zone'' name then ret zones
      else do {
        ty \<leftarrow> rd_default os (THERMAL @ ''/'' @ name @ ''/type'');
        if trim ty = [] then ret zones
        else do {
          temp \<leftarrow> rd_default os (THERMAL @ ''/'' @ name @ ''/temp'');
          ret (zones @ [\<lparr>zone_type = trim ty,
            temperature_mc = (case parse_signed 64 (trim temp) of None \<Rightarrow> 0 | Some t \<Rightarrow> t)\<rparr>])
        }
      })"

definition read_thermal_zones :: "'k os \<Rightarrow> ('k, ThermalZone list) state" where
  "read_thermal_zones os = do {
     entries \<leftarrow> sys (os_read_dir os THERMAL);
     (case entries of
        None \<Rightarrow> ret []
      | Some es \<Rightarrow> do {
          zones \<leftarrow> foldM (zone_entry os) es [];
          ret (sort_key zone_type zones)
        })
   }"

section \<open>Memory pressure and battery\<close>

definition pressure_of :: "f64 \<Rightarrow> PressureLevel" where
  "pressure_of v =
     (if f_lt (Fin 60) v then Critical else if f_lt (Fin 10) v then Moderate else Normal)"

fun pressure_of_fields :: "string list \<Rightarrow> PressureLevel \<times> f64" where
  "pressure_of_fields [] = (Normal, Fin 0)"
| "pressure_of_fields (w # ws) =
     (case strip_prefix ''avg10='' w of
        None \<Rightarrow> pressure_of_fields ws
      | Some v \<Rightarrow>
          (case parse_f64 v of
             None \<Rightarrow> pressure_of_fields ws
           | Some val \<Rightarrow> (pressure_of val, val)))"

definition read_memory_pressure :: "'k os \<Rightarrow> ('k, PressureLevel \<times> f64) state" where
  "read_memory_pressure os = do {
     content \<leftarrow> rd_default os ''/proc/pressure/memory'';
     ret (if content = [] then (Normal, Fin 0) else pressure_of_fields (split_whitespace content))
   }"

definition parse_u8 :: "string \<Rightarrow> nat option" where
  "parse_u8 s = parse_unsigned (2 ^ 8) s"

fun read_battery_from :: "'k os \<Rightarrow> string list \<Rightarrow> ('k, nat option \<times> bool) state" where
  "read_battery_from os [] = ret (None, False)"
| "read_battery_from os (base # bases) = do {
     r \<leftarrow> rd os (base @ ''/capacity'');
     (case r of
        None \<Rightarrow> read_battery_from os bases
      | Some pct \<Rightarrow> do {
          status \<leftarrow> rd_default os (base @ ''/status'');
          ret (parse_u8 (trim pct), trim status = ''Charging'')
        })
   }"

definition read_battery :: "'k os \<Rightarrow> ('k, nat option \<times> bool) state" where
  "read_battery os =
     read_battery_from os [''/sys/class/power_supply/battery'', ''/sys/class/power_supply/BAT0'']"

section \<open>The snapshot and the poller\<close>

text \<open>Seconds until the next sample.\<close>

fun poll_secs :: "PressureLevel \<Rightarrow> nat" where
  "poll_secs Normal = 10"
| "poll_secs Moderate = 3"
| "poll_secs Critical = 1"

definition sample :: "'k os \<Rightarrow> ('k, SystemContext) state" where
  "sample os = do {
     mem \<leftarrow> read_memory_pressure os;
     zones \<leftarrow> read_thermal_zones os;
     bat \<leftarrow> read_battery os;
     tp \<leftarrow> thermal_pressure_read os;
     fq \<leftarrow> read_freq_throttle os;
     ret \<lparr>memory_pressure = fst mem, memory_avg10 = snd mem, thermal_zones = zones,
          sc_thermal_pressure = tp, battery_pct = fst bat, is_charging = snd bat,
          sc_freq_throttle = fq, next_poll_interval = poll_secs (fst mem)\<rparr>
   }"

text \<open>Instants are nanoseconds of the monotonic clock, durations are nanoseconds.\<close>

type_synonym instant = int

definition from_secs :: "nat \<Rightarrow> nat" where "from_secs n = n * 1000000000"
definition from_millis :: "nat \<Rightarrow> nat" where "from_millis n = n * 1000000"

definition duration_since :: "instant \<Rightarrow> instant \<Rightarrow> nat" where
  "duration_since now t = nat (now - t)"

record AdaptivePoller =
  last_sample :: instant
  next_interval :: nat

definition poller_new :: "instant \<Rightarrow> AdaptivePoller" where
  "poller_new now = \<lparr>last_sample = now - int (from_secs 3600), next_interval = from_secs 10\<rparr>"

definition should_sample :: "AdaptivePoller \<Rightarrow> instant \<Rightarrow> bool" where
  "should_sample p now = (next_interval p \<le> duration_since now (last_sample p))"

definition sampled :: "AdaptivePoller \<Rightarrow> SystemContext \<Rightarrow> instant \<Rightarrow> AdaptivePoller" where
  "sampled p ctx now = \<lparr>last_sample = now, next_interval = from_secs (next_poll_interval ctx)\<rparr>"

text \<open>How long \<open>wait_until_next\<close> sleeps.\<close>

definition wait_until_next :: "AdaptivePoller \<Rightarrow> instant \<Rightarrow> instant \<Rightarrow> nat" where
  "wait_until_next p deadline now =
     (let next = last_sample p + int (next_interval p)
      in if now < next
         then min (nat (next - now)) (if now < deadline then nat (deadline - now) else 0)
         else 0)"

section \<open>Lemmas\<close>

lemma freq_ratio_between:
  "freq_ratio c m = Some r \<Longrightarrow> r = Nan \<or> f_between 0 1 r"
  by (auto simp: freq_ratio_def intro: f_clamp_between split: option.splits if_splits)

lemma freq_entry_between:
  "f_between 0 1 (fst acc) \<Longrightarrow> gives (\<lambda>acc. f_between 0 1 (fst acc)) (freq_entry os name acc)"
  unfolding freq_entry_def
  by (intro gives_intros) (auto split: option.splits dest: freq_ratio_between)

lemma read_freq_throttle_between: "gives (f_between 0 1) (read_freq_throttle os)"
proof -
  have fold: "gives (\<lambda>acc. f_between 0 1 (fst acc)) (foldM (freq_entry os) es (Fin 1, False))" for es
    by (rule gives_foldM) (simp_all add: freq_entry_between)
  show ?thesis
    unfolding read_freq_throttle_def
    by (rule gives_bind_any, rule gives_option, rule gives_return, simp,
        rule gives_bind [OF fold], rule gives_return) simp
qed

lemma pressure_of_cases:
  "pressure_of (Fin v) = (if 60 < v then Critical else if 10 < v then Moderate else Normal)"
  by (simp add: pressure_of_def)

lemma wait_until_next_deadline: "now \<le> deadline \<Longrightarrow> now + int (wait_until_next p deadline now) \<le> deadline"
  by (auto simp: wait_until_next_def Let_def)

end
