(* ===== verification/Decision.thy ===== *)
theory Decision
  imports System_Context
begin

text \<open>
  The decision engine (crates/core/src/decision.rs): intent and thread-hint inference, the
  weighted score that becomes an action level, and the gate \<open>decide_ctx\<close> in front of every
  relock, which allows, skips or degrades with a reason.
\<close>

section \<open>Intent\<close>

datatype TaskIntent = Interactive | BackgroundLatencySensitive | Background | Frozen

definition from_oom_adj :: "int \<Rightarrow> TaskIntent" where
  "from_oom_adj a =
     (if a < 0 then Interactive
      else if 0 \<le> a \<and> a \<le> 200 then Interactive
      else if 201 \<le> a \<and> a \<le> 500 then BackgroundLatencySensitive
      else if 501 \<le> a \<and> a \<le> 900 then Background
      else Frozen)"

datatype ThreadHint = HintUnknown | LatencySensitive | ComputeIntensive

definition from_thread_name :: "string \<Rightarrow> ThreadHint" where
  "from_thread_name name =
     (let lower = to_lowercase name
      in if contains_str ''audio'' lower \<or> contains_str ''binder:'' lower \<or>
            contains_str ''renderthread'' lower \<or> contains_str ''gl'' lower
         then LatencySensitive
         else if contains_str ''worker'' lower \<or> contains_str ''pool'' lower
         then ComputeIntensive
         else HintUnknown)"

definition from_sources :: "int \<Rightarrow> bool \<Rightarrow> ThreadHint \<Rightarrow> TaskIntent" where
  "from_sources oom_adj is_foreground hint =
     (if is_foreground \<or> oom_adj < 0 then Interactive
      else if hint = LatencySensitive \<and> oom_adj \<le> 700 then BackgroundLatencySensitive
      else from_oom_adj oom_adj)"

section \<open>Score\<close>

datatype ActionLevel = Observe | Steer | Force

record TaskScore =
  intent_weight :: int
  pressure_mod :: int
  thermal_mod :: int
  total :: int

definition to_action :: "TaskScore \<Rightarrow> bool \<Rightarrow> ActionLevel" where
  "to_action s force = (if force then Force else if 40 \<le> total s then Steer else Observe)"

record DecisionEngine =
  force_affinity_enabled :: bool
  de_pressure_sensitive :: bool

definition engine_default :: DecisionEngine where
  "engine_default = \<lparr>force_affinity_enabled = False, de_pressure_sensitive = True\<rparr>"

fun weight_of :: "TaskIntent \<Rightarrow> int" where
  "weight_of Interactive = 60"
| "weight_of BackgroundLatencySensitive = 50"
| "weight_of Background = 10"
| "weight_of Frozen = 0"

fun pressure_weight :: "PressureLevel \<Rightarrow> int" where
  "pressure_weight Normal = 0"
| "pressure_weight Moderate = -15"
| "pressure_weight Critical = -40"

definition thermal_weight :: "f64 \<Rightarrow> int" where
  "thermal_weight t =
     (if f_lt (Fin (8 / 10)) t then -20 else if f_lt (Fin (5 / 10)) t then -10 else 0)"

definition evaluate :: "DecisionEngine \<Rightarrow> TaskIntent \<Rightarrow> PressureLevel \<Rightarrow> f64 \<Rightarrow> TaskScore" where
  "evaluate e intent pressure thermal =
     (let iw = weight_of intent;
          pm = (if de_pressure_sensitive e then pressure_weight pressure else 0);
          tm = thermal_weight thermal
      in \<lparr>intent_weight = iw, pressure_mod = pm, thermal_mod = tm, total = max (iw + pm + tm) 0\<rparr>)"

definition decide :: "DecisionEngine \<Rightarrow> TaskIntent \<Rightarrow> PressureLevel \<Rightarrow> ActionLevel" where
  "decide e intent pressure =
     (if force_affinity_enabled e then Force
      else to_action (evaluate e intent pressure (Fin 0)) False)"

datatype MigrateAction = MObserve | MSuggest | MForce

definition migrate_action_of :: "DecisionEngine \<Rightarrow> MigrateAction" where
  "migrate_action_of e = (if force_affinity_enabled e then MForce else MObserve)"

section \<open>The gate\<close>

datatype Reason =
    ForegroundInteractive | RLatencySensitive | RBackground | RFrozen
  | ThermalPressure | MemoryPressure | AuditFailureRate | ForceAffinity

datatype DegradeLevel = SkipOnce | DObserve | Relax

text \<open>The derived order: the order of the constructors.\<close>

fun degrade_rank :: "DegradeLevel \<Rightarrow> nat" where
  "degrade_rank SkipOnce = 0"
| "degrade_rank DObserve = 1"
| "degrade_rank Relax = 2"

lemma degrade_rank_inj: "degrade_rank a = degrade_rank b \<Longrightarrow> a = b"
  by (cases a; cases b) simp_all

instantiation DegradeLevel :: linorder
begin

definition less_eq_DegradeLevel :: "DegradeLevel \<Rightarrow> DegradeLevel \<Rightarrow> bool" where
  "less_eq_DegradeLevel a b = (degrade_rank a \<le> degrade_rank b)"

definition less_DegradeLevel :: "DegradeLevel \<Rightarrow> DegradeLevel \<Rightarrow> bool" where
  "less_DegradeLevel a b = (degrade_rank a < degrade_rank b)"

instance
  by standard (auto simp: less_eq_DegradeLevel_def less_DegradeLevel_def intro: degrade_rank_inj)

end

datatype Decision = Allow Reason | Skip Reason | Degrade DegradeLevel Reason

record DecisionContext =
  intent :: TaskIntent
  pressure :: PressureLevel
  thermal_pressure :: f64
  freq_throttle :: f64
  foreground :: bool
  audit_failure_rate :: f64

definition effective_thermal :: "DecisionContext \<Rightarrow> f64" where
  "effective_thermal c = f_max (thermal_pressure c) (f_sub (Fin 1) (freq_throttle c))"

definition decide_ctx :: "DecisionEngine \<Rightarrow> DecisionContext \<Rightarrow> Decision" where
  "decide_ctx e c =
     (if force_affinity_enabled e then Allow ForceAffinity
      else if intent c = Frozen then Skip RFrozen
      else if intent c = Background then Skip RBackground
      else if f_lt (Fin (8 / 10)) (effective_thermal c) then Degrade Relax ThermalPressure
      else if f_lt (Fin (5 / 10)) (audit_failure_rate c) then Degrade DObserve AuditFailureRate
      else if de_pressure_sensitive e \<and> pressure c = Critical then Degrade Relax MemoryPressure
      else Allow (case intent c of
                    BackgroundLatencySensitive \<Rightarrow> RLatencySensitive
                  | _ \<Rightarrow> ForegroundInteractive))"

section \<open>Lemmas\<close>

fun pressure_rank :: "PressureLevel \<Rightarrow> nat" where
  "pressure_rank Normal = 0"
| "pressure_rank Moderate = 1"
| "pressure_rank Critical = 2"

lemma pressure_weight_antimono: "pressure_rank p \<le> pressure_rank q \<Longrightarrow> pressure_weight q \<le> pressure_weight p"
  by (cases p; cases q) simp_all

lemma f_lt_trans: "f_lt a b \<Longrightarrow> f_lt b c \<Longrightarrow> f_lt a c"
  by (cases a; cases b; cases c) auto

lemma thermal_weight_antimono:
  assumes "f_lt s t \<or> s = t"
  shows "thermal_weight t \<le> thermal_weight s"
  using assms f_lt_trans [of "Fin (8 / 10)" s t] f_lt_trans [of "Fin (5 / 10)" s t]
    f_lt_trans [of "Fin (5 / 10)" "Fin (8 / 10)" t]
  by (auto simp: thermal_weight_def)

lemma total_range: "0 \<le> total (evaluate e i p t) \<and> total (evaluate e i p t) \<le> 60"
  by (cases i; cases p) (auto simp: evaluate_def Let_def thermal_weight_def)

lemma total_antimono:
  "pressure_rank p \<le> pressure_rank q \<Longrightarrow> f_lt s t \<or> s = t \<Longrightarrow>
   total (evaluate e i q t) \<le> total (evaluate e i p s)"
  using pressure_weight_antimono [of p q] thermal_weight_antimono [of s t]
  by (auto simp: evaluate_def Let_def)

lemma decide_table:
  "\<not> force_affinity_enabled e \<Longrightarrow>
   decide e i p = Steer \<longleftrightarrow>
     (i = Interactive \<or> i = BackgroundLatencySensitive) \<and>
     (de_pressure_sensitive e \<longrightarrow>
        (if i = Interactive then p \<noteq> Critical else p = Normal))"
  by (cases i; cases p) (auto simp: decide_def to_action_def evaluate_def Let_def thermal_weight_def)

lemma decide_ctx_allow:
  "(\<exists>r. decide_ctx e c = Allow r) \<longleftrightarrow>
     force_affinity_enabled e \<or>
     (intent c \<in> {Interactive, BackgroundLatencySensitive} \<and>
      \<not> f_lt (Fin (8 / 10)) (effective_thermal c) \<and>
      \<not> f_lt (Fin (5 / 10)) (audit_failure_rate c) \<and>
      \<not> (de_pressure_sensitive e \<and> pressure c = Critical))"
  by (cases "intent c") (auto simp: decide_ctx_def)

end
