(* ===== verification/Config.thy ===== *)
theory Config
  imports Policy Decision "HOL-Library.AList"
begin

text \<open>
  The configuration model (crates/core/src/config.rs) and the built-in profiles
  (crates/core/src/profile.rs): the format-independent description of an application's
  policies and its expansion into plain rules. A \<open>HashMap\<close> is an association list with
  distinct keys; its order stands for the unspecified iteration order, and the theorems hold
  for every order.
\<close>

section \<open>Parameters of the daemon and the engine\<close>

datatype EngineMode = Auto | Ebpf | Proc | Hybrid

record DaemonConfig =
  pid_file :: string
  ipc_socket :: string
  log_level :: string

definition daemon_default :: DaemonConfig where
  "daemon_default = \<lparr>pid_file = ''./run/threadctl.pid'', ipc_socket = ''./run/threadctl.sock'',
     log_level = ''info''\<rparr>"

record EngineConfig =
  mode :: EngineMode
  scan_interval :: u64
  lock_interval :: u64
  dead_cleanup_interval :: u64
  ec_migrate_action :: MigrateAction
  ec_pressure_sensitive :: bool

definition engine_config_default :: EngineConfig where
  "engine_config_default = \<lparr>mode = Auto, scan_interval = 2, lock_interval = 60,
     dead_cleanup_interval = 15, ec_migrate_action = MObserve, ec_pressure_sensitive = True\<rparr>"

section \<open>The model\<close>

record PolicyModel =
  pm_cluster :: "string option"
  pm_cpus :: "string option"
  pm_uclamp_min :: "nat option"
  pm_uclamp_max :: "nat option"
  pm_sched :: "string option"
  pm_nice :: "int option"

definition policy_default :: PolicyModel where
  "policy_default = \<lparr>pm_cluster = None, pm_cpus = None, pm_uclamp_min = None,
     pm_uclamp_max = None, pm_sched = None, pm_nice = None\<rparr>"

type_synonym policy_map = "(string \<times> PolicyModel) list"

record AppModel =
  am_pkg :: string
  am_profile :: "string option"
  default_policy :: PolicyModel
  am_threads :: policy_map
  thread_types :: policy_map

record ConfigModel =
  apps :: "(string \<times> AppModel) list"

record ProfileModel =
  pr_default :: PolicyModel
  pr_threads :: policy_map
  pr_thread_types :: policy_map

section \<open>Built-in profiles (crates/core/src/profile.rs)\<close>

definition on_cluster :: "string \<Rightarrow> PolicyModel" where
  "on_cluster c = policy_default\<lparr>pm_cluster := Some c\<rparr>"

definition profile_game :: ProfileModel where
  "profile_game = \<lparr>pr_default = on_cluster ''big'', pr_threads = [],
     pr_thread_types =
       [(''render'', (on_cluster ''prime'')\<lparr>pm_uclamp_min := Some 700\<rparr>),
        (''audio'', on_cluster ''little'')]\<rparr>"

definition profile_audio :: ProfileModel where
  "profile_audio = \<lparr>pr_default = on_cluster ''little'', pr_threads = [],
     pr_thread_types = [(''audio'', (on_cluster ''big'')\<lparr>pm_sched := Some ''rr:30''\<rparr>)]\<rparr>"

definition profile_launcher :: ProfileModel where
  "profile_launcher = \<lparr>pr_default = on_cluster ''big'',
     pr_threads = [(''RenderThread'', (on_cluster ''prime'')\<lparr>pm_sched := Some ''fifo:60''\<rparr>)],
     pr_thread_types = []\<rparr>"

definition profile_balanced :: ProfileModel where
  "profile_balanced = \<lparr>pr_default = on_cluster ''big'', pr_threads = [], pr_thread_types = []\<rparr>"

definition profile_power_save :: ProfileModel where
  "profile_power_save =
     \<lparr>pr_default = on_cluster ''little'', pr_threads = [], pr_thread_types = []\<rparr>"

definition profile_chat :: ProfileModel where
  "profile_chat = \<lparr>pr_default = on_cluster ''big'',
     pr_threads = [(''RenderThread'', on_cluster ''prime'')],
     pr_thread_types = [(''audio'', (on_cluster ''big'')\<lparr>pm_sched := Some ''rr:30''\<rparr>)]\<rparr>"

definition profile_video :: ProfileModel where
  "profile_video = \<lparr>pr_default = on_cluster ''little'',
     pr_threads = [(''RenderThread'', on_cluster ''big'')],
     pr_thread_types = [(''audio'', on_cluster ''big'')]\<rparr>"

definition builtin_profiles :: "(string \<times> ProfileModel) list" where
  "builtin_profiles = [(''game'', profile_game), (''audio'', profile_audio),
     (''launcher'', profile_launcher), (''balanced'', profile_balanced),
     (''power-save'', profile_power_save), (''chat'', profile_chat), (''video'', profile_video)]"

definition is_valid_profile :: "string \<Rightarrow> bool" where
  "is_valid_profile name = (map_of builtin_profiles name \<noteq> None)"

definition profile_names :: "string list" where
  "profile_names = sort (map fst builtin_profiles)"

section \<open>Expansion into rules\<close>

definition THREAD_TYPE_ALIASES :: "(string \<times> string list) list" where
  "THREAD_TYPE_ALIASES =
     [(''render'', [''*RenderThread*'', ''*GL*'', ''*Vk*'']),
      (''audio'', [''*Audio*'', ''*Sound*'']),
      (''binder'', [''*Binder:*'']),
      (''main'', [''*main*''])]"

definition thread_type_patterns :: "string \<Rightarrow> string list option" where
  "thread_type_patterns ttype =
     map_option snd (List.find (\<lambda>(name, _). name = ttype) THREAD_TYPE_ALIASES)"

definition or_else :: "'a option \<Rightarrow> 'a option \<Rightarrow> 'a option" where
  "or_else a b = (case a of None \<Rightarrow> b | Some _ \<Rightarrow> a)"

definition override_cluster :: "PolicyModel \<Rightarrow> PolicyModel \<Rightarrow> PolicyModel" where
  "override_cluster base user =
     (let b1 = (if pm_cluster user \<noteq> None
                then base\<lparr>pm_cluster := pm_cluster user, pm_cpus := None\<rparr> else base)
      in if pm_cpus user \<noteq> None
         then b1\<lparr>pm_cpus := pm_cpus user, pm_cluster := None\<rparr> else b1)"

definition override_policy :: "PolicyModel \<Rightarrow> PolicyModel \<Rightarrow> PolicyModel" where
  "override_policy base user =
     (let b = override_cluster base user
      in b\<lparr>pm_sched := or_else (pm_sched user) (pm_sched b),
           pm_nice := or_else (pm_nice user) (pm_nice b),
           pm_uclamp_min := or_else (pm_uclamp_min user) (pm_uclamp_min b),
           pm_uclamp_max := or_else (pm_uclamp_max user) (pm_uclamp_max b)\<rparr>)"

definition has_cpus :: "PolicyModel \<Rightarrow> bool" where
  "has_cpus p = (pm_cpus p \<noteq> None \<or> pm_cluster p \<noteq> None)"

definition has_any_policy :: "PolicyModel \<Rightarrow> bool" where
  "has_any_policy p =
     (has_cpus p \<or> pm_sched p \<noteq> None \<or> pm_nice p \<noteq> None \<or>
      pm_uclamp_min p \<noteq> None \<or> pm_uclamp_max p \<noteq> None)"

text \<open>\<open>max_by_key\<close> returns the last of the greatest elements.\<close>

fun max_by_key :: "('a \<Rightarrow> nat) \<Rightarrow> 'a list \<Rightarrow> 'a option" where
  "max_by_key f [] = None"
| "max_by_key f (x # xs) =
     (case max_by_key f xs of None \<Rightarrow> Some x
      | Some y \<Rightarrow> if f y < f x then Some x else Some y)"

text \<open>The \<open>Debug\<close> form of a cluster kind, in lower case, is its configuration name.\<close>

definition cluster_cpus :: "CpuCluster list \<Rightarrow> string \<Rightarrow> string option" where
  "cluster_cpus cls name =
     (case List.find (\<lambda>c. config_name (kind c) = to_lowercase name) cls of
        Some c \<Rightarrow> Some (range_str c)
      | None \<Rightarrow>
          (if list_all (\<lambda>ch. is_digit ch \<or> ch = CHR ''-'' \<or> ch = CHR '','') name
           then Some name
           else map_option range_str
             (or_else (List.find (\<lambda>c. kind c = Big) cls) (max_by_key capacity cls))))"

definition policy_to_rules ::
  "string \<Rightarrow> string \<Rightarrow> PolicyModel \<Rightarrow> CpuCluster list \<Rightarrow> RuleConfig list" where
  "policy_to_rules pkg thread pol cls =
     (if \<not> has_any_policy pol then []
      else
        (let cpus = or_else (pm_cpus pol)
               (case pm_cluster pol of None \<Rightarrow> None | Some name \<Rightarrow> cluster_cpus cls name)
         in [\<lparr>rc_pkg = pkg, rc_thread = thread,
              rc_cpus = (case cpus of None \<Rightarrow> [] | Some c \<Rightarrow> c),
              rc_sched = pm_sched pol, rc_nice = pm_nice pol,
              rc_uclamp_min = pm_uclamp_min pol, rc_uclamp_max = pm_uclamp_max pol\<rparr>]))"

text \<open>\<open>entry(k).or_default()\<close> followed by the override, for every user entry.\<close>

definition merge_entry :: "string \<times> PolicyModel \<Rightarrow> policy_map \<Rightarrow> policy_map" where
  "merge_entry kv m =
     AList.update (fst kv)
       (override_policy (case map_of m (fst kv) of None \<Rightarrow> policy_default | Some p \<Rightarrow> p) (snd kv)) m"

definition app_template :: "AppModel \<Rightarrow> PolicyModel \<times> policy_map \<times> policy_map" where
  "app_template app =
     (case am_profile app of
        None \<Rightarrow> (policy_default, [], [])
      | Some name \<Rightarrow>
          (case map_of builtin_profiles name of
             Some p \<Rightarrow> (pr_default p, pr_threads p, pr_thread_types p)
           | None \<Rightarrow> (policy_default, [], [])))"

definition app_policies :: "AppModel \<Rightarrow> PolicyModel \<times> policy_map \<times> policy_map" where
  "app_policies app =
     (case app_template app of (d, ts, tts) \<Rightarrow>
        (override_policy d (default_policy app),
         fold merge_entry (am_threads app) ts,
         fold merge_entry (thread_types app) tts))"

definition type_rules ::
  "string \<Rightarrow> CpuCluster list \<Rightarrow> string \<times> PolicyModel \<Rightarrow> RuleConfig list" where
  "type_rules pkg cls tp =
     (case thread_type_patterns (fst tp) of
        None \<Rightarrow> []
      | Some pats \<Rightarrow> concat (map (\<lambda>pat. policy_to_rules pkg pat (snd tp) cls) pats))"

definition placeholder :: "string \<Rightarrow> RuleConfig" where
  "placeholder pkg = \<lparr>rc_pkg = pkg, rc_thread = [], rc_cpus = [], rc_sched = None, rc_nice = None,
     rc_uclamp_min = None, rc_uclamp_max = None\<rparr>"

definition app_rules :: "CpuCluster list \<Rightarrow> AppModel \<Rightarrow> RuleConfig list" where
  "app_rules cls app =
     (case app_policies app of (default_pol, threads, ttypes) \<Rightarrow>
        (let default_rules = policy_to_rules (am_pkg app) [] default_pol cls;
             thread_rules = concat (map (\<lambda>(t, p). policy_to_rules (am_pkg app) t p cls) threads);
             ttype_rules = concat (map (type_rules (am_pkg app) cls) ttypes);
             has_any = (default_rules \<noteq> [] \<or> (\<exists>tp \<in> set threads. has_cpus (snd tp)) \<or>
                        (\<exists>tp \<in> set ttypes. has_cpus (snd tp)))
         in default_rules @ thread_rules @ ttype_rules @
            (if has_any then [] else [placeholder (am_pkg app)])))"

definition to_rules_with_clusters :: "ConfigModel \<Rightarrow> CpuCluster list \<Rightarrow> RuleConfig list" where
  "to_rules_with_clusters m cls = concat (map (\<lambda>(_, app). app_rules cls app) (apps m))"

definition to_rules :: "ConfigModel \<Rightarrow> RuleConfig list" where
  "to_rules m = to_rules_with_clusters m []"

section \<open>Lemmas\<close>

lemma or_else_simps [simp]: "or_else None b = b" "or_else (Some x) b = Some x"
  by (simp_all add: or_else_def)

definition exclusive :: "PolicyModel \<Rightarrow> bool" where
  "exclusive p = (pm_cpus p = None \<or> pm_cluster p = None)"

lemma override_exclusive: "exclusive base \<Longrightarrow> exclusive (override_policy base user)"
  by (auto simp: exclusive_def override_policy_def override_cluster_def Let_def)

lemma override_fields:
  "pm_sched (override_policy b u) = or_else (pm_sched u) (pm_sched b)"
  "pm_nice (override_policy b u) = or_else (pm_nice u) (pm_nice b)"
  "pm_uclamp_min (override_policy b u) = or_else (pm_uclamp_min u) (pm_uclamp_min b)"
  "pm_uclamp_max (override_policy b u) = or_else (pm_uclamp_max u) (pm_uclamp_max b)"
  "pm_cpus (override_policy b u) =
     (if pm_cpus u \<noteq> None then pm_cpus u else if pm_cluster u \<noteq> None then None else pm_cpus b)"
  "pm_cluster (override_policy b u) =
     (if pm_cpus u \<noteq> None then None else or_else (pm_cluster u) (pm_cluster b))"
  by (auto simp: override_policy_def override_cluster_def Let_def or_else_def split: option.splits)

lemma override_idem: "override_policy (override_policy b u) u = override_policy b u"
  by (rule PolicyModel.equality)
    (auto simp: override_fields or_else_def split: option.splits)

lemma policy_to_rules_pkg: "r \<in> set (policy_to_rules pkg t p cl) \<Longrightarrow> rc_pkg r = pkg \<and> rc_thread r = t"
  by (auto simp: policy_to_rules_def Let_def split: if_splits)

lemma policy_to_rules_Nil [simp]: "policy_to_rules pkg t p cl = [] \<longleftrightarrow> \<not> has_any_policy p"
  by (simp add: policy_to_rules_def Let_def)

lemma has_cpus_any: "has_cpus p \<Longrightarrow> has_any_policy p"
  by (simp add: has_any_policy_def)

lemma app_rules_pkg: "r \<in> set (app_rules cl app) \<Longrightarrow> rc_pkg r = am_pkg app"
  by (auto simp: app_rules_def type_rules_def Let_def placeholder_def
      dest: policy_to_rules_pkg split: prod.splits if_splits option.splits)

lemma thread_type_patterns_not_Nil: "thread_type_patterns t = Some ps \<Longrightarrow> ps \<noteq> []"
  by (auto simp: thread_type_patterns_def THREAD_TYPE_ALIASES_def split: if_splits)

lemma type_rules_not_Nil:
  assumes "thread_type_patterns (fst tp) \<noteq> None" and "has_any_policy (snd tp)"
  shows "type_rules pkg cl tp \<noteq> []"
  using assms thread_type_patterns_not_Nil [of "fst tp"]
  by (auto simp: type_rules_def)

lemma app_rules_not_Nil:
  assumes "\<forall>tp \<in> set (snd (snd (app_policies app))). thread_type_patterns (fst tp) \<noteq> None"
  shows "app_rules cl app \<noteq> []"
proof -
  obtain d ts tts where p: "app_policies app = (d, ts, tts)" by (cases "app_policies app") auto
  consider "has_any_policy d" | t where "t \<in> set ts" "has_cpus (snd t)"
    | t where "t \<in> set tts" "has_cpus (snd t)"
    | "\<not> has_any_policy d" "\<forall>t \<in> set ts. \<not> has_cpus (snd t)" "\<forall>t \<in> set tts. \<not> has_cpus (snd t)"
    by blast
  then show ?thesis
  proof cases
    case 1
    then show ?thesis by (simp add: app_rules_def p Let_def)
  next
    case (2 t)
    have "concat (map (\<lambda>(t, p). policy_to_rules (am_pkg app) t p cl) ts) \<noteq> []"
    proof
      assume "concat (map (\<lambda>(t, p). policy_to_rules (am_pkg app) t p cl) ts) = []"
      then have "case t of (n, q) \<Rightarrow> policy_to_rules (am_pkg app) n q cl = []"
        using 2(1) by auto
      with 2(2) show False by (auto dest: has_cpus_any split: prod.splits)
    qed
    then show ?thesis by (simp add: app_rules_def p Let_def)
  next
    case (3 t)
    then have "type_rules (am_pkg app) cl t \<noteq> []"
      using assms p by (intro type_rules_not_Nil) (auto simp: has_cpus_any)
    with 3 show ?thesis by (auto simp: app_rules_def p Let_def)
  next
    case 4
    then show ?thesis by (simp add: app_rules_def p Let_def)
  qed
qed

end
