(* ===== verification/Ruleset.thy ===== *)
theory Ruleset
  imports Merge Config
begin

text \<open>
  The compiled rule set (crates/core/src/ruleset.rs): compilation of the configured rules into
  an index of exact package names and wildcard patterns, matching through an instance-scoped
  cache, and \<open>resolve\<close>, which layers thread rules over package rules. POSIX \<open>fnmatch\<close> belongs
  to the C library and is the argument \<open>fnm\<close> (pattern, then string). Queries update the cache,
  so they are computations over the rule set.
\<close>

type_synonym fnmatch = "string \<Rightarrow> string \<Rightarrow> bool"

section \<open>The compiled form\<close>

record WildcardRule =
  wc_pattern :: string
  specificity :: u64
  rule_idxs :: "nat list"

record RuleSet =
  rs_rules :: "CompiledRule list"
  rs_exact :: "string \<rightharpoonup> nat list"
  rs_wildcards :: "WildcardRule list"
  rs_pkgs :: "string list"
  rs_cache :: "string \<rightharpoonup> RuleMatch list"

definition ruleset_default :: RuleSet where
  "ruleset_default = \<lparr>rs_rules = [], rs_exact = Map.empty, rs_wildcards = [], rs_pkgs = [],
     rs_cache = Map.empty\<rparr>"

text \<open>\<open>Clone\<close> starts with an empty cache.\<close>

definition ruleset_clone :: "RuleSet \<Rightarrow> RuleSet" where
  "ruleset_clone rs = rs\<lparr>rs_cache := Map.empty\<rparr>"

datatype RuleReason = PkgLength | ThreadLength | CpusInvalid string

record RuleError =
  re_index :: nat
  re_reason :: RuleReason

section \<open>Patterns\<close>

definition is_wild_char :: "char \<Rightarrow> bool" where
  "is_wild_char c = (c = CHR ''*'' \<or> c = CHR ''?'' \<or> c = CHR ''['')"

definition contains_wildcard :: "string \<Rightarrow> bool" where
  "contains_wildcard s = list_ex is_wild_char s"

definition is_meta :: "char \<Rightarrow> bool" where
  "is_meta c = (is_wild_char c \<or> c = CHR '']'')"

text \<open>A byte that continues a multi-byte character: \<open>char_indices\<close> does not stop at it.\<close>

definition is_continuation :: "char \<Rightarrow> bool" where
  "is_continuation c = (128 \<le> char_code c \<and> char_code c < 192)"

definition fixed_prefix :: "string \<Rightarrow> nat" where
  "fixed_prefix s = length (takeWhile (\<lambda>c. \<not> is_meta c) s)"

definition literal_count :: "string \<Rightarrow> nat" where
  "literal_count s = length (filter (\<lambda>c. \<not> is_meta c \<and> \<not> is_continuation c) s)"

definition wildcard_count :: "string \<Rightarrow> nat" where
  "wildcard_count s = length (filter is_meta s)"

text \<open>
  The score, on 64-bit words: in a release build the subtraction wraps below zero (a debug
  build panics there). The loop's three counters are the three counts above.
\<close>

definition pattern_specificity :: "string \<Rightarrow> u64" where
  "pattern_specificity s =
     of_nat (fixed_prefix s) * 100 + of_nat (literal_count s) - of_nat (wildcard_count s) * 10"

text \<open>Both wrappers copy into a zeroed buffer, so a NUL byte ends the string.\<close>

definition c_string :: "string \<Rightarrow> string" where
  "c_string s = takeWhile (\<lambda>b. b \<noteq> nul) s"

definition fnmatch_c :: "fnmatch \<Rightarrow> string \<Rightarrow> string \<Rightarrow> bool" where
  "fnmatch_c fnm pattern s = (length s < MAX_THREAD_LEN \<and> fnm pattern (c_string s))"

definition fnmatch_pkg :: "fnmatch \<Rightarrow> string \<Rightarrow> string \<Rightarrow> bool" where
  "fnmatch_pkg fnm pattern s = (length s < MAX_PKG_LEN \<and> fnm pattern (c_string s))"

definition cstring_new :: "string \<Rightarrow> string option" where
  "cstring_new s = (if nul \<in> set s then None else Some s)"

section \<open>Compilation\<close>

definition compile_rule :: "CpuTopology \<Rightarrow> RuleConfig \<Rightarrow> RuleReason + CompiledRule" where
  "compile_rule topo rc =
     (if rc_pkg rc = [] \<or> MAX_PKG_LEN \<le> length (rc_pkg rc) then Inl PkgLength
      else if MAX_THREAD_LEN \<le> length (rc_thread rc) then Inl ThreadLength
      else
        (let cs = parse_cpu_ranges (rc_cpus rc) (Some (present_cpus topo)) in
         if cpuset_count cs = 0 \<and> rc_cpus rc \<noteq> [] then Inl (CpusInvalid (rc_cpus rc))
         else
           (let spec = sched_spec rc in
            Inr \<lparr>cr_pkg = rc_pkg rc, cr_thread = rc_thread rc,
                 thread_pattern = cstring_new (rc_thread rc),
                 cr_policy = \<lparr>cpus = cs, cpuset_dir = to_range_string cs,
                   sched = map_option ss_policy spec,
                   sched_prio = (case spec of None \<Rightarrow> None | Some sp \<Rightarrow> ss_prio sp),
                   nice = rc_nice rc, uclamp_min = rc_uclamp_min rc,
                   uclamp_max = rc_uclamp_max rc\<rparr>\<rparr>)))"

definition compile_step ::
  "CpuTopology \<Rightarrow> nat \<times> RuleConfig \<Rightarrow> CompiledRule list \<times> RuleError list \<Rightarrow>
   CompiledRule list \<times> RuleError list" where
  "compile_step topo irc acc =
     (case compile_rule topo (snd irc) of
        Inl r \<Rightarrow> (fst acc, snd acc @ [\<lparr>re_index = fst irc, re_reason = r\<rparr>])
      | Inr c \<Rightarrow> (fst acc @ [c], snd acc))"

definition push_idx :: "nat \<Rightarrow> nat list option \<Rightarrow> nat list" where
  "push_idx i xs = (case xs of None \<Rightarrow> [i] | Some js \<Rightarrow> js @ [i])"

fun add_wildcard :: "string \<Rightarrow> nat \<Rightarrow> WildcardRule list \<Rightarrow> WildcardRule list" where
  "add_wildcard pkg i [] =
     (case cstring_new pkg of
        None \<Rightarrow> []
      | Some _ \<Rightarrow> [\<lparr>wc_pattern = pkg, specificity = pattern_specificity pkg, rule_idxs = [i]\<rparr>])"
| "add_wildcard pkg i (w # ws) =
     (if wc_pattern w = pkg then w\<lparr>rule_idxs := rule_idxs w @ [i]\<rparr> # ws
      else w # add_wildcard pkg i ws)"

definition index_rule :: "nat \<times> CompiledRule \<Rightarrow> RuleSet \<Rightarrow> RuleSet" where
  "index_rule ir rs =
     (let i = fst ir; pkg = cr_pkg (snd ir);
          rs1 = (if contains_wildcard pkg
                 then rs\<lparr>rs_wildcards := add_wildcard pkg i (rs_wildcards rs)\<rparr>
                 else rs\<lparr>rs_exact := (rs_exact rs)(pkg \<mapsto> push_idx i (rs_exact rs pkg))\<rparr>)
      in if pkg \<in> set (rs_pkgs rs1) then rs1 else rs1\<lparr>rs_pkgs := rs_pkgs rs1 @ [pkg]\<rparr>)"

definition build_ruleset :: "CompiledRule list \<Rightarrow> RuleSet" where
  "build_ruleset rules =
     fold index_rule (enumerate 0 rules) (ruleset_default\<lparr>rs_rules := rules\<rparr>)"

definition compile :: "RuleConfig list \<Rightarrow> CpuTopology \<Rightarrow> RuleSet \<times> RuleError list" where
  "compile configs topo =
     (case fold (compile_step topo) (enumerate 0 configs) ([], []) of
        (rules, errors) \<Rightarrow> (build_ruleset rules, errors))"

text \<open>The warnings of the last loop: package, range and number of frequency domains, once each.\<close>

definition domains_hit :: "CpuTopology \<Rightarrow> CpuSet \<Rightarrow> nat" where
  "domains_hit topo c =
     length (filter (\<lambda>d. \<not> cpuset_is_empty (cpuset_and c d)) (dvfs_domains topo))"

definition warn_step ::
  "CpuTopology \<Rightarrow> CompiledRule \<Rightarrow> (string \<times> string \<times> nat) list \<Rightarrow> (string \<times> string \<times> nat) list" where
  "warn_step topo r ws =
     (let c = cpus (cr_policy r); n = domains_hit topo c; rng = to_range_string c in
      if cpuset_is_empty c then ws
      else if 1 < n \<and> (cr_pkg r, rng) \<notin> set (map (\<lambda>(p, q, _). (p, q)) ws)
      then ws @ [(cr_pkg r, rng, n)] else ws)"

definition dvfs_warnings :: "CpuTopology \<Rightarrow> CompiledRule list \<Rightarrow> (string \<times> string \<times> nat) list" where
  "dvfs_warnings topo rules = fold (warn_step topo) rules []"

section \<open>Matching\<close>

definition best_step ::
  "fnmatch \<Rightarrow> string \<Rightarrow> WildcardRule \<Rightarrow> u64 \<times> nat list option \<Rightarrow> u64 \<times> nat list option" where
  "best_step fnm pkg w acc =
     (if fst acc < specificity w \<and> fnmatch_pkg fnm (wc_pattern w) pkg
      then (specificity w, Some (rule_idxs w)) else acc)"

definition best_wildcard :: "fnmatch \<Rightarrow> WildcardRule list \<Rightarrow> string \<Rightarrow> nat list option" where
  "best_wildcard fnm ws pkg = snd (fold (best_step fnm pkg) ws (0, None))"

definition scan_matches :: "fnmatch \<Rightarrow> RuleSet \<Rightarrow> string \<Rightarrow> RuleMatch list" where
  "scan_matches fnm rs pkg =
     map (\<lambda>i. \<lparr>index = i, source = PackageExact\<rparr>)
       (case rs_exact rs pkg of None \<Rightarrow> [] | Some is \<Rightarrow> is) @
     map (\<lambda>i. \<lparr>index = i, source = PackageWildcard\<rparr>)
       (case best_wildcard fnm (rs_wildcards rs) pkg of None \<Rightarrow> [] | Some is \<Rightarrow> is)"

definition cache_get :: "RuleSet \<Rightarrow> string \<Rightarrow> RuleMatch list option" where
  "cache_get rs pkg = rs_cache rs pkg"

definition cache_put :: "string \<Rightarrow> RuleMatch list \<Rightarrow> RuleSet \<Rightarrow> RuleSet" where
  "cache_put pkg ms rs = rs\<lparr>rs_cache := (rs_cache rs)(pkg \<mapsto> ms)\<rparr>"

definition collect_pkg_matches :: "fnmatch \<Rightarrow> string \<Rightarrow> (RuleSet, RuleMatch list) state" where
  "collect_pkg_matches fnm pkg = do {
     cached \<leftarrow> gets (\<lambda>rs. cache_get rs pkg);
     (case cached of
        Some ms \<Rightarrow> ret ms
      | None \<Rightarrow> do {
          result \<leftarrow> gets (\<lambda>rs. scan_matches fnm rs pkg);
          _ \<leftarrow> modify (cache_put pkg result);
          ret result
        })
   }"

definition is_interested :: "fnmatch \<Rightarrow> string \<Rightarrow> (RuleSet, bool) state" where
  "is_interested fnm pkg = do { ms \<leftarrow> collect_pkg_matches fnm pkg; ret (ms \<noteq> []) }"

definition rule_thread :: "CompiledRule list \<Rightarrow> RuleMatch \<Rightarrow> string" where
  "rule_thread rules m = cr_thread (rules ! index m)"

definition has_thread_rules :: "fnmatch \<Rightarrow> string \<Rightarrow> (RuleSet, bool) state" where
  "has_thread_rules fnm pkg = do {
     ms \<leftarrow> collect_pkg_matches fnm pkg;
     rules \<leftarrow> gets rs_rules;
     ret (list_ex (\<lambda>m. rule_thread rules m \<noteq> []) ms)
   }"

definition pkg_list :: "RuleSet \<Rightarrow> string list" where
  "pkg_list rs = rs_pkgs rs"

definition has_rt_sched :: "RuleSet \<Rightarrow> bool" where
  "has_rt_sched rs =
     list_ex (\<lambda>r. sched (cr_policy r) = Some Fifo \<or> sched (cr_policy r) = Some Rr) (rs_rules rs)"

section \<open>Resolution\<close>

definition thread_hits ::
  "fnmatch \<Rightarrow> CompiledRule list \<Rightarrow> RuleMatch list \<Rightarrow> string \<Rightarrow> RuleMatch list" where
  "thread_hits fnm rules ms thread =
     filter (\<lambda>m. rule_thread rules m \<noteq> [] \<and>
       (case thread_pattern (rules ! index m) of None \<Rightarrow> False
        | Some pat \<Rightarrow> fnmatch_c fnm pat thread)) ms"

definition pkg_level :: "CompiledRule list \<Rightarrow> RuleMatch list \<Rightarrow> RuleMatch list" where
  "pkg_level rules ms = filter (\<lambda>m. rule_thread rules m = []) ms"

definition layered :: "fnmatch \<Rightarrow> CompiledRule list \<Rightarrow> RuleMatch list \<Rightarrow> string \<Rightarrow> Policy option" where
  "layered fnm rules ms thread =
     (let hits = thread_hits fnm rules ms thread; base = merge_rules (pkg_level rules ms) rules in
      if hits \<noteq> []
      then (case merge_rules hits rules of
              None \<Rightarrow> None
            | Some pol \<Rightarrow>
                Some (case base of None \<Rightarrow> pol | Some fb \<Rightarrow> fill_missing pol fb))
      else base)"

definition finish_policy :: "Policy option \<Rightarrow> Policy option" where
  "finish_policy r =
     (case r of
        None \<Rightarrow> None
      | Some p \<Rightarrow>
          (if cpuset_count (cpus p) = 0 \<and> sched p = None \<and> nice p = None then None
           else Some (p\<lparr>cpuset_dir := to_range_string (cpus p)\<rparr>)))"

definition resolve :: "fnmatch \<Rightarrow> string \<Rightarrow> string \<Rightarrow> (RuleSet, Policy option) state" where
  "resolve fnm pkg thread = do {
     ms \<leftarrow> collect_pkg_matches fnm pkg;
     rules \<leftarrow> gets rs_rules;
     ret (if ms = [] then None else finish_policy (layered fnm rules ms thread))
   }"

end
