(* ===== verification/Ruleset_Facts.thy ===== *)
theory Ruleset_Facts
  imports Ruleset
begin

text \<open>
  What the rule set guarantees: the cache is transparent (a locale states the interface of a
  memo table and the client lemmas, interpreted on \<open>cache_get\<close> and \<open>cache_put\<close>), every
  compiled rule names present CPUs only and every index of the rule set is in range, wildcard
  selection takes the highest score, and resolution layers thread rules over package rules.
\<close>

section \<open>A memo table\<close>

locale memo =
  fixes get :: "'s \<Rightarrow> 'k \<Rightarrow> 'v option"
    and put :: "'k \<Rightarrow> 'v \<Rightarrow> 's \<Rightarrow> 's"
    and compute :: "'s \<Rightarrow> 'k \<Rightarrow> 'v"
  assumes get_put: "get (put k v s) k' = (if k' = k then Some v else get s k')"
    and compute_put: "compute (put k v s) k' = compute s k'"
begin

definition valid :: "'s \<Rightarrow> bool" where
  "valid s \<longleftrightarrow> (\<forall>k v. get s k = Some v \<longrightarrow> v = compute s k)"

definition lookup :: "'k \<Rightarrow> ('s, 'v) state" where
  "lookup k = do {
     c \<leftarrow> gets (\<lambda>s. get s k);
     (case c of
        Some v \<Rightarrow> ret v
      | None \<Rightarrow> do { v \<leftarrow> gets (\<lambda>s. compute s k); _ \<leftarrow> modify (put k v); ret v })
   }"

lemma run_lookup:
  "run_state (lookup k) s =
     (case get s k of Some v \<Rightarrow> (v, s) | None \<Rightarrow> (compute s k, put k (compute s k) s))"
  by (simp add: lookup_def split: option.splits)

lemma valid_empty: "(\<And>k. get s k = None) \<Longrightarrow> valid s"
  by (simp add: valid_def)

lemma lookup_value: "valid s \<Longrightarrow> fst (run_state (lookup k) s) = compute s k"
  by (auto simp: run_lookup valid_def split: option.splits)

lemma lookup_valid: "valid s \<Longrightarrow> valid (snd (run_state (lookup k) s))"
  by (auto simp: run_lookup valid_def get_put compute_put split: option.splits)

lemma lookup_compute: "compute (snd (run_state (lookup k) s)) = compute s"
  by (rule ext) (auto simp: run_lookup compute_put split: option.splits)

lemma lookup_frame: "(\<And>k v s. f (put k v s) = f s) \<Longrightarrow> f (snd (run_state (lookup k) s)) = f s"
  by (auto simp: run_lookup split: option.splits)

end

interpretation pkg_cache: memo cache_get cache_put "scan_matches fnm" for fnm
  by unfold_locales (simp_all add: cache_get_def cache_put_def scan_matches_def)

lemma collect_is_lookup: "collect_pkg_matches fnm pkg = pkg_cache.lookup fnm pkg"
  by (simp add: collect_pkg_matches_def pkg_cache.lookup_def)

text \<open>A rule set whose cached answers are the scanned ones.\<close>

abbreviation cache_ok :: "fnmatch \<Rightarrow> RuleSet \<Rightarrow> bool" where
  "cache_ok fnm rs \<equiv> pkg_cache.valid fnm rs"

lemma cache_put_fields [simp]:
  "rs_rules (cache_put k v rs) = rs_rules rs" "rs_exact (cache_put k v rs) = rs_exact rs"
  "rs_wildcards (cache_put k v rs) = rs_wildcards rs" "rs_pkgs (cache_put k v rs) = rs_pkgs rs"
  by (simp_all add: cache_put_def)

lemma collect_value: "cache_ok fnm rs \<Longrightarrow> fst (run_state (collect_pkg_matches fnm p) rs) = scan_matches fnm rs p"
  by (simp add: collect_is_lookup pkg_cache.lookup_value)

lemma collect_ok: "cache_ok fnm rs \<Longrightarrow> cache_ok fnm (snd (run_state (collect_pkg_matches fnm p) rs))"
  by (simp add: collect_is_lookup pkg_cache.lookup_valid)

lemma collect_rules [simp]: "rs_rules (snd (run_state (collect_pkg_matches fnm p) rs)) = rs_rules rs"
  unfolding collect_is_lookup by (rule pkg_cache.lookup_frame) simp

lemma collect_scan [simp]:
  "scan_matches fnm (snd (run_state (collect_pkg_matches fnm p) rs)) = scan_matches fnm rs"
  unfolding collect_is_lookup by (rule pkg_cache.lookup_compute)

text \<open>The queries without the cache.\<close>

definition resolve_pure :: "fnmatch \<Rightarrow> RuleSet \<Rightarrow> string \<Rightarrow> string \<Rightarrow> Policy option" where
  "resolve_pure fnm rs pkg thread =
     (let ms = scan_matches fnm rs pkg
      in if ms = [] then None else finish_policy (layered fnm (rs_rules rs) ms thread))"

definition interested_pure :: "fnmatch \<Rightarrow> RuleSet \<Rightarrow> string \<Rightarrow> bool" where
  "interested_pure fnm rs pkg = (scan_matches fnm rs pkg \<noteq> [])"

definition thread_rules_pure :: "fnmatch \<Rightarrow> RuleSet \<Rightarrow> string \<Rightarrow> bool" where
  "thread_rules_pure fnm rs pkg =
     list_ex (\<lambda>m. rule_thread (rs_rules rs) m \<noteq> []) (scan_matches fnm rs pkg)"

lemma query_state:
  "snd (run_state (resolve fnm p t) rs) = snd (run_state (collect_pkg_matches fnm p) rs)"
  "snd (run_state (is_interested fnm p) rs) = snd (run_state (collect_pkg_matches fnm p) rs)"
  "snd (run_state (has_thread_rules fnm p) rs) = snd (run_state (collect_pkg_matches fnm p) rs)"
  by (simp_all add: resolve_def is_interested_def has_thread_rules_def split: prod.splits)

lemma collect_run:
  assumes "cache_ok fnm rs"
  obtains rs' where "run_state (collect_pkg_matches fnm p) rs = (scan_matches fnm rs p, rs')"
    and "rs_rules rs' = rs_rules rs"
  using collect_value [OF assms, of p] collect_rules [of fnm p rs] that
  by (cases "run_state (collect_pkg_matches fnm p) rs") simp

lemma resolve_value:
  assumes "cache_ok fnm rs"
  shows "fst (run_state (resolve fnm p t) rs) = resolve_pure fnm rs p t"
  by (rule collect_run [OF assms, of p]) (simp add: resolve_def resolve_pure_def Let_def)

lemma interested_value:
  assumes "cache_ok fnm rs"
  shows "fst (run_state (is_interested fnm p) rs) = interested_pure fnm rs p"
  by (rule collect_run [OF assms, of p]) (simp add: is_interested_def interested_pure_def)

lemma thread_rules_value:
  assumes "cache_ok fnm rs"
  shows "fst (run_state (has_thread_rules fnm p) rs) = thread_rules_pure fnm rs p"
  by (rule collect_run [OF assms, of p]) (simp add: has_thread_rules_def thread_rules_pure_def)

section \<open>Compiled rules\<close>

definition rule_ok :: "CpuTopology \<Rightarrow> CompiledRule \<Rightarrow> bool" where
  "rule_ok topo r \<longleftrightarrow>
     wf_cpuset (cpus (cr_policy r)) \<and>
     members (cpus (cr_policy r)) \<subseteq> members (present_cpus topo) \<and>
     cr_pkg r \<noteq> [] \<and> length (cr_pkg r) < MAX_PKG_LEN \<and> length (cr_thread r) < MAX_THREAD_LEN"

lemma compile_rule_ok: "wf_cpuset (present_cpus topo) \<Longrightarrow> compile_rule topo rc = Inr r \<Longrightarrow> rule_ok topo r"
  by (auto simp: compile_rule_def rule_ok_def Let_def parse_present parse_wf split: if_splits)

definition idx_ok :: "nat \<Rightarrow> RuleSet \<Rightarrow> bool" where
  "idx_ok n rs \<longleftrightarrow>
     (\<forall>p is. rs_exact rs p = Some is \<longrightarrow> is \<noteq> [] \<and> (\<forall>i \<in> set is. i < n)) \<and>
     (\<forall>w \<in> set (rs_wildcards rs). rule_idxs w \<noteq> [] \<and> (\<forall>i \<in> set (rule_idxs w). i < n))"

lemma add_wildcard_ok:
  assumes "\<forall>w \<in> set ws. rule_idxs w \<noteq> [] \<and> (\<forall>j \<in> set (rule_idxs w). j < n)" and "i < n"
  shows "\<forall>w \<in> set (add_wildcard pkg i ws). rule_idxs w \<noteq> [] \<and> (\<forall>j \<in> set (rule_idxs w). j < n)"
  using assms by (induction pkg i ws rule: add_wildcard.induct) (auto split: option.splits)

lemma index_rule_rules [simp]: "rs_rules (index_rule ir rs) = rs_rules rs"
  by (simp add: index_rule_def Let_def)

lemma index_rule_cache [simp]: "rs_cache (index_rule ir rs) = rs_cache rs"
  by (simp add: index_rule_def Let_def)

lemma index_rule_idx: "idx_ok n rs \<Longrightarrow> fst ir < n \<Longrightarrow> idx_ok n (index_rule ir rs)"
  using add_wildcard_ok [of "rs_wildcards rs" n "fst ir" "cr_pkg (snd ir)"]
  by (auto simp: idx_ok_def index_rule_def Let_def push_idx_def split: option.splits)

lemma build_fields [simp]:
  "rs_rules (build_ruleset rules) = rules" "rs_cache (build_ruleset rules) = Map.empty"
proof -
  have "rs_rules (fold index_rule irs rs) = rs_rules rs \<and> rs_cache (fold index_rule irs rs) = rs_cache rs"
    for irs rs by (induction irs arbitrary: rs) simp_all
  then show "rs_rules (build_ruleset rules) = rules" "rs_cache (build_ruleset rules) = Map.empty"
    by (simp_all add: build_ruleset_def ruleset_default_def)
qed

lemma build_idx: "idx_ok (length rules) (build_ruleset rules)"
proof -
  have "idx_ok n rs \<Longrightarrow> (\<forall>ir \<in> set irs. fst ir < n) \<Longrightarrow> idx_ok n (fold index_rule irs rs)" for n irs rs
    by (induction irs arbitrary: rs) (simp_all add: index_rule_idx)
  moreover have "idx_ok n (ruleset_default\<lparr>rs_rules := rules\<rparr>)" for n
    by (simp add: idx_ok_def ruleset_default_def)
  ultimately show ?thesis
    by (auto simp: build_ruleset_def in_set_enumerate_eq)
qed

lemma build_cache_ok: "cache_ok fnm (build_ruleset rules)"
  by (rule pkg_cache.valid_empty) (simp add: cache_get_def)

definition ruleset_ok :: "CpuTopology \<Rightarrow> RuleSet \<Rightarrow> bool" where
  "ruleset_ok topo rs \<longleftrightarrow> (\<forall>r \<in> set (rs_rules rs). rule_ok topo r) \<and> idx_ok (length (rs_rules rs)) rs"

lemma compile_step_ok:
  assumes "wf_cpuset (present_cpus topo)" and "\<forall>r \<in> set (fst acc). rule_ok topo r"
  shows "\<forall>r \<in> set (fst (compile_step topo irc acc)). rule_ok topo r"
  using assms by (auto simp: compile_step_def compile_rule_ok split: sum.splits)

lemma compile_fold_ok:
  assumes "wf_cpuset (present_cpus topo)" and "\<forall>r \<in> set (fst acc). rule_ok topo r"
  shows "\<forall>r \<in> set (fst (fold (compile_step topo) ircs acc)). rule_ok topo r"
  using assms(2)
proof (induction ircs arbitrary: acc)
  case Nil
  then show ?case by simp
next
  case (Cons irc ircs)
  then show ?case using Cons.IH [OF compile_step_ok [OF assms(1) Cons.prems]] by simp
qed

lemma compile_ok:
  assumes "wf_cpuset (present_cpus topo)"
  shows "ruleset_ok topo (fst (compile configs topo)) \<and> cache_ok fnm (fst (compile configs topo))"
proof -
  obtain rules errs where f: "fold (compile_step topo) (enumerate 0 configs) ([], []) = (rules, errs)"
    by (cases "fold (compile_step topo) (enumerate 0 configs) ([], [])")
  then have "\<forall>r \<in> set rules. rule_ok topo r"
    using compile_fold_ok [OF assms, of "([], [])" "enumerate 0 configs"] by simp
  then show ?thesis
    by (simp add: compile_def f ruleset_ok_def build_idx build_cache_ok)
qed

section \<open>Wildcard selection\<close>

definition wild_hit :: "fnmatch \<Rightarrow> string \<Rightarrow> WildcardRule \<Rightarrow> bool" where
  "wild_hit fnm pkg w \<longleftrightarrow> 0 < specificity w \<and> fnmatch_pkg fnm (wc_pattern w) pkg"

definition best_inv :: "fnmatch \<Rightarrow> string \<Rightarrow> WildcardRule list \<Rightarrow> u64 \<times> nat list option \<Rightarrow> bool" where
  "best_inv fnm pkg ws acc \<longleftrightarrow>
     (\<forall>w \<in> set ws. wild_hit fnm pkg w \<longrightarrow> specificity w \<le> fst acc) \<and>
     (case snd acc of
        None \<Rightarrow> fst acc = 0
      | Some is \<Rightarrow> \<exists>w \<in> set ws. rule_idxs w = is \<and> wild_hit fnm pkg w \<and> specificity w = fst acc)"

lemma best_step_inv:
  assumes "best_inv fnm pkg ws acc"
  shows "best_inv fnm pkg (ws @ [w]) (best_step fnm pkg w acc)"
proof (cases "fst acc < specificity w \<and> fnmatch_pkg fnm (wc_pattern w) pkg")
  case True
  have "0 \<le> fst acc" by simp
  with True have "wild_hit fnm pkg w" by (auto simp: wild_hit_def intro: le_less_trans)
  with True assms show ?thesis
    by (auto simp: best_inv_def best_step_def intro: order_trans less_imp_le)
next
  case False
  then have "wild_hit fnm pkg w \<longrightarrow> specificity w \<le> fst acc" by (auto simp: wild_hit_def)
  with False assms show ?thesis
    unfolding best_inv_def best_step_def by (auto split: option.splits)
qed

lemma best_fold: "best_inv fnm pkg ws (fold (best_step fnm pkg) ws (0, None))"
proof (induction ws rule: rev_induct)
  case Nil
  then show ?case by (simp add: best_inv_def)
next
  case (snoc w ws)
  then show ?case using best_step_inv by simp
qed

lemma best_wildcard_Some:
  assumes "best_wildcard fnm ws pkg = Some is"
  shows "\<exists>w \<in> set ws. rule_idxs w = is \<and> wild_hit fnm pkg w \<and>
    (\<forall>v \<in> set ws. wild_hit fnm pkg v \<longrightarrow> specificity v \<le> specificity w)"
  using best_fold [of fnm pkg ws] assms by (auto simp: best_wildcard_def best_inv_def)

lemma best_wildcard_None:
  "best_wildcard fnm ws pkg = None \<longleftrightarrow> (\<forall>w \<in> set ws. \<not> wild_hit fnm pkg w)"
proof
  assume "best_wildcard fnm ws pkg = None"
  with best_fold [of fnm pkg ws] show "\<forall>w \<in> set ws. \<not> wild_hit fnm pkg w"
    by (auto simp: best_wildcard_def best_inv_def wild_hit_def)
next
  assume "\<forall>w \<in> set ws. \<not> wild_hit fnm pkg w"
  then show "best_wildcard fnm ws pkg = None"
    using best_wildcard_Some [of fnm ws pkg] by (cases "best_wildcard fnm ws pkg") auto
qed

section \<open>Resolution only names present CPUs\<close>

lemma scan_idx:
  assumes "idx_ok n rs" and "m \<in> set (scan_matches fnm rs pkg)"
  shows "index m < n"
proof -
  have exact: "i < n" if "rs_exact rs pkg = Some js" "i \<in> set js" for js i
    using assms(1) that by (auto simp: idx_ok_def)
  have wild: "i < n" if "best_wildcard fnm (rs_wildcards rs) pkg = Some js" "i \<in> set js" for js i
    using assms(1) best_wildcard_Some [OF that(1)] that(2) by (auto simp: idx_ok_def)
  show ?thesis
    using assms(2) exact wild
    by (cases "rs_exact rs pkg"; cases "best_wildcard fnm (rs_wildcards rs) pkg")
      (auto simp: scan_matches_def)
qed

definition policy_ok :: "CpuTopology \<Rightarrow> Policy \<Rightarrow> bool" where
  "policy_ok topo p \<longleftrightarrow> wf_cpuset (cpus p) \<and> members (cpus p) \<subseteq> members (present_cpus topo)"

lemma union_cpus_ok:
  assumes "\<forall>sp \<in> set sps. policy_ok topo (snd sp)"
  shows "wf_cpuset (union_cpus t sps) \<and> members (union_cpus t sps) \<subseteq> members (present_cpus topo)"
  using assms
proof (induction sps rule: rev_induct)
  case Nil
  then show ?case by (simp add: union_cpus_def)
next
  case (snoc sp sps)
  then show ?case by (auto simp: union_cpus_snoc policy_ok_def)
qed

lemma merge_policy_ok:
  assumes "\<forall>m \<in> set ms. policy_ok topo (cr_policy (rules ! index m))" and "merge_rules ms rules = Some p"
  shows "policy_ok topo p"
proof -
  let ?sps = "map (match_policy rules) (by_priority ms)"
  have "\<forall>sp \<in> set ?sps. policy_ok topo (snd sp)"
    using assms(1) by (auto simp: by_priority_def match_policy_def)
  then have "wf_cpuset (top_cpus ?sps) \<and> members (top_cpus ?sps) \<subseteq> members (present_cpus topo)"
    using union_cpus_ok [of ?sps topo] by (auto simp: top_cpus_def split: option.splits)
  moreover have "cpus p = top_cpus ?sps"
    using assms(2) by (auto simp: merge_rules_eq_spec merge_spec_def split: if_splits)
  ultimately show ?thesis by (simp add: policy_ok_def)
qed

lemma fill_missing_fields:
  "cpus (fill_missing p fb) = (if cpuset_count (cpus p) = 0 then cpus fb else cpus p)"
  "sched (fill_missing p fb) = or_else (sched p) (sched fb)"
  "sched_prio (fill_missing p fb) = (if sched p = None then sched_prio fb else sched_prio p)"
  "nice (fill_missing p fb) = or_else (nice p) (nice fb)"
  "uclamp_min (fill_missing p fb) = or_else (uclamp_min p) (uclamp_min fb)"
  "uclamp_max (fill_missing p fb) = or_else (uclamp_max p) (uclamp_max fb)"
  by (auto simp: fill_missing_def Let_def or_else_def split: option.splits)

lemma fill_missing_ok: "policy_ok topo p \<Longrightarrow> policy_ok topo fb \<Longrightarrow> policy_ok topo (fill_missing p fb)"
  by (simp add: policy_ok_def fill_missing_fields)

lemma layered_ok:
  assumes "\<forall>m \<in> set ms. policy_ok topo (cr_policy (rules ! index m))"
    and "layered fnm rules ms t = Some p"
  shows "policy_ok topo p"
proof -
  have hits: "merge_rules (thread_hits fnm rules ms t) rules = Some q \<Longrightarrow> policy_ok topo q" for q
    using assms(1) by (intro merge_policy_ok) (auto simp: thread_hits_def)
  have base: "merge_rules (pkg_level rules ms) rules = Some q \<Longrightarrow> policy_ok topo q" for q
    using assms(1) by (intro merge_policy_ok) (auto simp: pkg_level_def)
  from assms(2) hits base show ?thesis
    by (auto simp: layered_def Let_def intro: fill_missing_ok split: if_splits option.splits)
qed

lemma finish_policy_Some:
  "finish_policy r = Some p \<Longrightarrow>
     \<exists>q. r = Some q \<and> p = q\<lparr>cpuset_dir := to_range_string (cpus q)\<rparr> \<and>
         (0 < cpuset_count (cpus q) \<or> sched q \<noteq> None \<or> nice q \<noteq> None)"
  by (auto simp: finish_policy_def split: option.splits if_splits)

lemma resolve_policy_ok:
  assumes "ruleset_ok topo rs" and "resolve_pure fnm rs pkg t = Some p"
  shows "policy_ok topo p \<and> cpuset_dir p = to_range_string (cpus p)"
proof -
  let ?ms = "scan_matches fnm rs pkg"
  have rules: "\<forall>m \<in> set ?ms. policy_ok topo (cr_policy (rs_rules rs ! index m))"
    using assms(1) scan_idx [of "length (rs_rules rs)" rs _ fnm pkg]
    by (force simp: ruleset_ok_def rule_ok_def policy_ok_def)
  from assms(2) obtain q where q: "layered fnm (rs_rules rs) ?ms t = Some q"
    "p = q\<lparr>cpuset_dir := to_range_string (cpus q)\<rparr>"
    by (auto simp: resolve_pure_def Let_def split: if_splits dest!: finish_policy_Some)
  from layered_ok [OF rules q(1)] q(2) show ?thesis by (simp add: policy_ok_def)
qed

end
