(* ===== verification/Ruleset_Index.thy ===== *)
theory Ruleset_Index
  imports Ruleset_Facts
begin

text \<open>
  What the index holds: the exact table and the wildcard groups list exactly the positions of
  the rules with that package name, so interest in a package can be read off the rules; and
  the arithmetic of the specificity score, which wraps when the wildcards outweigh the
  literals.
\<close>

section \<open>The index\<close>

definition rule_indices :: "string \<Rightarrow> CompiledRule list \<Rightarrow> nat list" where
  "rule_indices p rules = map fst (filter (\<lambda>ir. cr_pkg (snd ir) = p) (enumerate 0 rules))"

definition index_inv :: "CompiledRule list \<Rightarrow> RuleSet \<Rightarrow> bool" where
  "index_inv rules rs \<longleftrightarrow>
     (\<forall>p. rs_exact rs p =
        (if contains_wildcard p \<or> rule_indices p rules = [] then None else Some (rule_indices p rules))) \<and>
     (\<forall>w \<in> set (rs_wildcards rs). contains_wildcard (wc_pattern w) \<and> nul \<notin> set (wc_pattern w) \<and>
        rule_idxs w = rule_indices (wc_pattern w) rules \<and>
        specificity w = pattern_specificity (wc_pattern w)) \<and>
     distinct (map wc_pattern (rs_wildcards rs)) \<and>
     set (map wc_pattern (rs_wildcards rs)) =
       {p \<in> cr_pkg ` set rules. contains_wildcard p \<and> nul \<notin> set p} \<and>
     distinct (rs_pkgs rs) \<and> set (rs_pkgs rs) = cr_pkg ` set rules"

lemma rule_indices_snoc:
  "rule_indices p (rules @ [r]) =
     (if cr_pkg r = p then rule_indices p rules @ [length rules] else rule_indices p rules)"
  by (simp add: rule_indices_def enumerate_append_eq)

lemma rule_indices_Nil: "rule_indices p rules = [] \<longleftrightarrow> p \<notin> cr_pkg ` set rules"
  by (induction rules rule: rev_induct) (auto simp: rule_indices_snoc, simp add: rule_indices_def)

lemma add_wildcard_set:
  assumes "distinct (map wc_pattern ws)"
  shows "set (add_wildcard pkg i ws) =
    (if pkg \<in> set (map wc_pattern ws)
     then (\<lambda>w. if wc_pattern w = pkg then w\<lparr>rule_idxs := rule_idxs w @ [i]\<rparr> else w) ` set ws
     else set ws \<union> (if nul \<in> set pkg then {}
       else {\<lparr>wc_pattern = pkg, specificity = pattern_specificity pkg, rule_idxs = [i]\<rparr>}))"
  using assms
proof (induction pkg i ws rule: add_wildcard.induct)
  case (1 pkg i)
  then show ?case by (simp add: cstring_new_def)
next
  case (2 pkg i w ws)
  show ?case
  proof (cases "wc_pattern w = pkg")
    case True
    with 2(2) have "(\<lambda>w. if wc_pattern w = pkg then w\<lparr>rule_idxs := rule_idxs w @ [i]\<rparr> else w) ` set ws = set ws"
      by (auto simp: image_iff)
    with True show ?thesis by simp
  next
    case False
    with 2 show ?thesis by auto
  qed
qed

lemma add_wildcard_distinct:
  assumes "distinct (map wc_pattern ws)"
  shows "map wc_pattern (add_wildcard pkg i ws) =
    (if pkg \<in> set (map wc_pattern ws) \<or> nul \<in> set pkg then map wc_pattern ws
     else map wc_pattern ws @ [pkg])"
  using assms
  by (induction pkg i ws rule: add_wildcard.induct) (auto simp: cstring_new_def)

lemma index_rule_inv:
  assumes inv: "index_inv rules rs"
  shows "index_inv (rules @ [r]) (index_rule (length rules, r) rs)"
proof (cases "contains_wildcard (cr_pkg r)")
  case False
  have "rs_exact rs (cr_pkg r) =
      (if rule_indices (cr_pkg r) rules = [] then None else Some (rule_indices (cr_pkg r) rules))"
    using inv False by (simp add: index_inv_def)
  with inv False show ?thesis
    by (auto simp: index_inv_def index_rule_def Let_def push_idx_def rule_indices_snoc)
next
  case True
  have d: "distinct (map wc_pattern (rs_wildcards rs))" using inv by (simp add: index_inv_def)
  let ?ws = "add_wildcard (cr_pkg r) (length rules) (rs_wildcards rs)"
  have pats: "set (map wc_pattern ?ws) =
      {p \<in> cr_pkg ` set (rules @ [r]). contains_wildcard p \<and> nul \<notin> set p}"
    using inv True by (auto simp: add_wildcard_distinct [OF d] index_inv_def)
  have dist: "distinct (map wc_pattern ?ws)"
    using d by (simp add: add_wildcard_distinct)
  have idx: "contains_wildcard (wc_pattern w) \<and> nul \<notin> set (wc_pattern w) \<and>
      rule_idxs w = rule_indices (wc_pattern w) (rules @ [r]) \<and>
      specificity w = pattern_specificity (wc_pattern w)" if w: "w \<in> set ?ws" for w
  proof (cases "cr_pkg r \<in> set (map wc_pattern (rs_wildcards rs))")
    case in_ws: True
    with w obtain v where v: "v \<in> set (rs_wildcards rs)"
      "w = (if wc_pattern v = cr_pkg r then v\<lparr>rule_idxs := rule_idxs v @ [length rules]\<rparr> else v)"
      by (auto simp: add_wildcard_set [OF d])
    with inv show ?thesis by (auto simp: index_inv_def rule_indices_snoc)
  next
    case out: False
    have fresh: "nul \<notin> set (cr_pkg r) \<Longrightarrow> rule_indices (cr_pkg r) rules = []"
      using inv out True by (auto simp: index_inv_def rule_indices_Nil)
    from w out consider "w \<in> set (rs_wildcards rs)"
      | "nul \<notin> set (cr_pkg r)"
        "w = \<lparr>wc_pattern = cr_pkg r, specificity = pattern_specificity (cr_pkg r), rule_idxs = [length rules]\<rparr>"
      by (auto simp: add_wildcard_set [OF d] split: if_splits)
    then show ?thesis
    proof cases
      case 1
      with out have "wc_pattern w \<noteq> cr_pkg r" by (metis image_eqI set_map)
      with 1 inv show ?thesis by (auto simp: index_inv_def rule_indices_snoc)
    next
      case 2
      with fresh True show ?thesis by (simp add: rule_indices_snoc)
    qed
  qed
  have exact: "rs_exact rs p =
      (if contains_wildcard p \<or> rule_indices p (rules @ [r]) = [] then None
       else Some (rule_indices p (rules @ [r])))" for p
    using inv True by (auto simp: index_inv_def rule_indices_snoc)
  have pkgs: "distinct (rs_pkgs rs)" "set (rs_pkgs rs) = cr_pkg ` set rules"
    using inv by (simp_all add: index_inv_def)
  have pats': "wc_pattern ` set ?ws =
      {p. (p = cr_pkg r \<or> p \<in> cr_pkg ` set rules) \<and> contains_wildcard p \<and> nul \<notin> set p}"
    using pats by auto
  show ?thesis
    unfolding index_inv_def index_rule_def Let_def
    using True idx exact pkgs pats dist by (auto simp del: add_wildcard.simps)
qed

lemma build_index: "index_inv rules (build_ruleset rules)"
proof -
  let ?rs = "\<lambda>R xs. fold index_rule (enumerate 0 xs) (ruleset_default\<lparr>rs_rules := R\<rparr>)"
  have "index_inv xs (?rs R xs)" for R xs
  proof (induction xs rule: rev_induct)
    case Nil
    then show ?case by (simp add: index_inv_def ruleset_default_def rule_indices_def)
  next
    case (snoc x xs)
    then show ?case using index_rule_inv [of xs "?rs R xs" x] by (simp add: enumerate_append_eq)
  qed
  then show ?thesis by (simp add: build_ruleset_def)
qed

lemma interested_build:
  "interested_pure fnm (build_ruleset rules) pkg \<longleftrightarrow>
     (\<exists>r \<in> set rules. cr_pkg r = pkg \<and> \<not> contains_wildcard pkg) \<or>
     (\<exists>r \<in> set rules. contains_wildcard (cr_pkg r) \<and> nul \<notin> set (cr_pkg r) \<and>
        0 < pattern_specificity (cr_pkg r) \<and> fnmatch_pkg fnm (cr_pkg r) pkg)"
proof -
  let ?rs = "build_ruleset rules"
  have inv: "index_inv rules ?rs" by (rule build_index)
  have exact: "(case rs_exact ?rs pkg of None \<Rightarrow> [] | Some is \<Rightarrow> is) \<noteq> [] \<longleftrightarrow>
      (\<exists>r \<in> set rules. cr_pkg r = pkg \<and> \<not> contains_wildcard pkg)"
    using inv by (auto simp: index_inv_def rule_indices_Nil)
  have hit: "(\<exists>w \<in> set (rs_wildcards ?rs). wild_hit fnm pkg w) \<longleftrightarrow>
      (\<exists>p \<in> set (map wc_pattern (rs_wildcards ?rs)). 0 < pattern_specificity p \<and> fnmatch_pkg fnm p pkg)"
    using inv unfolding index_inv_def wild_hit_def set_map bex_simps by metis
  have wild: "(case best_wildcard fnm (rs_wildcards ?rs) pkg of None \<Rightarrow> [] | Some is \<Rightarrow> is) \<noteq> [] \<longleftrightarrow>
      (\<exists>w \<in> set (rs_wildcards ?rs). wild_hit fnm pkg w)"
  proof (cases "best_wildcard fnm (rs_wildcards ?rs) pkg")
    case None
    with best_wildcard_None [of fnm "rs_wildcards ?rs" pkg] show ?thesis by simp
  next
    case (Some js)
    from best_wildcard_Some [OF this] build_idx [of rules] show ?thesis
      by (auto simp: Some idx_ok_def)
  qed
  have pats: "set (map wc_pattern (rs_wildcards ?rs)) =
      {p \<in> cr_pkg ` set rules. contains_wildcard p \<and> nul \<notin> set p}"
    using inv by (simp add: index_inv_def)
  have "interested_pure fnm ?rs pkg \<longleftrightarrow>
      (case rs_exact ?rs pkg of None \<Rightarrow> [] | Some is \<Rightarrow> is) \<noteq> [] \<or>
      (case best_wildcard fnm (rs_wildcards ?rs) pkg of None \<Rightarrow> [] | Some is \<Rightarrow> is) \<noteq> []"
    by (simp add: interested_pure_def scan_matches_def)
  also have "\<dots> \<longleftrightarrow> (\<exists>r \<in> set rules. cr_pkg r = pkg \<and> \<not> contains_wildcard pkg) \<or>
      (\<exists>p \<in> {p \<in> cr_pkg ` set rules. contains_wildcard p \<and> nul \<notin> set p}.
         0 < pattern_specificity p \<and> fnmatch_pkg fnm p pkg)"
    unfolding exact wild hit pats ..
  finally show ?thesis by blast
qed

section \<open>The score\<close>

lemma counts_length: "fixed_prefix s \<le> length s" "literal_count s + wildcard_count s \<le> length s"
proof -
  show "fixed_prefix s \<le> length s" by (simp add: fixed_prefix_def length_takeWhile_le)
  show "literal_count s + wildcard_count s \<le> length s"
    unfolding literal_count_def wildcard_count_def by (induction s) auto
qed

lemma specificity_value:
  assumes "length s < 128" and "wildcard_count s * 10 \<le> fixed_prefix s * 100 + literal_count s"
  shows "unat (pattern_specificity s) = fixed_prefix s * 100 + literal_count s - wildcard_count s * 10"
proof -
  let ?a = "fixed_prefix s * 100 + literal_count s" and ?b = "wildcard_count s * 10"
  have "?a < 2 ^ 64" using counts_length [of s] assms(1) by simp
  moreover have "pattern_specificity s = of_nat (?a - ?b)"
    using assms(2) by (simp add: pattern_specificity_def of_nat_diff)
  ultimately show ?thesis by (simp add: unat_of_nat)
qed

lemma specificity_wraps:
  assumes "length s < 128" and "fixed_prefix s * 100 + literal_count s < wildcard_count s * 10"
  shows "unat (pattern_specificity s) =
    2 ^ 64 - (wildcard_count s * 10 - (fixed_prefix s * 100 + literal_count s))"
proof -
  let ?a = "fixed_prefix s * 100 + literal_count s" and ?b = "wildcard_count s * 10"
  have b: "?b - ?a < 2 ^ 64" "0 < ?b - ?a" "?b - ?a \<le> 2 ^ 64"
    using counts_length [of s] assms by simp_all
  let ?n = "2 ^ 64 - (?b - ?a)"
  have "pattern_specificity s = - of_nat (?b - ?a)"
    using assms(2) by (simp add: pattern_specificity_def of_nat_diff)
  moreover have "(of_nat (2 ^ 64) :: u64) = 0" by (simp del: of_nat_power)
  then have "(of_nat ?n :: u64) = - of_nat (?b - ?a)"
    using b(3) by (simp only: of_nat_diff diff_0)
  ultimately have "pattern_specificity s = of_nat ?n" by simp
  moreover have "?n < 2 ^ LENGTH(64)" using diff_less [OF b(2), of "2 ^ 64"] by simp
  ultimately show ?thesis by (simp only: unat_of_nat mod_less)
qed

end
