(* ===== verification/Kdl_Config.thy ===== *)
theory Kdl_Config
  imports Config
begin

text \<open>
  From a KDL document to the configuration model (crates/core/src/kdl_parser.rs). The grammar
  itself is the \<open>kdl\<close> crate's: the document tree below is its interface (a node has a name,
  entries with an optional key, and optional children) and the text parser is the argument
  \<open>kdl_doc\<close>. The casts from the crate's 128-bit integers wrap at the target's width.
\<close>

datatype kdl_value = KString string | KInteger int | KBool bool | KOther

datatype kdl_node =
  KNode (kn_name: string) (kn_entries: "(string option \<times> kdl_value) list")
    (kn_children: "kdl_node list option")

datatype kdl_error =
  KdlSyntax string | AppNeedsName | BadEngineMode string | BadMigrateAction string

type_synonym kdl_parser = "string \<Rightarrow> string + kdl_node list"

fun as_string :: "kdl_value \<Rightarrow> string option" where
  "as_string (KString s) = Some s"
| "as_string _ = None"

fun as_integer :: "kdl_value \<Rightarrow> int option" where
  "as_integer (KInteger i) = Some i"
| "as_integer _ = None"

fun as_bool :: "kdl_value \<Rightarrow> bool option" where
  "as_bool (KBool b) = Some b"
| "as_bool _ = None"

definition as_i32 :: "int \<Rightarrow> int" where
  "as_i32 v = sint (word_of_int v :: 32 word)"

definition as_u32 :: "int \<Rightarrow> nat" where
  "as_u32 v = unat (word_of_int v :: u32)"

definition as_u64 :: "int \<Rightarrow> u64" where
  "as_u64 v = word_of_int v"

definition and_then :: "'a option \<Rightarrow> ('a \<Rightarrow> 'b option) \<Rightarrow> 'b option" where
  "and_then x f = (case x of None \<Rightarrow> None | Some y \<Rightarrow> f y)"

definition first_value :: "kdl_node \<Rightarrow> kdl_value option" where
  "first_value n = (case kn_entries n of [] \<Rightarrow> None | e # _ \<Rightarrow> Some (snd e))"

definition first_string :: "kdl_node \<Rightarrow> string option" where
  "first_string n = and_then (first_value n) as_string"

definition children_of :: "kdl_node \<Rightarrow> kdl_node list" where
  "children_of n = (case kn_children n of None \<Rightarrow> [] | Some cs \<Rightarrow> cs)"

section \<open>A policy\<close>

text \<open>
  One field of a policy, given as a property of the node or as a child node; the local
  variable \<open>priority\<close> is carried beside the policy. A value of the wrong kind resets the field.
\<close>

definition set_field ::
  "string \<Rightarrow> kdl_value option \<Rightarrow> PolicyModel \<times> int option \<Rightarrow> PolicyModel \<times> int option" where
  "set_field key val acc =
     (let pol = fst acc; prio = snd acc in
      if key = ''cluster'' then (pol\<lparr>pm_cluster := and_then val as_string\<rparr>, prio)
      else if key = ''cpus'' then (pol\<lparr>pm_cpus := and_then val as_string\<rparr>, prio)
      else if key = ''sched'' then (pol\<lparr>pm_sched := and_then val as_string\<rparr>, prio)
      else if key = ''priority'' then (pol, map_option as_i32 (and_then val as_integer))
      else if key = ''nice'' then (pol\<lparr>pm_nice := map_option as_i32 (and_then val as_integer)\<rparr>, prio)
      else if key = ''uclamp-min''
      then (pol\<lparr>pm_uclamp_min := map_option as_u32 (and_then val as_integer)\<rparr>, prio)
      else if key = ''uclamp-max''
      then (pol\<lparr>pm_uclamp_max := map_option as_u32 (and_then val as_integer)\<rparr>, prio)
      else acc)"

definition set_entry ::
  "string option \<times> kdl_value \<Rightarrow> PolicyModel \<times> int option \<Rightarrow> PolicyModel \<times> int option" where
  "set_entry e acc = (case fst e of None \<Rightarrow> acc | Some k \<Rightarrow> set_field k (Some (snd e)) acc)"

definition set_child :: "kdl_node \<Rightarrow> PolicyModel \<times> int option \<Rightarrow> PolicyModel \<times> int option" where
  "set_child c acc = set_field (kn_name c) (first_value c) acc"

text \<open>\<open>sched\<close> and \<open>priority\<close> become "fifo:60" unless \<open>sched\<close> already has a priority.\<close>

definition join_priority :: "PolicyModel \<Rightarrow> int option \<Rightarrow> PolicyModel" where
  "join_priority pol prio =
     (case prio of
        None \<Rightarrow> pol
      | Some p \<Rightarrow>
          (if (case pm_sched pol of None \<Rightarrow> True | Some s \<Rightarrow> CHR '':'' \<notin> set s)
           then pol\<lparr>pm_sched :=
                  Some ((case pm_sched pol of None \<Rightarrow> ''fifo'' | Some s \<Rightarrow> s) @ '':'' @ show_int p)\<rparr>
           else pol))"

definition parse_policy :: "kdl_node \<Rightarrow> PolicyModel" where
  "parse_policy node =
     (let acc = fold set_child (children_of node)
                  (fold set_entry (kn_entries node) (policy_default, None))
      in join_priority (fst acc) (snd acc))"

section \<open>The top-level nodes\<close>

definition app_child :: "kdl_node \<Rightarrow> AppModel \<Rightarrow> AppModel" where
  "app_child c app =
     (if kn_name c = ''default'' then app\<lparr>default_policy := parse_policy c\<rparr>
      else if kn_name c = ''profile''
      then (case first_string c of None \<Rightarrow> app | Some pn \<Rightarrow> app\<lparr>am_profile := Some pn\<rparr>)
      else if kn_name c = ''thread''
      then (case first_string c of None \<Rightarrow> app
            | Some tn \<Rightarrow> app\<lparr>am_threads := AList.update tn (parse_policy c) (am_threads app)\<rparr>)
      else if kn_name c = ''thread-type''
      then (case first_string c of None \<Rightarrow> app
            | Some tt \<Rightarrow> app\<lparr>thread_types := AList.update tt (parse_policy c) (thread_types app)\<rparr>)
      else app)"

definition app_new :: "string \<Rightarrow> AppModel" where
  "app_new pkg = \<lparr>am_pkg = pkg, am_profile = None, default_policy = policy_default,
     am_threads = [], thread_types = []\<rparr>"

definition app_fill :: "kdl_node \<Rightarrow> AppModel \<Rightarrow> AppModel" where
  "app_fill node app =
     (case kn_children node of
        None \<Rightarrow> app
      | Some cs \<Rightarrow> fold app_child cs (app\<lparr>default_policy := parse_policy node\<rparr>))"

definition parse_app ::
  "kdl_node \<Rightarrow> (string \<times> AppModel) list \<Rightarrow> kdl_error + (string \<times> AppModel) list" where
  "parse_app node as =
     (case first_string node of
        None \<Rightarrow> Inl AppNeedsName
      | Some pkg \<Rightarrow>
          Inr (AList.update pkg
            (app_fill node (case map_of as pkg of None \<Rightarrow> app_new pkg | Some app \<Rightarrow> app)) as))"

definition daemon_child :: "kdl_node \<Rightarrow> DaemonConfig \<Rightarrow> DaemonConfig" where
  "daemon_child c d =
     (case first_string c of
        None \<Rightarrow> d
      | Some v \<Rightarrow>
          (if kn_name c = ''pid-file'' then d\<lparr>pid_file := v\<rparr>
           else if kn_name c = ''ipc-socket'' then d\<lparr>ipc_socket := v\<rparr>
           else if kn_name c = ''log-level'' then d\<lparr>log_level := v\<rparr>
           else d))"

definition parse_daemon :: "kdl_node \<Rightarrow> DaemonConfig \<Rightarrow> DaemonConfig" where
  "parse_daemon node d = fold daemon_child (children_of node) d"

definition mode_of :: "string \<Rightarrow> EngineMode option" where
  "mode_of v =
     (if v = ''auto'' then Some Auto else if v = ''ebpf'' then Some Ebpf
      else if v = ''proc'' then Some Proc else if v = ''hybrid'' then Some Hybrid else None)"

definition migrate_of :: "string \<Rightarrow> MigrateAction option" where
  "migrate_of v =
     (if v = ''observe'' then Some MObserve else if v = ''suggest'' then Some MSuggest
      else if v = ''force'' then Some MForce else None)"

definition bool_of :: "kdl_value \<Rightarrow> bool option" where
  "bool_of v =
     (case as_bool v of
        Some b \<Rightarrow> Some b
      | None \<Rightarrow>
          (if as_string v = Some ''true'' then Some True
           else if as_string v = Some ''false'' then Some False else None))"

definition engine_child :: "kdl_node \<Rightarrow> EngineConfig \<Rightarrow> kdl_error + EngineConfig" where
  "engine_child c e =
     (let n = kn_name c; vs = first_string c; vi = and_then (first_value c) as_integer in
      if n = ''mode''
      then (case vs of None \<Rightarrow> Inr e
            | Some v \<Rightarrow> (case mode_of v of None \<Rightarrow> Inl (BadEngineMode v)
                        | Some m \<Rightarrow> Inr (e\<lparr>mode := m\<rparr>)))
      else if n = ''scan-interval''
      then Inr (case vi of None \<Rightarrow> e | Some v \<Rightarrow> e\<lparr>scan_interval := as_u64 v\<rparr>)
      else if n = ''lock-interval''
      then Inr (case vi of None \<Rightarrow> e | Some v \<Rightarrow> e\<lparr>lock_interval := as_u64 v\<rparr>)
      else if n = ''dead-cleanup-interval''
      then Inr (case vi of None \<Rightarrow> e | Some v \<Rightarrow> e\<lparr>dead_cleanup_interval := as_u64 v\<rparr>)
      else if n = ''migrate-action''
      then (case vs of None \<Rightarrow> Inr e
            | Some v \<Rightarrow> (case migrate_of v of None \<Rightarrow> Inl (BadMigrateAction v)
                        | Some m \<Rightarrow> Inr (e\<lparr>ec_migrate_action := m\<rparr>)))
      else if n = ''pressure-sensitive''
      then Inr (case and_then (first_value c) bool_of of
                  None \<Rightarrow> e | Some b \<Rightarrow> e\<lparr>ec_pressure_sensitive := b\<rparr>)
      else Inr e)"

text \<open>A loop that stops at the first error.\<close>

fun try_fold :: "('a \<Rightarrow> 'b \<Rightarrow> 'e + 'b) \<Rightarrow> 'a list \<Rightarrow> 'b \<Rightarrow> 'e + 'b" where
  "try_fold f [] b = Inr b"
| "try_fold f (x # xs) b = (case f x b of Inl e \<Rightarrow> Inl e | Inr b' \<Rightarrow> try_fold f xs b')"

definition parse_engine :: "kdl_node \<Rightarrow> EngineConfig \<Rightarrow> kdl_error + EngineConfig" where
  "parse_engine node e = try_fold engine_child (children_of node) e"

type_synonym kdl_config = "(string \<times> AppModel) list \<times> DaemonConfig \<times> EngineConfig"

definition parse_node :: "kdl_node \<Rightarrow> kdl_config \<Rightarrow> kdl_error + kdl_config" where
  "parse_node node acc =
     (case acc of (as, d, e) \<Rightarrow>
        (if kn_name node = ''app''
         then (case parse_app node as of Inl err \<Rightarrow> Inl err | Inr as' \<Rightarrow> Inr (as', d, e))
         else if kn_name node = ''daemon'' then Inr (as, parse_daemon node d, e)
         else if kn_name node = ''engine''
         then (case parse_engine node e of Inl err \<Rightarrow> Inl err | Inr e' \<Rightarrow> Inr (as, d, e'))
         else Inr acc))"

definition parse_doc :: "kdl_node list \<Rightarrow> kdl_error + kdl_config" where
  "parse_doc nodes = try_fold parse_node nodes ([], daemon_default, engine_config_default)"

definition parse_kdl ::
  "kdl_parser \<Rightarrow> string \<Rightarrow> kdl_error + (ConfigModel \<times> DaemonConfig \<times> EngineConfig)" where
  "parse_kdl kdl_doc input =
     (case kdl_doc input of
        Inl e \<Rightarrow> Inl (KdlSyntax e)
      | Inr nodes \<Rightarrow>
          (case parse_doc nodes of
             Inl e \<Rightarrow> Inl e | Inr (as, d, e) \<Rightarrow> Inr (\<lparr>apps = as\<rparr>, d, e)))"

section \<open>System tuning\<close>

record SystemTuning =
  governor :: "string option"
  io_scheduler :: "string option"

definition system_child :: "kdl_node \<Rightarrow> SystemTuning \<Rightarrow> SystemTuning" where
  "system_child c t =
     (if kn_name c = ''governor'' then t\<lparr>governor := first_string c\<rparr>
      else if kn_name c = ''io-scheduler'' then t\<lparr>io_scheduler := first_string c\<rparr>
      else t)"

definition system_node :: "kdl_node \<Rightarrow> SystemTuning \<Rightarrow> SystemTuning" where
  "system_node n t = (if kn_name n \<noteq> ''system'' then t else fold system_child (children_of n) t)"

definition parse_system :: "kdl_parser \<Rightarrow> string \<Rightarrow> kdl_error + SystemTuning" where
  "parse_system kdl_doc input =
     (case kdl_doc input of
        Inl e \<Rightarrow> Inl (KdlSyntax e)
      | Inr nodes \<Rightarrow> Inr (fold system_node nodes \<lparr>governor = None, io_scheduler = None\<rparr>))"

section \<open>Lemmas\<close>

text \<open>Every application is stored under its package name, once, with distinct thread keys.\<close>

definition app_ok :: "string \<times> AppModel \<Rightarrow> bool" where
  "app_ok kv \<longleftrightarrow> am_pkg (snd kv) = fst kv \<and> distinct (map fst (am_threads (snd kv))) \<and>
     distinct (map fst (thread_types (snd kv)))"

definition apps_ok :: "(string \<times> AppModel) list \<Rightarrow> bool" where
  "apps_ok as \<longleftrightarrow> distinct (map fst as) \<and> (\<forall>kv \<in> set as. app_ok kv)"

lemma app_child_ok: "app_ok (k, app) \<Longrightarrow> app_ok (k, app_child c app)"
  by (auto simp: app_ok_def app_child_def distinct_update split: option.splits)

lemma app_fill_ok: "app_ok (k, app) \<Longrightarrow> app_ok (k, app_fill n app)"
proof -
  have fold: "app_ok (k, a) \<Longrightarrow> app_ok (k, fold app_child cs a)" for a cs
    by (induction cs arbitrary: a) (simp_all add: app_child_ok)
  have "app_ok (k, app) \<Longrightarrow> app_ok (k, app\<lparr>default_policy := p\<rparr>)" for p
    by (simp add: app_ok_def)
  with fold show "app_ok (k, app) \<Longrightarrow> app_ok (k, app_fill n app)"
    by (simp add: app_fill_def split: option.splits)
qed

lemma set_update: "set (AList.update k v xs) \<subseteq> insert (k, v) (set xs)"
  by (induction xs) auto

lemma parse_app_ok: "apps_ok as \<Longrightarrow> parse_app n as = Inr as' \<Longrightarrow> apps_ok as'"
proof -
  assume ok: "apps_ok as" and p: "parse_app n as = Inr as'"
  define app_of where "app_of pkg = (case map_of as pkg of None \<Rightarrow> app_new pkg | Some a \<Rightarrow> a)" for pkg
  from p obtain pkg where pkg: "first_string n = Some pkg"
    by (cases "first_string n") (simp_all add: parse_app_def)
  with p have as': "as' = AList.update pkg (app_fill n (app_of pkg)) as"
    by (simp add: parse_app_def app_of_def)
  have "app_ok (pkg, app_of pkg)"
    using ok by (auto simp: app_of_def apps_ok_def app_ok_def app_new_def dest: map_of_SomeD
        split: option.splits)
  then have "app_ok (pkg, app_fill n (app_of pkg))" by (rule app_fill_ok)
  with ok set_update [of pkg "app_fill n (app_of pkg)" as] show ?thesis
    by (auto simp: apps_ok_def as' distinct_update)
qed

lemma try_fold_inv:
  assumes "\<And>x b b'. x \<in> set xs \<Longrightarrow> I b \<Longrightarrow> f x b = Inr b' \<Longrightarrow> I b'"
    and "I b" and "try_fold f xs b = Inr b'"
  shows "I b'"
  using assms by (induction xs arbitrary: b) (auto split: sum.splits)

lemma parse_doc_ok: "parse_doc nodes = Inr (as, d, e) \<Longrightarrow> apps_ok as"
  unfolding parse_doc_def
  by (drule try_fold_inv [where I = "\<lambda>acc. apps_ok (fst acc)", rotated 2])
    (auto simp: apps_ok_def [of "[]"] parse_node_def intro: parse_app_ok split: if_splits sum.splits prod.splits)

lemma parse_kdl_ok: "parse_kdl kdl_doc input = Inr (m, d, e) \<Longrightarrow> apps_ok (apps m)"
  by (auto simp: parse_kdl_def dest: parse_doc_ok split: sum.splits)

end
