(* ===== verification/Rule_Properties.thy ===== *)
theory Rule_Properties
  imports Ruleset_Index Kdl_Config
begin

text \<open>
  The properties of the rules: merging, compilation, the cached queries, wildcard selection,
  the layering of thread rules over package rules, the expansion of applications and the KDL
  front end.
\<close>

section \<open>Examples\<close>

definition demo_topo :: CpuTopology where
  "demo_topo = topo_default\<lparr>present_cpus := fold cpuset_set [0..<8] cpuset_new\<rparr>"

definition demo_rule :: "string \<Rightarrow> string \<Rightarrow> RuleConfig" where
  "demo_rule pkg rng = (placeholder pkg)\<lparr>rc_cpus := rng\<rparr>"

definition policy_none :: Policy where
  "policy_none = \<lparr>cpus = cpuset_new, cpuset_dir = [], sched = None, sched_prio = None, nice = None,
     uclamp_min = None, uclamp_max = None\<rparr>"

definition rule_for :: "string \<Rightarrow> string \<Rightarrow> Policy \<Rightarrow> CompiledRule" where
  "rule_for pkg thread p =
     \<lparr>cr_pkg = pkg, cr_thread = thread, thread_pattern = cstring_new thread, cr_policy = p\<rparr>"

lemma demo_topo_wf: "wf_cpuset (present_cpus demo_topo)"
  using fold_cpuset_set [OF wf_new] by (simp add: demo_topo_def)

lemma policy_none_wf: "wf_cpuset (cpus policy_none)"
  by (simp add: policy_none_def)

definition nice_rule :: RuleConfig where
  "nice_rule = (placeholder ''com.a'')\<lparr>rc_nice := Some 5\<rparr>"

lemma compile_single: "compile_rule topo rc = Inr r \<Longrightarrow> fst (compile [rc] topo) = build_ruleset [r]"
  by (simp add: compile_def compile_step_def)

lemma scan_single:
  assumes "\<not> contains_wildcard (cr_pkg r)"
  shows "scan_matches fnm (build_ruleset [r]) (cr_pkg r) = [\<lparr>index = 0, source = PackageExact\<rparr>]"
  using assms by (simp add: scan_matches_def build_ruleset_def index_rule_def Let_def
      ruleset_default_def push_idx_def best_wildcard_def)

lemma resolve_single:
  assumes "\<not> contains_wildcard (cr_pkg r)" and "cr_thread r = []"
  shows "resolve_pure fnm (build_ruleset [r]) (cr_pkg r) t =
    finish_policy (merge_rules [\<lparr>index = 0, source = PackageExact\<rparr>] [r])"
  by (simp add: resolve_pure_def scan_single [OF assms(1)] layered_def thread_hits_def rule_thread_def
      pkg_level_def assms(2) Let_def)

lemma nul_char: "nul = CHR 0x00"
  by (simp add: nul_def char_of_def)

lemma merge_single_nice: "nice (cr_policy r) = Some n \<Longrightarrow>
    \<exists>p. merge_rules [\<lparr>index = 0, source = s\<rparr>] [r] = Some p \<and> nice p = Some n"
  by (simp add: merge_rules_eq_spec merge_spec_def by_priority_def match_policy_def first_nice_def)

lemma nice_rule_resolves:
  "\<exists>p. fst (run_state (resolve fnm ''com.a'' t) (fst (compile [nice_rule] topo))) = Some p"
proof -
  obtain r where r: "compile_rule topo nice_rule = Inr r" "cr_pkg r = ''com.a''" "cr_thread r = []"
    "nice (cr_policy r) = Some 5"
    by (simp add: compile_rule_def nice_rule_def placeholder_def MAX_PKG_LEN_def MAX_THREAD_LEN_def Let_def)
  moreover have "\<not> contains_wildcard ''com.a''" by code_simp
  moreover obtain p where "merge_rules [\<lparr>index = 0, source = PackageExact\<rparr>] [r] = Some p"
    "nice p = Some 5" using merge_single_nice [OF r(4)] by blast
  ultimately show ?thesis
    using resolve_single [of r fnm t]
    by (simp add: compile_single resolve_value [OF build_cache_ok] finish_policy_def)
qed

section \<open>Merging\<close>

text \<open>
  C1. The merge loop computes, field by field, what the strategy table says over the rules in
  priority order: the union of the masks of the highest source that has one, the first policy
  with its priority, the first nice value, the greatest floor and the least ceiling; and
  nothing when no field is set.
\<close>

theorem merge_meets_table:
  "merge_rules ms rules = merge_spec (map (match_policy rules) (by_priority ms))"
  by (rule merge_rules_eq_spec)

section \<open>Queries\<close>

lemma queries_keep:
  "cache_ok fnm rs \<Longrightarrow>
   cache_ok fnm (fold (\<lambda>(q, u) r. snd (run_state (resolve fnm q u) r)) qs rs) \<and>
   ruleset_clone (fold (\<lambda>(q, u) r. snd (run_state (resolve fnm q u) r)) qs rs) = ruleset_clone rs"
proof (induction qs arbitrary: rs)
  case Nil
  then show ?case by simp
next
  case (Cons qu qs)
  have "ruleset_clone (snd (run_state (collect_pkg_matches fnm p) rs)) = ruleset_clone rs" for p
    unfolding collect_is_lookup
    by (rule pkg_cache.lookup_frame) (simp add: ruleset_clone_def cache_put_def)
  with Cons show ?case by (cases qu) (simp add: query_state collect_ok)
qed

lemma resolve_pure_clone: "resolve_pure fnm (ruleset_clone rs) = resolve_pure fnm rs"
  by (intro ext) (simp add: resolve_pure_def scan_matches_def ruleset_clone_def)

lemma compile_cache_ok: "cache_ok fnm (fst (compile cfgs topo))"
  by (simp add: compile_def build_cache_ok split: prod.splits)

text \<open>
  C5. The cache is invisible: after any sequence of queries, \<open>resolve\<close> answers what it
  answers on the freshly compiled rule set.
\<close>

theorem cache_is_transparent:
  "fst (run_state (resolve fnm p t)
      (fold (\<lambda>(q, u) r. snd (run_state (resolve fnm q u) r)) qs (fst (compile cfgs topo)))) =
   fst (run_state (resolve fnm p t) (fst (compile cfgs topo)))"
  using queries_keep [OF compile_cache_ok, of fnm qs cfgs topo] compile_cache_ok [of fnm cfgs topo]
  by (simp add: resolve_value) (metis resolve_pure_clone)

text \<open>
  C6. A package is of interest exactly when a compiled rule names it literally, or a rule's
  wildcard pattern has a positive score, matches it under \<open>fnmatch\<close>, and neither the pattern
  has a NUL byte nor the name 128 bytes or more. (A pattern that scores exactly 0 is ignored.)
\<close>

theorem interest_characterised:
  "fst (run_state (is_interested fnm pkg) (build_ruleset rules)) \<longleftrightarrow>
     (\<exists>r \<in> set rules. cr_pkg r = pkg \<and> \<not> contains_wildcard pkg) \<or>
     (\<exists>r \<in> set rules. contains_wildcard (cr_pkg r) \<and> nul \<notin> set (cr_pkg r) \<and>
        0 < pattern_specificity (cr_pkg r) \<and> fnmatch_pkg fnm (cr_pkg r) pkg)"
  by (simp add: interested_value [OF build_cache_ok] interested_build)

text \<open>
  C4. What \<open>resolve\<close> returns on compiled rules can be applied: its CPUs are present CPUs, its
  directory name is the range of exactly these CPUs, and it sets CPUs, a policy or a nice value.
\<close>

theorem resolved_policy_is_applicable:
  assumes "wf_cpuset (present_cpus topo)"
    and "fst (run_state (resolve fnm pkg t) (fst (compile cfgs topo))) = Some p"
  shows "members (cpus p) \<subseteq> members (present_cpus topo) \<and>
    cpuset_dir p = to_range_string (cpus p) \<and>
    (members (cpus p) \<noteq> {} \<or> sched p \<noteq> None \<or> nice p \<noteq> None)"
proof -
  have r: "resolve_pure fnm (fst (compile cfgs topo)) pkg t = Some p"
    using assms(2) by (simp add: resolve_value [OF compile_cache_ok])
  have ok: "ruleset_ok topo (fst (compile cfgs topo))"
    using compile_ok [OF assms(1)] by blast
  from r obtain q where "finish_policy q = Some p"
    by (auto simp: resolve_pure_def Let_def split: if_splits)
  with resolve_policy_ok [OF ok r] show ?thesis
    by (auto simp: policy_ok_def dest!: finish_policy_Some)
qed

theorem resolved_policy_is_applicable_witness:
  "\<exists>p. fst (run_state (resolve (=) ''com.a'' []) (fst (compile [nice_rule] demo_topo))) = Some p \<and>
     members (cpus p) \<subseteq> members (present_cpus demo_topo)"
proof -
  obtain p where p:
    "fst (run_state (resolve (=) ''com.a'' []) (fst (compile [nice_rule] demo_topo))) = Some p"
    using nice_rule_resolves [of "(=)" "[]" demo_topo] by blast
  from resolved_policy_is_applicable [OF demo_topo_wf p] p show ?thesis by blast
qed

section \<open>Wildcards\<close>

text \<open>Wildcards that outweigh the literals wrap to a score above every score of a pattern that does not.\<close>

lemma unweighted_small:
  assumes "length s < 128" and "wildcard_count s * 10 \<le> fixed_prefix s * 100 + literal_count s"
  shows "unat (pattern_specificity s) < 2 ^ 64 - 1280"
  using specificity_value [OF assms] counts_length [of s] assms(1) by simp

lemma outweighed_big:
  assumes "length s < 128" and "fixed_prefix s * 100 + literal_count s < wildcard_count s * 10"
  shows "2 ^ 64 - 1280 < unat (pattern_specificity s)"
  using specificity_wraps [OF assms] counts_length [of s] assms(1) by simp

text \<open>
  C7. A pattern whose wildcards outweigh its literals, such as the catch-all \<open>*\<close>, is never
  beaten by a pattern whose literals do: when such a pattern matches a package, the group
  chosen for the package is again one whose wildcards outweigh its literals.
\<close>

theorem outweighed_pattern_wins:
  assumes "\<forall>r \<in> set rules. length (cr_pkg r) < 128"
    and "r \<in> set rules" and "contains_wildcard (cr_pkg r)" and "nul \<notin> set (cr_pkg r)"
    and "fnmatch_pkg fnm (cr_pkg r) pkg"
    and "fixed_prefix (cr_pkg r) * 100 + literal_count (cr_pkg r) < wildcard_count (cr_pkg r) * 10"
  shows "\<exists>p. best_wildcard fnm (rs_wildcards (build_ruleset rules)) pkg = Some (rule_indices p rules) \<and>
    fixed_prefix p * 100 + literal_count p < wildcard_count p * 10"
proof -
  let ?ws = "rs_wildcards (build_ruleset rules)"
  have inv: "index_inv rules (build_ruleset rules)" by (rule build_index)
  then have set_ws: "wc_pattern ` set ?ws = {p \<in> cr_pkg ` set rules. contains_wildcard p \<and> nul \<notin> set p}"
    and grp: "w \<in> set ?ws \<Longrightarrow> rule_idxs w = rule_indices (wc_pattern w) rules \<and>
      specificity w = pattern_specificity (wc_pattern w)" for w
    by (auto simp: index_inv_def)
  have big: "2 ^ 64 - 1280 < unat (pattern_specificity (cr_pkg r))"
    using outweighed_big assms by blast
  from assms(2-4) set_ws obtain v where v: "v \<in> set ?ws" "wc_pattern v = cr_pkg r" by force
  have "0 < unat (specificity v)" using big grp [OF v(1)] v(2) by simp
  then have hit: "wild_hit fnm pkg v"
    using assms(5) v by (simp add: wild_hit_def word_less_nat_alt)
  with v(1) obtain js where js: "best_wildcard fnm ?ws pkg = Some js"
    using best_wildcard_None [of fnm ?ws pkg] by (cases "best_wildcard fnm ?ws pkg") auto
  from best_wildcard_Some [OF js] obtain w where w: "w \<in> set ?ws" "rule_idxs w = js"
    "specificity v \<le> specificity w" using v(1) hit by blast
  let ?p = "wc_pattern w"
  have "2 ^ 64 - 1280 < unat (pattern_specificity ?p)"
    using w(3) big grp v w(1) by (simp add: word_le_nat_alt)
  moreover have "?p \<in> wc_pattern ` set ?ws" using w(1) by (rule imageI)
  then have "length ?p < 128" using assms(1) by (auto simp: set_ws)
  ultimately have "fixed_prefix ?p * 100 + literal_count ?p < wildcard_count ?p * 10"
    using unweighted_small [of ?p] by (meson less_asym not_le)
  with js w(1,2) grp show ?thesis by metis
qed

text \<open>On the rules \<open>*\<close> and \<open>com.game.*\<close> the catch-all is chosen for \<open>com.game.x\<close>.\<close>

theorem outweighed_pattern_wins_witness:
  "best_wildcard (\<lambda>_ _. True)
     (rs_wildcards (build_ruleset [rule_for ''com.game.*'' [] policy_none, rule_for ''*'' [] policy_none]))
     ''com.game.x'' = Some [1]"
proof -
  let ?rules = "[rule_for ''com.game.*'' [] policy_none, rule_for ''*'' [] policy_none]"
  have star: "contains_wildcard ''*''" "nul \<notin> set ''*''"
    "fixed_prefix ''*'' * 100 + literal_count ''*'' < wildcard_count ''*'' * 10"
    by (simp_all add: contains_wildcard_def is_wild_char_def nul_char fixed_prefix_def literal_count_def
        wildcard_count_def is_meta_def)
  have game: "\<not> fixed_prefix ''com.game.*'' * 100 + literal_count ''com.game.*'' < wildcard_count ''com.game.*'' * 10"
    by (simp add: fixed_prefix_def literal_count_def wildcard_count_def is_meta_def is_wild_char_def)
  obtain p where p: "best_wildcard (\<lambda>_ _. True) (rs_wildcards (build_ruleset ?rules)) ''com.game.x'' =
      Some (rule_indices p ?rules)" "fixed_prefix p * 100 + literal_count p < wildcard_count p * 10"
    using outweighed_pattern_wins [of ?rules "rule_for ''*'' [] policy_none" "\<lambda>_ _. True" "''com.game.x''"] star
    by (auto simp: rule_for_def fnmatch_pkg_def MAX_PKG_LEN_def)
  have "rule_indices p ?rules \<noteq> []"
    using best_wildcard_Some [OF p(1)] build_idx [of ?rules] by (auto simp: idx_ok_def)
  with p(2) game have "p = ''*''"
    by (auto simp: rule_indices_Nil rule_for_def)
  then show ?thesis using p(1) by (simp add: rule_indices_def rule_for_def)
qed

text \<open>Compilation splits the configured rules.\<close>

lemma compile_fold:
  "fold (compile_step topo) ircs (rules, errs) =
     (rules @ List.map_filter (\<lambda>irc. case compile_rule topo (snd irc) of Inl _ \<Rightarrow> None | Inr c \<Rightarrow> Some c) ircs,
      errs @ List.map_filter (\<lambda>irc. case compile_rule topo (snd irc) of
        Inl e \<Rightarrow> Some \<lparr>re_index = fst irc, re_reason = e\<rparr> | Inr _ \<Rightarrow> None) ircs)"
  by (induction ircs arbitrary: rules errs) (simp_all add: compile_step_def split: sum.split)

lemma map_filter_enumerate:
  "List.map_filter (\<lambda>ix. f (snd ix)) (enumerate n xs) = List.map_filter f xs"
  by (induction xs arbitrary: n) (simp_all split: option.split)

lemma map_filter_empty: "List.map_filter f xs = [] \<longleftrightarrow> (\<forall>x \<in> set xs. f x = None)"
  by (induction xs) (simp_all split: option.split)

lemma enumerate_values: "snd ` set (enumerate n xs) = set xs"
  by (metis list.set_map map_snd_enumerate)

text \<open>
  C3. Compilation splits the configuration: the rules are the compiled forms of the valid entries,
  in order; the errors name exactly the other entries by their position; and there are none
  exactly when every entry has a package name of 1 to 127 bytes, a thread name below its limit,
  and no CPU text or one that names a present CPU.
\<close>

theorem compile_splits:
  "rs_rules (fst (compile cfgs topo)) =
     List.map_filter (\<lambda>rc. case compile_rule topo rc of Inl _ \<Rightarrow> None | Inr c \<Rightarrow> Some c) cfgs \<and>
   snd (compile cfgs topo) =
     List.map_filter (\<lambda>irc. case compile_rule topo (snd irc) of
       Inl e \<Rightarrow> Some \<lparr>re_index = fst irc, re_reason = e\<rparr> | Inr _ \<Rightarrow> None) (enumerate 0 cfgs) \<and>
   (snd (compile cfgs topo) = [] \<longleftrightarrow>
     (\<forall>rc \<in> set cfgs. rc_pkg rc \<noteq> [] \<and> length (rc_pkg rc) < 128 \<and> length (rc_thread rc) < MAX_THREAD_LEN \<and>
        (rc_cpus rc = [] \<or> members (parse_cpu_ranges (rc_cpus rc) (Some (present_cpus topo))) \<noteq> {})))"
proof -
  let ?err = "\<lambda>irc. case compile_rule topo (snd irc) of
       Inl e \<Rightarrow> Some \<lparr>re_index = fst irc, re_reason = e\<rparr> | Inr _ \<Rightarrow> None"
  have errs: "snd (compile cfgs topo) = List.map_filter ?err (enumerate 0 cfgs)"
    by (simp add: compile_def compile_fold)
  have ok: "(?err irc = None) = (rc_pkg (snd irc) \<noteq> [] \<and> length (rc_pkg (snd irc)) < 128 \<and>
      length (rc_thread (snd irc)) < MAX_THREAD_LEN \<and>
      (rc_cpus (snd irc) = [] \<or> members (parse_cpu_ranges (rc_cpus (snd irc)) (Some (present_cpus topo))) \<noteq> {}))" for irc
    by (auto simp: compile_rule_def Let_def MAX_PKG_LEN_def count_zero [OF parse_wf])
  have "snd (compile cfgs topo) = [] \<longleftrightarrow> (\<forall>irc \<in> set (enumerate 0 cfgs). ?err irc = None)"
    unfolding errs by (rule map_filter_empty)
  also have "\<dots> \<longleftrightarrow> (\<forall>rc \<in> snd ` set (enumerate 0 cfgs). rc_pkg rc \<noteq> [] \<and> length (rc_pkg rc) < 128 \<and>
      length (rc_thread rc) < MAX_THREAD_LEN \<and>
      (rc_cpus rc = [] \<or> members (parse_cpu_ranges (rc_cpus rc) (Some (present_cpus topo))) \<noteq> {}))"
    by (simp only: ok ball_simps)
  finally show ?thesis
    by (simp add: errs enumerate_values compile_def compile_fold
        map_filter_enumerate [of "\<lambda>rc. case compile_rule topo rc of Inl _ \<Rightarrow> None | Inr c \<Rightarrow> Some c"])
qed

theorem compile_splits_witness:
  "snd (compile [nice_rule, placeholder [], nice_rule] topo_default) =
     [\<lparr>re_index = 1, re_reason = PkgLength\<rparr>]"
  using compile_splits [of "[nice_rule, placeholder [], nice_rule]" topo_default]
  by (simp add: compile_rule_def nice_rule_def placeholder_def MAX_PKG_LEN_def MAX_THREAD_LEN_def Let_def)

section \<open>Layers\<close>

text \<open>
  C2. Thread rules are layered over package rules field by field: each field of the answer is
  the merged thread rules' where they set it and the merged package rules' otherwise, the
  priority travels with its policy, and the directory is the range of the CPUs chosen.
\<close>

theorem thread_rules_layer:
  assumes "cache_ok fnm rs" and "ms = scan_matches fnm rs pkg"
    and "merge_rules (thread_hits fnm (rs_rules rs) ms t) (rs_rules rs) = Some a"
    and "merge_rules (pkg_level (rs_rules rs) ms) (rs_rules rs) = Some b"
    and "fst (run_state (resolve fnm pkg t) rs) = Some p"
  shows "cpus p = (if cpuset_count (cpus a) = 0 then cpus b else cpus a) \<and>
    cpuset_dir p = to_range_string (cpus p) \<and>
    sched p = or_else (sched a) (sched b) \<and>
    sched_prio p = (if sched a = None then sched_prio b else sched_prio a) \<and>
    nice p = or_else (nice a) (nice b) \<and>
    uclamp_min p = or_else (uclamp_min a) (uclamp_min b) \<and>
    uclamp_max p = or_else (uclamp_max a) (uclamp_max b)"
proof -
  have "merge_rules [] rules = None" for rules
    by (simp add: merge_rules_eq_spec merge_spec_def by_priority_def top_source_def first_sched_def
        first_nice_def opt_vals_def)
  with assms(3) have "thread_hits fnm (rs_rules rs) ms t \<noteq> []" by auto
  with assms(2-4) have "layered fnm (rs_rules rs) ms t = Some (fill_missing a b)"
    by (simp add: layered_def)
  with assms(2,5) have "finish_policy (Some (fill_missing a b)) = Some p"
    by (simp add: resolve_value [OF assms(1)] resolve_pure_def Let_def split: if_splits)
  then have "p = (fill_missing a b)\<lparr>cpuset_dir := to_range_string (cpus (fill_missing a b))\<rparr>"
    by (auto dest: finish_policy_Some)
  then show ?thesis by (simp add: fill_missing_fields)
qed

definition layer_rules :: "CompiledRule list" where
  "layer_rules = [rule_for ''com.a'' [] (policy_none\<lparr>nice := Some 5\<rparr>),
     rule_for ''com.a'' ''Render'' (policy_none\<lparr>sched := Some Fifo\<rparr>)]"

lemma merge_single:
  "merge_rules [\<lparr>index = i, source = s\<rparr>] rules = merge_spec [(s, cr_policy (rules ! i))]"
  by (simp add: merge_rules_eq_spec by_priority_def match_policy_def)

lemma layer_rules_scan:
  "scan_matches (=) (build_ruleset layer_rules) ''com.a'' =
     [\<lparr>index = 0, source = PackageExact\<rparr>, \<lparr>index = 1, source = PackageExact\<rparr>]"
  by (simp add: layer_rules_def rule_for_def scan_matches_def build_ruleset_def index_rule_def Let_def
      ruleset_default_def push_idx_def best_wildcard_def contains_wildcard_def is_wild_char_def)

theorem thread_rules_layer_witness:
  "\<exists>p. fst (run_state (resolve (=) ''com.a'' ''Render'') (build_ruleset layer_rules)) = Some p \<and>
     sched p = Some Fifo \<and> nice p = Some 5"
proof -
  let ?rs = "build_ruleset layer_rules" and ?ms = "scan_matches (=) (build_ruleset layer_rules) ''com.a''"
  have hits: "thread_hits (=) layer_rules ?ms ''Render'' = [\<lparr>index = 1, source = PackageExact\<rparr>]"
    and pkg: "pkg_level layer_rules ?ms = [\<lparr>index = 0, source = PackageExact\<rparr>]"
    unfolding layer_rules_scan
    by (simp_all add: thread_hits_def pkg_level_def rule_thread_def layer_rules_def rule_for_def
        cstring_new_def fnmatch_c_def c_string_def MAX_THREAD_LEN_def nul_char)
  have pol: "cr_policy (layer_rules ! 0) = policy_none\<lparr>nice := Some 5\<rparr>"
    "cr_policy (layer_rules ! 1) = policy_none\<lparr>sched := Some Fifo\<rparr>"
    by (simp_all add: layer_rules_def rule_for_def)
  obtain a where a: "merge_rules (thread_hits (=) layer_rules ?ms ''Render'') layer_rules = Some a"
    "sched a = Some Fifo" "nice a = None"
    unfolding hits merge_single pol
    by (simp add: merge_spec_def policy_none_def first_sched_def first_nice_def)
  obtain b where b: "merge_rules (pkg_level layer_rules ?ms) layer_rules = Some b" "nice b = Some 5"
    unfolding pkg merge_single pol
    by (simp add: merge_spec_def policy_none_def first_sched_def first_nice_def)
  obtain p where p: "fst (run_state (resolve (=) ''com.a'' ''Render'') ?rs) = Some p"
    using a b hits by (simp add: resolve_value [OF build_cache_ok] resolve_pure_def layered_def Let_def
        finish_policy_def fill_missing_fields layer_rules_scan)
  from thread_rules_layer [OF build_cache_ok refl _ _ p] a b p show ?thesis by simp
qed

definition blank :: "Policy \<Rightarrow> bool" where
  "blank p \<longleftrightarrow> cpuset_count (cpus p) = 0 \<and> sched p = None \<and> nice p = None"

lemma blank_merge:
  assumes "merge_rules ms rules = Some q" and "\<forall>m \<in> set ms. blank (cr_policy (rules ! index m))"
  shows "blank q"
proof -
  let ?sps = "map (match_policy rules) (by_priority ms)"
  have b: "\<forall>sp \<in> set ?sps. blank (snd sp)" using assms(2) by (auto simp: by_priority_def match_policy_def)
  then have "top_source ?sps = None" "first_sched ?sps = None" "first_nice ?sps = None"
    by (simp_all add: top_source_def first_sched_def first_nice_def find_map_None blank_def has_cpus_sp_def
        split: if_splits)
  with assms(1) show ?thesis
    by (auto simp: merge_rules_eq_spec merge_spec_def top_cpus_def blank_def split: if_splits)
qed

lemma blank_layered:
  assumes "layered fnm rules ms t = Some q" and "\<forall>m \<in> set ms. blank (cr_policy (rules ! index m))"
  shows "blank q"
proof -
  have "merge_rules (thread_hits fnm rules ms t) rules = Some a \<Longrightarrow> blank a" for a
    by (erule blank_merge) (use assms(2) in \<open>auto simp: thread_hits_def\<close>)
  moreover have "merge_rules (pkg_level rules ms) rules = Some b \<Longrightarrow> blank b" for b
    by (erule blank_merge) (use assms(2) in \<open>auto simp: pkg_level_def\<close>)
  ultimately show ?thesis using assms(1)
    by (auto simp: layered_def Let_def blank_def fill_missing_fields split: if_splits option.splits)
qed

text \<open>
  C8. A rule that sets only utilisation clamps has no effect: whatever rules are compiled, if
  none of them sets CPUs, a policy or a nice value, no query has an answer, although the
  package may be of interest.
\<close>

theorem clamp_only_rules_are_dropped:
  assumes "\<forall>r \<in> set rules. blank (cr_policy r)"
  shows "fst (run_state (resolve fnm pkg t) (build_ruleset rules)) = None"
proof -
  have "blank q" if "layered fnm rules (scan_matches fnm (build_ruleset rules) pkg) t = Some q" for q
    using that by (rule blank_layered) (use assms build_idx [of rules] scan_idx in force)
  then show ?thesis
    by (auto simp: resolve_value [OF build_cache_ok] resolve_pure_def Let_def finish_policy_def blank_def
        split: option.splits)
qed

definition clamp_rule :: CompiledRule where
  "clamp_rule = rule_for ''com.a'' [] (policy_none\<lparr>uclamp_min := Some 512\<rparr>)"

theorem clamp_only_rules_are_dropped_witness:
  "fst (run_state (resolve (=) ''com.a'' []) (build_ruleset [clamp_rule])) = None \<and>
   fst (run_state (is_interested (=) ''com.a'') (build_ruleset [clamp_rule]))"
proof -
  have "\<not> contains_wildcard ''com.a''" by code_simp
  then have "interested_pure (=) (build_ruleset [clamp_rule]) ''com.a''"
    using scan_single [of clamp_rule "(=)"] by (simp add: interested_pure_def clamp_rule_def rule_for_def)
  then show ?thesis
    using clamp_only_rules_are_dropped [of "[clamp_rule]" "(=)" "''com.a''" "[]"]
    by (simp add: interested_value [OF build_cache_ok] clamp_rule_def rule_for_def policy_none_def blank_def)
qed

section \<open>Applications and the KDL front end\<close>

text \<open>
  Overriding a policy with a user's is field by field, keeps at most one of a CPU list and a
  cluster (the user's latest), and is idempotent: merging the same user entry twice is
  merging it once.
\<close>

theorem override_laws:
  assumes "exclusive base"
  shows "exclusive (override_policy base user) \<and>
    override_policy (override_policy base user) user = override_policy base user \<and>
    pm_sched (override_policy base user) = or_else (pm_sched user) (pm_sched base) \<and>
    pm_nice (override_policy base user) = or_else (pm_nice user) (pm_nice base) \<and>
    (exclusive user \<longrightarrow> has_cpus user \<longrightarrow>
       pm_cpus (override_policy base user) = pm_cpus user \<and>
       pm_cluster (override_policy base user) = pm_cluster user)"
  using assms
  by (auto simp: override_exclusive override_idem override_fields exclusive_def has_cpus_def or_else_def
      split: option.splits)

theorem override_laws_witness:
  "exclusive (override_policy (on_cluster ''big'') (policy_default\<lparr>pm_cpus := Some ''0-3''\<rparr>)) \<and>
   pm_cluster (override_policy (on_cluster ''big'') (policy_default\<lparr>pm_cpus := Some ''0-3''\<rparr>)) = None"
  using override_laws [of "on_cluster ''big''" "policy_default\<lparr>pm_cpus := Some ''0-3''\<rparr>"]
  by (simp add: exclusive_def on_cluster_def policy_default_def has_cpus_def)

text \<open>
  No application is lost: every rule of the expansion names an application of the
  configuration, and every application whose thread types are known gets at least one rule,
  a placeholder if nothing else, so that its package stays of interest.
\<close>

theorem expansion_covers_apps:
  assumes "apps_ok (apps m)" and "(pkg, app) \<in> set (apps m)"
    and "\<forall>tp \<in> set (snd (snd (app_policies app))). thread_type_patterns (fst tp) \<noteq> None"
  shows "pkg \<in> rc_pkg ` set (to_rules_with_clusters m cls) \<and>
    rc_pkg ` set (to_rules_with_clusters m cls) \<subseteq> fst ` set (apps m)"
proof
  have key: "am_pkg a = k" if "(k, a) \<in> set (apps m)" for k a
    using assms(1) that by (auto simp: apps_ok_def app_ok_def)
  obtain r where r: "r \<in> set (app_rules cls app)"
    using app_rules_not_Nil [OF assms(3), of cls] by (cases "app_rules cls app") auto
  have "rc_pkg r = pkg" using app_rules_pkg [OF r] key [OF assms(2)] by simp
  moreover have "r \<in> set (to_rules_with_clusters m cls)"
    using r assms(2) by (auto simp: to_rules_with_clusters_def)
  ultimately show "pkg \<in> rc_pkg ` set (to_rules_with_clusters m cls)" by blast
  show "rc_pkg ` set (to_rules_with_clusters m cls) \<subseteq> fst ` set (apps m)"
    using key by (force simp: to_rules_with_clusters_def dest: app_rules_pkg)
qed

theorem expansion_covers_apps_witness:
  "''a.b'' \<in> rc_pkg ` set (to_rules_with_clusters \<lparr>apps = [(''a.b'', app_new ''a.b'')]\<rparr> [])"
proof -
  let ?m = "\<lparr>apps = [(''a.b'', app_new ''a.b'')]\<rparr>"
  have "apps_ok (apps ?m)" by (simp add: apps_ok_def app_ok_def app_new_def)
  moreover have "(''a.b'', app_new ''a.b'') \<in> set (apps ?m)" by simp
  moreover have "\<forall>tp \<in> set (snd (snd (app_policies (app_new ''a.b'')))). thread_type_patterns (fst tp) \<noteq> None"
    by (simp add: app_new_def app_policies_def app_template_def)
  ultimately show ?thesis using expansion_covers_apps [of ?m "''a.b''" "app_new ''a.b''" "[]"] by blast
qed

text \<open>Which nodes the parser accepts.\<close>

definition engine_child_valid :: "kdl_node \<Rightarrow> bool" where
  "engine_child_valid c \<longleftrightarrow>
     (kn_name c = ''mode'' \<longrightarrow> (\<forall>v. first_string c = Some v \<longrightarrow> mode_of v \<noteq> None)) \<and>
     (kn_name c = ''migrate-action'' \<longrightarrow> (\<forall>v. first_string c = Some v \<longrightarrow> migrate_of v \<noteq> None))"

definition node_valid :: "kdl_node \<Rightarrow> bool" where
  "node_valid n \<longleftrightarrow>
     (kn_name n = ''app'' \<longrightarrow> first_string n \<noteq> None) \<and>
     (kn_name n = ''engine'' \<longrightarrow> (\<forall>c \<in> set (children_of n). engine_child_valid c))"

lemma try_fold_valid:
  assumes "\<And>x b. x \<in> set xs \<Longrightarrow> isl (f x b) \<longleftrightarrow> \<not> valid x"
  shows "isl (try_fold f xs b) \<longleftrightarrow> (\<exists>x \<in> set xs. \<not> valid x)"
  using assms
proof (induction xs arbitrary: b)
  case (Cons x xs)
  then show ?case using Cons.prems [of x b] by (cases "f x b") auto
qed simp

lemma engine_child_isl: "isl (engine_child c e) \<longleftrightarrow> \<not> engine_child_valid c"
  by (auto simp: engine_child_def engine_child_valid_def Let_def split: option.splits)

lemma parse_node_isl: "isl (parse_node n acc) \<longleftrightarrow> \<not> node_valid n"
proof -
  obtain as d e where acc: "acc = (as, d, e)" by (cases acc) auto
  have eng: "isl (parse_engine n e) \<longleftrightarrow> (\<exists>c \<in> set (children_of n). \<not> engine_child_valid c)"
    unfolding parse_engine_def by (rule try_fold_valid) (rule engine_child_isl)
  show ?thesis using eng
    by (auto simp: acc parse_node_def node_valid_def parse_app_def split: option.splits sum.splits)
qed

text \<open>
  C38. The KDL front end rejects a text exactly when the grammar does, an \<open>app\<close> node has no
  name, or an \<open>engine\<close> node has an unknown mode or migrate action; every other text is
  accepted.
\<close>

theorem parse_kdl_accepts:
  "(\<exists>r. parse_kdl kdl_doc input = Inr r) \<longleftrightarrow>
     (\<exists>nodes. kdl_doc input = Inr nodes \<and> list_all node_valid nodes)"
proof (cases "kdl_doc input")
  case (Inr nodes)
  have "isl (parse_doc nodes) \<longleftrightarrow> (\<exists>n \<in> set nodes. \<not> node_valid n)"
    unfolding parse_doc_def by (rule try_fold_valid) (rule parse_node_isl)
  with Inr show ?thesis
    by (cases "parse_doc nodes") (auto simp: parse_kdl_def list_all_iff split: prod.splits)
qed (simp add: parse_kdl_def)

text \<open>An accepted configuration has one entry per package, and each entry distinct thread names and types.\<close>

theorem parse_kdl_wellformed:
  assumes "parse_kdl kdl_doc input = Inr (m, d, e)"
  shows "apps_ok (apps m)"
  using assms by (rule parse_kdl_ok)

definition demo_nodes :: "kdl_node list" where
  "demo_nodes = [KNode ''app'' [(None, KString ''a'')] (Some [KNode ''profile'' [(None, KString ''game'')] None]),
     KNode ''app'' [(None, KString ''b'')] None, KNode ''app'' [(None, KString ''a'')] None]"

theorem parse_kdl_wellformed_witness:
  "\<exists>m d e. parse_kdl (\<lambda>_. Inr demo_nodes) [] = Inr (m, d, e) \<and> apps_ok (apps m) \<and> length (apps m) = 2"
proof -
  obtain m d e where p: "parse_kdl (\<lambda>_. Inr demo_nodes) [] = Inr (m, d, e)" "length (apps m) = 2"
    by (simp add: parse_kdl_def parse_doc_def demo_nodes_def parse_node_def parse_app_def first_string_def
        first_value_def and_then_def)
  with parse_kdl_wellformed [OF p(1)] show ?thesis by blast
qed

end
