(* ===== verification/Audit_Log.thy ===== *)
theory Audit_Log
  imports Floats Os
begin

text \<open>
  The audit log (crates/core/src/audit.rs): a ring of at most 1024 records of rule
  applications, and the summaries that feed the failure rate back into the decision engine.
  The log is a global of the program; here it is a list that the operations take and return.
\<close>

record AuditEntry =
  timestamp :: nat
  ae_tid :: pid
  ae_pkg :: string
  requested_cpus :: string
  effective_cpus :: string
  ae_success :: bool
  reason :: string

type_synonym audit_log = "AuditEntry list"

record AuditSummary =
  total_attempts :: nat
  as_success :: nat
  blocked_by_cgroup :: nat
  blocked_by_perm :: nat
  as_downgraded :: nat
  esrch :: nat
  uclamp_failed :: nat

definition AUDIT_LOG_MAX :: nat where "AUDIT_LOG_MAX = 1024"

text \<open>The clock before the epoch reads as 0.\<close>

definition now_secs :: "'k os \<Rightarrow> ('k, nat) state" where
  "now_secs os = do {
     t \<leftarrow> sys (os_unix_secs os);
     ret (case t of None \<Rightarrow> 0 | Some s \<Rightarrow> s)
   }"

definition ring_push :: "AuditEntry \<Rightarrow> audit_log \<Rightarrow> audit_log" where
  "ring_push e lg = (if AUDIT_LOG_MAX \<le> length lg then tl lg else lg) @ [e]"

text \<open>\<open>record\<close>: an entry with timestamp 0 is stamped with the current time.\<close>

definition stamp :: "nat \<Rightarrow> AuditEntry \<Rightarrow> AuditEntry" where
  "stamp now e = (if timestamp e = 0 then e\<lparr>timestamp := now\<rparr> else e)"

definition record_entry :: "'k os \<Rightarrow> AuditEntry \<Rightarrow> audit_log \<Rightarrow> ('k, audit_log) state" where
  "record_entry os e lg = do {
     e' \<leftarrow> (if timestamp e = 0 then do { now \<leftarrow> now_secs os; ret (stamp now e) } else ret e);
     ret (ring_push e' lg)
   }"

definition recent :: "nat \<Rightarrow> audit_log \<Rightarrow> AuditEntry list" where
  "recent n lg = drop (length lg - n) lg"

definition summary_empty :: AuditSummary where
  "summary_empty = \<lparr>total_attempts = 0, as_success = 0, blocked_by_cgroup = 0,
     blocked_by_perm = 0, as_downgraded = 0, esrch = 0, uclamp_failed = 0\<rparr>"

definition count_reason :: "string \<Rightarrow> AuditSummary \<Rightarrow> AuditSummary" where
  "count_reason r s =
     (if r = ''cgroup'' \<or> r = ''cpuset_write_failed''
      then s\<lparr>blocked_by_cgroup := blocked_by_cgroup s + 1\<rparr>
      else if r = ''eperm'' then s\<lparr>blocked_by_perm := blocked_by_perm s + 1\<rparr>
      else if r = ''downgraded'' \<or> r = ''nice_failed'' \<or> r = ''sched_failed''
      then s\<lparr>as_downgraded := as_downgraded s + 1\<rparr>
      else if r = ''esrch'' then s\<lparr>esrch := esrch s + 1\<rparr>
      else if r = ''uclamp_failed'' then s\<lparr>uclamp_failed := uclamp_failed s + 1\<rparr>
      else s)"

definition count_entry :: "AuditEntry \<Rightarrow> AuditSummary \<Rightarrow> AuditSummary" where
  "count_entry e s =
     count_reason (reason e) (if ae_success e then s\<lparr>as_success := as_success s + 1\<rparr> else s)"

definition summarize :: "AuditEntry list \<Rightarrow> AuditSummary" where
  "summarize es = fold count_entry es (summary_empty\<lparr>total_attempts := length es\<rparr>)"

definition summary :: "audit_log \<Rightarrow> AuditSummary" where
  "summary lg = summarize lg"

definition in_window :: "nat \<Rightarrow> nat \<Rightarrow> AuditEntry \<Rightarrow> bool" where
  "in_window now window e = (now - window \<le> timestamp e)"

definition summary_windowed :: "'k os \<Rightarrow> nat \<Rightarrow> audit_log \<Rightarrow> ('k, AuditSummary) state" where
  "summary_windowed os window_secs lg =
     (if window_secs = 0 then ret (summary lg)
      else do {
        now \<leftarrow> now_secs os;
        ret (summarize (filter (in_window now window_secs) lg))
      })"

text \<open>The subtraction is one on \<open>usize\<close>; \<open>summarize_success_le\<close> shows that it never wraps.\<close>

definition failure_rate :: "AuditSummary \<Rightarrow> f64" where
  "failure_rate s =
     (if total_attempts s = 0 then Fin 0
      else f_div (f_of_nat (total_attempts s - as_success s)) (f_of_nat (total_attempts s)))"

definition summary_string :: "AuditSummary \<Rightarrow> string" where
  "summary_string s =
     ''audit(last60s): total='' @ show_nat (total_attempts s) @ '' success='' @ show_nat (as_success s)
     @ '' cgroup_blocked='' @ show_nat (blocked_by_cgroup s)
     @ '' perm_blocked='' @ show_nat (blocked_by_perm s)
     @ '' downgraded='' @ show_nat (as_downgraded s) @ '' esrch='' @ show_nat (esrch s)
     @ '' uclamp_failed='' @ show_nat (uclamp_failed s)"

section \<open>Lemmas\<close>

lemma ring_push_bound: "length lg \<le> AUDIT_LOG_MAX \<Longrightarrow> length (ring_push e lg) \<le> AUDIT_LOG_MAX"
  by (auto simp: ring_push_def AUDIT_LOG_MAX_def)

lemma ring_push_last: "last (ring_push e lg) = e"
  by (simp add: ring_push_def)

text \<open>After any sequence of pushes the ring holds the newest entries.\<close>

lemma ring_push_suffix:
  "length lg \<le> AUDIT_LOG_MAX \<Longrightarrow> \<exists>k. ring_push e lg = drop k (lg @ [e]) \<and> k \<le> 1 \<and>
     (k = 1 \<longrightarrow> AUDIT_LOG_MAX \<le> length lg)"
  by (cases lg) (auto simp: ring_push_def AUDIT_LOG_MAX_def intro: exI [of _ 0] exI [of _ 1])

lemma fold_ring_push:
  assumes "length lg \<le> AUDIT_LOG_MAX"
  shows "fold ring_push es lg = drop (length lg + length es - AUDIT_LOG_MAX) (lg @ es)"
  using assms
proof (induction es arbitrary: lg)
  case Nil
  then show ?case by simp
next
  case (Cons e es)
  have len: "length (ring_push e lg) \<le> AUDIT_LOG_MAX" using Cons.prems by (rule ring_push_bound)
  show ?case
  proof (cases "length lg < AUDIT_LOG_MAX")
    case True
    then show ?thesis using Cons.IH [OF len] by (simp add: ring_push_def)
  next
    case False
    with Cons.prems have full: "length lg = AUDIT_LOG_MAX" by simp
    then obtain l ls where ls: "lg = l # ls" by (cases lg) (auto simp: AUDIT_LOG_MAX_def)
    have "ring_push e lg = ls @ [e]" using full ls by (simp add: ring_push_def)
    then have "fold ring_push (e # es) lg = drop (length (ls @ [e]) + length es - AUDIT_LOG_MAX) ((ls @ [e]) @ es)"
      using Cons.IH [OF len] by simp
    also have "\<dots> = drop (length lg + length (e # es) - AUDIT_LOG_MAX) (lg @ e # es)"
      using full ls by (simp flip: full)
    finally show ?thesis .
  qed
qed

lemma count_reason_simps [simp]:
  "as_success (count_reason r s) = as_success s" "total_attempts (count_reason r s) = total_attempts s"
  by (simp_all add: count_reason_def)

lemma summarize_counts:
  "total_attempts (fold count_entry es s) = total_attempts s \<and>
   as_success (fold count_entry es s) = as_success s + length (filter ae_success es)"
  by (induction es arbitrary: s) (simp_all add: count_entry_def)

lemma summarize_success:
  "as_success (summarize es) = length (filter ae_success es)"
  "total_attempts (summarize es) = length es"
  by (simp_all add: summarize_def summarize_counts summary_empty_def)

lemma summarize_success_le: "as_success (summarize es) \<le> total_attempts (summarize es)"
  by (simp add: summarize_success)

lemma failure_rate_between: "f_between 0 1 (failure_rate (summarize es))"
  using f_div_nat_between [of "length es - length (filter ae_success es)" "length es"]
  by (cases "es = []") (simp_all add: failure_rate_def summarize_success)

lemma failure_rate_value:
  "es \<noteq> [] \<Longrightarrow> failure_rate (summarize es) =
     Fin (of_nat (length (filter (\<lambda>e. \<not> ae_success e) es)) / of_nat (length es))"
  using sum_length_filter_compl [of ae_success es]
  by (auto simp: failure_rate_def summarize_success f_of_nat_def)

text \<open>Each failure class is counted once.\<close>

definition classified :: "AuditSummary \<Rightarrow> nat" where
  "classified s = blocked_by_cgroup s + blocked_by_perm s + as_downgraded s + esrch s + uclamp_failed s"

lemma classified_count: "classified (fold count_entry es s) \<le> classified s + length es"
proof (induction es arbitrary: s)
  case Nil
  then show ?case by simp
next
  case (Cons e es)
  have "classified (count_entry e s) \<le> classified s + 1"
    by (simp add: count_entry_def count_reason_def classified_def)
  with Cons.IH [of "count_entry e s"] show ?case by simp
qed

end
