(* ===== verification/World.thy ===== *)
theory World
  imports Ruleset_Facts Audit_Log
begin

text \<open>
  The state of the daemon process: the kernel, the globals of the crates (audit log, the
  warn-once sets and counters of policy.rs, the directory cache of backend.rs, the relock
  statistics of engine.rs), the process tracker (tracker.rs) and the rule set in force. Code
  that changes any of it is a computation over this record.
\<close>

section \<open>Tracker data (crates/core/src/tracker.rs)\<close>

record ThreadNameCache =
  names :: "pid \<rightharpoonup> string"
  last_full_refresh :: int

record ProcessState =
  ps_pid :: pid
  ps_pkg :: string
  start_time :: nat
  initial_scan_done :: bool
  last_scan_time :: int
  applied_tids :: "pid set"
  applied_dirs :: "string list"
  tid_names :: ThreadNameCache

text \<open>The hash map of processes is an association list: its order is the iteration order.\<close>

record StateTracker =
  procs :: "(pid \<times> ProcessState) list"
  cpuset_refs :: "string \<rightharpoonup> nat"

definition tracker_new :: StateTracker where
  "tracker_new = \<lparr>procs = [], cpuset_refs = Map.empty\<rparr>"

record RelockStats =
  rst_allow :: nat
  rst_skip :: nat
  rst_degrade :: nat

section \<open>The world\<close>

record 'k world =
  kern :: 'k
  audit_ring :: audit_log
  warned_einval :: "pid set"
  warned_blocked :: "pid set"
  warned_eperm :: "pid set"
  warned_cpuset :: "pid set"
  short_circuit_total :: u64
  uclamp_support :: "bool option"
  ensured_dirs :: "string set"
  relock_stats :: RelockStats
  tracker :: StateTracker
  cfg_rules :: RuleSet

text \<open>A computation over one component of the state.\<close>

definition zoom :: "('s \<Rightarrow> 'a) \<Rightarrow> ('a \<Rightarrow> 's \<Rightarrow> 's) \<Rightarrow> ('a, 'b) state \<Rightarrow> ('s, 'b) state" where
  "zoom g p m = State (\<lambda>s. case run_state m (g s) of (b, a) \<Rightarrow> (b, p a s))"

definition on_kern :: "('k, 'a) state \<Rightarrow> ('k world, 'a) state" where
  "on_kern m = zoom kern (\<lambda>k w. w\<lparr>kern := k\<rparr>) m"

definition on_rules :: "(RuleSet, 'a) state \<Rightarrow> ('k world, 'a) state" where
  "on_rules m = zoom cfg_rules (\<lambda>r w. w\<lparr>cfg_rules := r\<rparr>) m"

lemma run_zoom [simp]:
  "run_state (zoom g p m) s = (case run_state m (g s) of (b, a) \<Rightarrow> (b, p a s))"
  by (simp add: zoom_def)

lemma keeps_zoom: "(\<And>a s. P s \<Longrightarrow> P (p a s)) \<Longrightarrow> keeps P (zoom g p m)"
  by (auto simp: keeps_def split: prod.splits)

text \<open>\<open>audit::record\<close> on the global log.\<close>

definition audit_record :: "'k os \<Rightarrow> AuditEntry \<Rightarrow> ('k world, unit) state" where
  "audit_record os e = do {
     lg \<leftarrow> gets audit_ring;
     lg' \<leftarrow> on_kern (record_entry os e lg);
     modify (\<lambda>w. w\<lparr>audit_ring := lg'\<rparr>)
   }"

text \<open>What \<open>audit::record\<close> does, as one change of the world.\<close>

lemma run_audit_record:
  "\<exists>k e'. run_state (audit_record os e) w =
     ((), w\<lparr>kern := k, audit_ring := ring_push e' (audit_ring w)\<rparr>)"
proof (cases "timestamp e = 0")
  case True
  then show ?thesis by (auto simp: audit_record_def on_kern_def record_entry_def split: prod.splits)
next
  case False
  then show ?thesis
    by (intro exI [of _ "kern w"] exI [of _ e], cases w)
      (simp add: audit_record_def on_kern_def record_entry_def)
qed

definition entry :: "pid \<Rightarrow> string \<Rightarrow> string \<Rightarrow> string \<Rightarrow> bool \<Rightarrow> string \<Rightarrow> AuditEntry" where
  "entry tid pkg requested effective ok why =
     \<lparr>timestamp = 0, ae_tid = tid, ae_pkg = pkg, requested_cpus = requested,
      effective_cpus = effective, ae_success = ok, reason = why\<rparr>"

section \<open>Invariants of the globals\<close>

text \<open>
  An invariant of the world that the kernel, the log and the other globals of the policy code
  cannot break. The lemmas of the locale carry it through every piece of code that touches
  nothing else.
\<close>

locale world_inv =
  fixes I :: "'k world \<Rightarrow> bool"
  assumes inv_kern: "I w \<Longrightarrow> I (w\<lparr>kern := k\<rparr>)"
    and inv_push: "I w \<Longrightarrow> I (w\<lparr>audit_ring := ring_push e (audit_ring w)\<rparr>)"
    and inv_einval: "I w \<Longrightarrow> I (w\<lparr>warned_einval := A\<rparr>)"
    and inv_blocked: "I w \<Longrightarrow> I (w\<lparr>warned_blocked := A\<rparr>)"
    and inv_eperm: "I w \<Longrightarrow> I (w\<lparr>warned_eperm := A\<rparr>)"
    and inv_cpuset: "I w \<Longrightarrow> I (w\<lparr>warned_cpuset := A\<rparr>)"
    and inv_short: "I w \<Longrightarrow> I (w\<lparr>short_circuit_total := n\<rparr>)"
    and inv_uclamp: "I w \<Longrightarrow> I (w\<lparr>uclamp_support := u\<rparr>)"
    and inv_ensured: "I w \<Longrightarrow> I (w\<lparr>ensured_dirs := D\<rparr>)"
    and inv_stats: "I w \<Longrightarrow> I (w\<lparr>relock_stats := s\<rparr>)"
begin

lemma keeps_kern: "keeps I (on_kern m)"
  unfolding on_kern_def by (rule keeps_zoom) (rule inv_kern)

lemma keeps_record: "keeps I (audit_record os e)"
proof -
  have "I (w\<lparr>kern := k, audit_ring := ring_push e' (audit_ring w)\<rparr>)" if "I w" for w k e'
    using inv_push [OF inv_kern [OF that], of e'] by simp
  then show ?thesis
    unfolding keeps_def by (metis run_audit_record snd_conv)
qed

end

end
