(* ===== verification/Backend.thy ===== *)
theory Backend
  imports World
begin

text \<open>
  The Linux backend (crates/core/src/backend.rs): affinity, cpuset directories with their
  ensure-once cache, scheduling class, nice value and uclamp. Errors are the kernel's error
  numbers (\<open>None\<close> is success), and the attribute block of \<open>sched_setattr\<close> is a record.
\<close>

section \<open>Affinity\<close>

definition backend_get_affinity :: "'k os \<Rightarrow> pid \<Rightarrow> ('k world, CpuSet option) state" where
  "backend_get_affinity os tid = on_kern (get_affinity os tid)"

definition backend_set_affinity :: "'k os \<Rightarrow> pid \<Rightarrow> CpuSet \<Rightarrow> ('k world, errno option) state" where
  "backend_set_affinity os tid c = on_kern (set_affinity os c tid)"

definition backend_read_allowed :: "'k os \<Rightarrow> pid \<Rightarrow> ('k world, CpuSet option) state" where
  "backend_read_allowed os tid = on_kern (read_allowed_mask os tid)"

section \<open>Cpuset directories\<close>

definition forget_cpuset_dir :: "string \<Rightarrow> ('k world, unit) state" where
  "forget_cpuset_dir dir = modify (\<lambda>w. w\<lparr>ensured_dirs := ensured_dirs w - {dir}\<rparr>)"

definition dir_path :: "string \<Rightarrow> string" where
  "dir_path dir = BASE_CPUSET @ ''/'' @ dir"

definition ensure_dir :: "'k os \<Rightarrow> string \<Rightarrow> ('k world, unit) state" where
  "ensure_dir os name = do {
     dirs \<leftarrow> gets ensured_dirs;
     _ \<leftarrow> modify (\<lambda>w. w\<lparr>ensured_dirs := insert name dirs\<rparr>);
     if name \<in> dirs then ret ()
     else do { _ \<leftarrow> on_kern (create_cpuset_dir os (dir_path name) name ''0''); ret () }
   }"

definition tasks_path :: "string \<Rightarrow> string" where
  "tasks_path dir = (if dir = [] then BASE_CPUSET @ ''/tasks'' else dir_path dir @ ''/tasks'')"

text \<open>True when the thread id was written to the tasks file.\<close>

definition attach_task :: "'k os \<Rightarrow> pid \<Rightarrow> string \<Rightarrow> ('k world, bool) state" where
  "attach_task os tid dir =
     on_kern (sys (os_append_file os (tasks_path dir) (show_int tid @ [char_of (10::nat)])))"

definition remove_dir :: "'k os \<Rightarrow> string \<Rightarrow> ('k world, bool) state" where
  "remove_dir os path = on_kern (remove_cpuset_dir os path)"

section \<open>Scheduler\<close>

definition sched_param :: "SchedPolicy \<Rightarrow> int option \<Rightarrow> int" where
  "sched_param policy prio =
     (if is_rt policy then clamp_int 1 99 (case prio of None \<Rightarrow> 1 | Some p \<Rightarrow> p) else 0)"

definition set_scheduler :: "'k os \<Rightarrow> pid \<Rightarrow> SchedPolicy \<Rightarrow> int option \<Rightarrow> ('k world, errno option) state" where
  "set_scheduler os tid policy prio =
     on_kern (sys (os_setscheduler os tid (to_libc policy) (sched_param policy prio)))"

definition set_nice :: "'k os \<Rightarrow> pid \<Rightarrow> int \<Rightarrow> ('k world, errno option) state" where
  "set_nice os tid n = on_kern (sys (os_setpriority os tid (clamp_int (-20) 19 n)))"

record SchedAttr =
  attr_size :: u32
  attr_policy :: u32
  attr_flags :: u64
  attr_nice :: "32 word"
  attr_priority :: u32
  attr_runtime :: u64
  attr_deadline :: u64
  attr_period :: u64
  attr_util_min :: u32
  attr_util_max :: u32

definition SCHED_FLAG_UTIL_CLAMP_MIN :: u64 where "SCHED_FLAG_UTIL_CLAMP_MIN = 0x20"
definition SCHED_FLAG_UTIL_CLAMP_MAX :: u64 where "SCHED_FLAG_UTIL_CLAMP_MAX = 0x40"

definition uclamp_attr :: "nat option \<Rightarrow> nat option \<Rightarrow> SchedAttr" where
  "uclamp_attr mn mx =
     \<lparr>attr_size = 56, attr_policy = 0,
      attr_flags = (if mn \<noteq> None then SCHED_FLAG_UTIL_CLAMP_MIN else 0)
                OR (if mx \<noteq> None then SCHED_FLAG_UTIL_CLAMP_MAX else 0),
      attr_nice = 0, attr_priority = 0, attr_runtime = 0, attr_deadline = 0, attr_period = 0,
      attr_util_min = of_nat (min 1024 (case mn of None \<Rightarrow> 0 | Some v \<Rightarrow> v)),
      attr_util_max = of_nat (min 1024 (case mx of None \<Rightarrow> 1024 | Some v \<Rightarrow> v))\<rparr>"

text \<open>The fields in the order of the C structure.\<close>

definition attr_fields :: "SchedAttr \<Rightarrow> int list" where
  "attr_fields a = [uint (attr_size a), uint (attr_policy a), uint (attr_flags a), sint (attr_nice a),
     uint (attr_priority a), uint (attr_runtime a), uint (attr_deadline a), uint (attr_period a),
     uint (attr_util_min a), uint (attr_util_max a)]"

definition set_uclamp :: "'k os \<Rightarrow> pid \<Rightarrow> nat option \<Rightarrow> nat option \<Rightarrow> ('k world, errno option) state" where
  "set_uclamp os tid mn mx =
     (if mn = None \<and> mx = None then ret None
      else on_kern (sys (os_setattr os tid (attr_fields (uclamp_attr mn mx)))))"

section \<open>Lemmas\<close>

lemma sched_param_range: "sched_param p prio = 0 \<or> 1 \<le> sched_param p prio \<and> sched_param p prio \<le> 99"
  by (auto simp: sched_param_def clamp_int_def)

lemma run_ensure_cached:
  "name \<in> ensured_dirs w \<Longrightarrow> run_state (ensure_dir os name) w = ((), w)"
  by (simp add: ensure_dir_def insert_absorb)

lemma ensure_dir_inserts: "name \<in> ensured_dirs (snd (run_state (ensure_dir os name) w))"
  by (simp add: ensure_dir_def on_kern_def split: prod.splits)

context world_inv
begin

lemma keeps_ensured: "keeps I (modify (\<lambda>w. w\<lparr>ensured_dirs := f w\<rparr>))"
  by (rule keeps_modify) (rule inv_ensured)

lemma keeps_forget: "keeps I (forget_cpuset_dir d)"
  unfolding forget_cpuset_dir_def by (rule keeps_ensured)

lemma keeps_ensure_dir: "keeps I (ensure_dir os d)"
  unfolding ensure_dir_def by (intro keeps_intros keeps_ensured keeps_kern)

lemma keeps_backend:
  "keeps I (backend_get_affinity os t)" "keeps I (backend_set_affinity os t c)"
  "keeps I (backend_read_allowed os t)" "keeps I (attach_task os t d)" "keeps I (remove_dir os d)"
  "keeps I (set_scheduler os t p pr)" "keeps I (set_nice os t n)" "keeps I (set_uclamp os t mn mx)"
  unfolding backend_get_affinity_def backend_set_affinity_def backend_read_allowed_def attach_task_def
    remove_dir_def set_scheduler_def set_nice_def set_uclamp_def
  by (intro keeps_intros keeps_kern)+

end

end
