(* ===== verification/Policy_Apply.thy ===== *)
theory Policy_Apply
  imports Backend
begin

text \<open>
  Applying a policy to a thread (crates/core/src/policy.rs): the cpuset, affinity, scheduling
  and uclamp steps in the order of the code, with the warn-once sets, the short-circuit counter
  and the audit record of every branch. Messages printed to the log are left out; the sets that
  decide whether they are printed are kept, because they are state.
\<close>

section \<open>Warning once\<close>

definition WARN_LIMIT :: nat where "WARN_LIMIT = 32768"

text \<open>The set is emptied when it exceeds the limit; true when the id was not in it.\<close>

definition warn_insert :: "pid \<Rightarrow> pid set \<Rightarrow> bool \<times> pid set" where
  "warn_insert tid S0 =
     (let S = (if WARN_LIMIT < card S0 then {} else S0) in (tid \<notin> S, insert tid S))"

definition warn_once ::
  "('k world \<Rightarrow> pid set) \<Rightarrow> (pid set \<Rightarrow> 'k world \<Rightarrow> 'k world) \<Rightarrow> pid \<Rightarrow> ('k world, bool) state" where
  "warn_once g p tid = do {
     S \<leftarrow> gets g;
     _ \<leftarrow> modify (p (snd (warn_insert tid S)));
     ret (fst (warn_insert tid S))
   }"

definition warn_einval :: "pid \<Rightarrow> ('k world, bool) state" where
  "warn_einval tid = warn_once warned_einval (\<lambda>A w. w\<lparr>warned_einval := A\<rparr>) tid"

definition warn_blocked :: "pid \<Rightarrow> ('k world, bool) state" where
  "warn_blocked tid = warn_once warned_blocked (\<lambda>A w. w\<lparr>warned_blocked := A\<rparr>) tid"

definition warn_eperm :: "pid \<Rightarrow> ('k world, bool) state" where
  "warn_eperm tid = warn_once warned_eperm (\<lambda>A w. w\<lparr>warned_eperm := A\<rparr>) tid"

definition warn_cpuset :: "pid \<Rightarrow> ('k world, bool) state" where
  "warn_cpuset tid = warn_once warned_cpuset (\<lambda>A w. w\<lparr>warned_cpuset := A\<rparr>) tid"

section \<open>Affinity\<close>

definition join_cpuset :: "'k os \<Rightarrow> pid \<Rightarrow> string \<Rightarrow> string \<Rightarrow> string \<Rightarrow> CpuTopology \<Rightarrow> ('k world, unit) state" where
  "join_cpuset os tid pkg dir requested topo =
     (if cpuset_enabled topo \<and> base_cpuset_fd topo \<noteq> -1 then do {
        _ \<leftarrow> unless (dir = []) (ensure_dir os dir);
        ok \<leftarrow> attach_task os tid dir;
        unless ok (do {
          _ \<leftarrow> warn_cpuset tid;
          audit_record os (entry tid pkg requested [] False ''cpuset_write_failed'')
        })
      } else ret ())"

text \<open>The loop that clears every CPU that is not online.\<close>

definition online_filter :: "CpuTopology \<Rightarrow> CpuSet \<Rightarrow> CpuSet" where
  "online_filter topo c =
     (if 0 < cpuset_count (online_cpus topo)
      then fold (\<lambda>i e. if cpuset_is_set e i \<and> \<not> cpuset_is_set (online_cpus topo) i
                        then cpuset_clear i e else e) [0..<CPU_SETSIZE] c
      else c)"

definition downgraded_path ::
  "'k os \<Rightarrow> pid \<Rightarrow> string \<Rightarrow> string \<Rightarrow> string \<Rightarrow> CpuSet \<Rightarrow> ('k world, ApplyOutcome) state" where
  "downgraded_path os tid pkg before after effective = do {
     _ \<leftarrow> warn_blocked tid;
     r \<leftarrow> backend_set_affinity os tid effective;
     (case r of
        None \<Rightarrow> do {
          _ \<leftarrow> audit_record os (entry tid pkg before after True ''downgraded'');
          ret Downgraded
        }
      | Some err \<Rightarrow>
          if err = ESRCH then do {
            _ \<leftarrow> audit_record os (entry tid pkg before after False ''esrch'');
            ret Exited
          }
          else do {
            _ \<leftarrow> warn_eperm tid;
            _ \<leftarrow> audit_record os (entry tid pkg before after False ''downgraded_failed'');
            ret Failed
          })
   }"

definition final_set ::
  "'k os \<Rightarrow> pid \<Rightarrow> string \<Rightarrow> string \<Rightarrow> CpuSet \<Rightarrow> ('k world, ApplyOutcome) state" where
  "final_set os tid pkg requested effective =
     (if cpuset_count effective = 0 then ret SkippedNoCpus
      else do {
        let eff = to_range_string effective;
        r \<leftarrow> backend_set_affinity os tid effective;
        (case r of
           None \<Rightarrow> do {
             _ \<leftarrow> audit_record os (entry tid pkg requested eff True ''applied'');
             ret Applied
           }
         | Some err \<Rightarrow>
             if err = ESRCH then do {
               _ \<leftarrow> audit_record os (entry tid pkg requested eff False ''esrch'');
               ret Exited
             }
             else if err = EINVAL then do {
               _ \<leftarrow> warn_einval tid;
               _ \<leftarrow> audit_record os (entry tid pkg requested eff False ''einval'');
               ret OEinval
             }
             else if err = EPERM then do {
               _ \<leftarrow> warn_eperm tid;
               _ \<leftarrow> audit_record os (entry tid pkg requested eff False ''eperm'');
               ret BlockedByPerm
             }
             else do {
               _ \<leftarrow> audit_record os (entry tid pkg requested eff False ''other'');
               ret Failed
             })
      })"

definition restrict_and_set ::
  "'k os \<Rightarrow> pid \<Rightarrow> string \<Rightarrow> string \<Rightarrow> CpuSet \<Rightarrow> ('k world, ApplyOutcome) state" where
  "restrict_and_set os tid pkg requested effective0 = do {
     allowed \<leftarrow> backend_read_allowed os tid;
     (case allowed of
        None \<Rightarrow> final_set os tid pkg requested effective0
      | Some a \<Rightarrow>
          (let before = to_range_string effective0; effective = cpuset_and effective0 a in
           if cpuset_count effective = 0 then do {
             _ \<leftarrow> warn_blocked tid;
             _ \<leftarrow> audit_record os (entry tid pkg before [] False ''cgroup'');
             ret BlockedByCgroup
           }
           else (let after = to_range_string effective in
             if before \<noteq> after then downgraded_path os tid pkg before after effective
             else final_set os tid pkg requested effective)))
   }"

definition apply_affinity ::
  "'k os \<Rightarrow> pid \<Rightarrow> string \<Rightarrow> Policy \<Rightarrow> CpuTopology \<Rightarrow> ('k world, ApplyOutcome) state" where
  "apply_affinity os tid pkg policy topo =
     (let requested = to_range_string (cpus policy) in
      if cpuset_count (cpus policy) = 0 then ret SkippedNoCpus
      else do {
        _ \<leftarrow> join_cpuset os tid pkg (cpuset_dir policy) requested topo;
        curr \<leftarrow> backend_get_affinity os tid;
        if (case curr of None \<Rightarrow> False | Some c \<Rightarrow> bits c = bits (cpus policy)) then do {
          _ \<leftarrow> modify (\<lambda>w. w\<lparr>short_circuit_total := short_circuit_total w + 1\<rparr>);
          _ \<leftarrow> audit_record os (entry tid pkg requested requested True ''already'');
          ret Applied
        }
        else restrict_and_set os tid pkg requested (online_filter topo (cpus policy))
      })"

section \<open>Scheduling and uclamp\<close>

definition apply_sched ::
  "'k os \<Rightarrow> pid \<Rightarrow> string \<Rightarrow> SchedPolicy \<Rightarrow> int option \<Rightarrow> int option \<Rightarrow>
   ('k world, ApplyOutcome option) state" where
  "apply_sched os tid pkg policy rt_prio nc = do {
     r \<leftarrow> set_scheduler os tid policy rt_prio;
     _ \<leftarrow> (case nc of
        None \<Rightarrow> ret ()
      | Some n \<Rightarrow> do {
          e \<leftarrow> set_nice os tid (clamp_int (-20) 19 n);
          unless (e = None) (do {
            _ \<leftarrow> warn_eperm tid;
            audit_record os (entry tid pkg [] [] False ''nice_failed'')
          })
        });
     (case r of
        None \<Rightarrow> ret None
      | Some err \<Rightarrow>
          if err = ESRCH then ret (Some Exited)
          else do {
            _ \<leftarrow> warn_eperm tid;
            _ \<leftarrow> audit_record os (entry tid pkg [] [] False ''sched_failed'');
            ret (Some BlockedByPerm)
          })
   }"

text \<open>The capability is probed once.\<close>

definition uclamp_probe :: "string option \<Rightarrow> bool" where
  "uclamp_probe r =
     (case r of None \<Rightarrow> False
      | Some v \<Rightarrow> (case parse_u32 (trim v) of None \<Rightarrow> False | Some m \<Rightarrow> 0 < m))"

definition uclamp_supported :: "'k os \<Rightarrow> ('k world, bool) state" where
  "uclamp_supported os = do {
     u \<leftarrow> gets uclamp_support;
     (case u of
        Some b \<Rightarrow> ret b
      | None \<Rightarrow> do {
          r \<leftarrow> on_kern (sys (os_read_file os ''/proc/sys/kernel/sched_util_clamp_max''));
          _ \<leftarrow> modify (\<lambda>w. w\<lparr>uclamp_support := Some (uclamp_probe r)\<rparr>);
          ret (uclamp_probe r)
        })
   }"

definition apply_uclamp ::
  "'k os \<Rightarrow> pid \<Rightarrow> string \<Rightarrow> nat option \<Rightarrow> nat option \<Rightarrow> ApplyOutcome \<Rightarrow>
   ('k world, ApplyOutcome) state" where
  "apply_uclamp os tid pkg mn mx outcome =
     (if mn = None \<and> mx = None then ret outcome
      else do {
        supported \<leftarrow> uclamp_supported os;
        if \<not> supported then ret outcome
        else do {
          r \<leftarrow> set_uclamp os tid mn mx;
          (case r of
             None \<Rightarrow> ret outcome
           | Some err \<Rightarrow>
               if err = ESRCH then ret Exited
               else do {
                 _ \<leftarrow> warn_einval tid;
                 _ \<leftarrow> audit_record os (entry tid pkg [] [] False ''uclamp_failed'');
                 ret outcome
               })
        }
      })"

section \<open>A thread\<close>

definition apply_thread ::
  "'k os \<Rightarrow> pid \<Rightarrow> string \<Rightarrow> Policy \<Rightarrow> CpuTopology \<Rightarrow> bool \<Rightarrow> ('k world, ApplyOutcome) state" where
  "apply_thread os tid pkg policy topo rt_allowed = do {
     outcome \<leftarrow> apply_affinity os tid pkg policy topo;
     if outcome = Exited then ret outcome
     else (case sched policy of
        None \<Rightarrow> apply_uclamp os tid pkg (uclamp_min policy) (uclamp_max policy) outcome
      | Some pol \<Rightarrow>
          if is_rt pol \<and> \<not> rt_allowed then ret outcome
          else do {
            r \<leftarrow> apply_sched os tid pkg pol (sched_prio policy) (nice policy);
            apply_uclamp os tid pkg (uclamp_min policy) (uclamp_max policy)
              (case r of None \<Rightarrow> outcome | Some o' \<Rightarrow> o')
          })
   }"

section \<open>Lemmas\<close>

context world_inv
begin

lemma keeps_warn:
  "keeps I (warn_einval t)" "keeps I (warn_blocked t)" "keeps I (warn_eperm t)" "keeps I (warn_cpuset t)"
  unfolding warn_einval_def warn_blocked_def warn_eperm_def warn_cpuset_def warn_once_def
  by (intro keeps_intros keeps_modify inv_einval inv_blocked inv_eperm inv_cpuset; assumption)+

lemmas keeps_apply = keeps_warn keeps_record keeps_backend keeps_ensure_dir keeps_kern

lemma keeps_join_cpuset: "keeps I (join_cpuset os t pkg d r topo)"
  unfolding join_cpuset_def by (intro keeps_intros keeps_apply)

lemma keeps_downgraded: "keeps I (downgraded_path os t pkg b a e)"
  unfolding downgraded_path_def by (intro keeps_intros keeps_apply)

lemma keeps_final_set: "keeps I (final_set os t pkg r e)"
  unfolding final_set_def by (intro keeps_intros keeps_apply)

lemma keeps_restrict: "keeps I (restrict_and_set os t pkg r e)"
  unfolding restrict_and_set_def
  by (intro keeps_intros keeps_apply keeps_downgraded keeps_final_set)

lemma keeps_apply_affinity: "keeps I (apply_affinity os t pkg p topo)"
  unfolding apply_affinity_def
  by (intro keeps_intros keeps_apply keeps_join_cpuset keeps_restrict keeps_modify inv_short; assumption)

lemma keeps_apply_sched: "keeps I (apply_sched os t pkg p pr n)"
  unfolding apply_sched_def by (intro keeps_intros keeps_apply)

lemma keeps_uclamp_supported: "keeps I (uclamp_supported os)"
  unfolding uclamp_supported_def
  by (intro keeps_intros keeps_apply keeps_modify inv_uclamp; assumption)

lemma keeps_apply_uclamp: "keeps I (apply_uclamp os t pkg mn mx oc)"
  unfolding apply_uclamp_def by (intro keeps_intros keeps_apply keeps_uclamp_supported)

lemma keeps_apply_thread: "keeps I (apply_thread os t pkg p topo rt)"
  unfolding apply_thread_def
  by (intro keeps_intros keeps_apply_affinity keeps_apply_sched keeps_apply_uclamp)

end

end
