(* ===== verification/Apply_Facts.thy ===== *)
theory Apply_Facts
  imports Policy_Apply
begin

text \<open>
  Which calls applying a policy can make, and what it leaves in the audit log. A call that is
  never made does not matter: replacing its behaviour in the kernel record leaves the
  computation the same. The lemmas push such a replacement through the code of
  \<open>Policy_Apply\<close>; \<open>tells\<close> relates the outcome of a computation to the newest record of the log.
\<close>

section \<open>Computations that agree\<close>

lemmas branch_cong = if_cong option.case_cong

lemma bind_cong_gives:
  assumes "gives Q m" and "\<And>x. Q x \<Longrightarrow> f x = g x"
  shows "State_Monad.bind m f = State_Monad.bind m g"
proof -
  have "run_state (State_Monad.bind m f) s = run_state (State_Monad.bind m g) s" for s
    using givesD [OF assms(1), of s] assms(2) by (cases "run_state m s") simp
  then show ?thesis by (metis State_Monad.state.expand ext)
qed

lemma gives_on_kern: "gives Q m \<Longrightarrow> gives Q (on_kern m)"
  by (auto simp: gives_def on_kern_def split: prod.splits) (metis fst_conv)

section \<open>The masks that are set\<close>

lemma fold_clear:
  assumes "wf_cpuset c" and "set is \<subseteq> {..<1024}"
  shows "wf_cpuset (fold (\<lambda>i e. if cpuset_is_set e i \<and> \<not> P i then cpuset_clear i e else e) is c) \<and>
    members (fold (\<lambda>i e. if cpuset_is_set e i \<and> \<not> P i then cpuset_clear i e else e) is c) =
      members c - {i \<in> set is. \<not> P i}"
  using assms
proof (induction "is" arbitrary: c)
  case (Cons i "is")
  let ?c = "if cpuset_is_set c i \<and> \<not> P i then cpuset_clear i c else c"
  have "members (cpuset_clear i c) = members c - {i}"
    using Cons.prems by (intro members_clear) simp_all
  then have "wf_cpuset ?c" "members ?c = members c - {j. j = i \<and> \<not> P i}"
    using Cons.prems by (auto simp: members_def [of c])
  moreover have "set is \<subseteq> {..<1024}" using Cons.prems by simp
  ultimately show ?case using Cons.IH [of ?c] by (simp only: fold_simps) auto
qed simp

lemma online_fold:
  assumes "wf_cpuset c"
  shows "wf_cpuset (online_filter topo c)"
    and "0 < cpuset_count (online_cpus topo) \<Longrightarrow>
      members (online_filter topo c) = members c - {i. i < 1024 \<and> \<not> cpuset_is_set (online_cpus topo) i}"
    and "\<not> 0 < cpuset_count (online_cpus topo) \<Longrightarrow> online_filter topo c = c"
proof -
  have sub: "set [0..<CPU_SETSIZE] \<subseteq> {..<1024}" by (auto simp: CPU_SETSIZE_def)
  have range: "{i \<in> set [0..<CPU_SETSIZE]. P i} = {i. i < 1024 \<and> P i}" for P
    by (auto simp: CPU_SETSIZE_def)
  note f = fold_clear [OF assms sub, of "cpuset_is_set (online_cpus topo)", unfolded range]
  show "wf_cpuset (online_filter topo c)" using f assms by (simp add: online_filter_def del: set_upt)
  show "0 < cpuset_count (online_cpus topo) \<Longrightarrow>
      members (online_filter topo c) = members c - {i. i < 1024 \<and> \<not> cpuset_is_set (online_cpus topo) i}"
    using f by (simp add: online_filter_def del: set_upt)
  show "\<not> 0 < cpuset_count (online_cpus topo) \<Longrightarrow> online_filter topo c = c"
    by (simp add: online_filter_def)
qed

lemma online_filter_members:
  assumes "wf_cpuset c" and "wf_cpuset (online_cpus topo)"
  shows "members (online_filter topo c) =
    (if members (online_cpus topo) = {} then members c else members c \<inter> members (online_cpus topo))"
proof (cases "members (online_cpus topo) = {}")
  case True
  then show ?thesis using online_fold(3) [OF assms(1), of topo] assms(2) by simp
next
  case False
  then have "0 < cpuset_count (online_cpus topo)" using assms(2) by simp
  then have "members (online_filter topo c) =
      members c - {i. i < 1024 \<and> \<not> cpuset_is_set (online_cpus topo) i}"
    by (rule online_fold(2) [OF assms(1)])
  also have "\<dots> = members c \<inter> members (online_cpus topo)"
    using members_bound [of _ c] by (auto simp: members_def [of "online_cpus topo"])
  finally show ?thesis using False by simp
qed

lemma allowed_wf': "gives (\<lambda>r. \<forall>a. r = Some a \<longrightarrow> wf_cpuset a) (read_allowed_mask os t)"
proof -
  have lines: "allowed_of_lines ls = Some a \<Longrightarrow> wf_cpuset a" for ls a
    by (induction ls) (auto simp: Let_def parse_wf split: option.splits if_splits)
  show ?thesis
    unfolding read_allowed_mask_def
    by (intro gives_bind_any gives_return) (auto dest: lines split: option.splits)
qed

lemma allowed_wf: "gives (\<lambda>r. \<forall>a. r = Some a \<longrightarrow> wf_cpuset a) (backend_read_allowed os t)"
  unfolding backend_read_allowed_def by (rule gives_on_kern [OF allowed_wf'])

text \<open>Two kernels that treat every mask with the property alike.\<close>

definition same_masks :: "(nat set \<Rightarrow> bool) \<Rightarrow> 'k os \<Rightarrow> 'k os \<Rightarrow> bool" where
  "same_masks P os os' \<longleftrightarrow> os' = os\<lparr>os_setaffinity := os_setaffinity os'\<rparr> \<and>
     (\<forall>t c k. wf_cpuset c \<longrightarrow> P (members c) \<longrightarrow> os_setaffinity os' t (bits c) k = os_setaffinity os t (bits c) k)"

lemma set_affinity_same:
  assumes "same_masks P os os'" and "wf_cpuset c" and "P (members c)"
  shows "backend_set_affinity os' t c = backend_set_affinity os t c"
proof -
  have "os_setaffinity os' t (bits c) = os_setaffinity os t (bits c)"
    using assms by (auto simp: same_masks_def)
  then show ?thesis by (simp add: backend_set_affinity_def set_affinity_def)
qed

lemma audit_record_upd [simp]:
  "audit_record (os\<lparr>os_setaffinity := f\<rparr>) e = audit_record os e"
  "audit_record (os\<lparr>os_setscheduler := g\<rparr>) e = audit_record os e"
  "audit_record (os\<lparr>os_setpriority := h\<rparr>) e = audit_record os e"
  "audit_record (os\<lparr>os_setattr := a\<rparr>) e = audit_record os e"
  by (simp_all add: audit_record_def record_entry_def now_secs_def)

lemma join_cpuset_upd [simp]:
  "join_cpuset (os\<lparr>os_setaffinity := f\<rparr>) t pkg d r topo = join_cpuset os t pkg d r topo"
  "join_cpuset (os\<lparr>os_setscheduler := g\<rparr>) t pkg d r topo = join_cpuset os t pkg d r topo"
  "join_cpuset (os\<lparr>os_setpriority := h\<rparr>) t pkg d r topo = join_cpuset os t pkg d r topo"
  "join_cpuset (os\<lparr>os_setattr := a\<rparr>) t pkg d r topo = join_cpuset os t pkg d r topo"
  by (simp_all add: join_cpuset_def ensure_dir_def create_cpuset_dir_def attach_task_def cong: branch_cong)

lemma reads_upd [simp]:
  "backend_get_affinity (os\<lparr>os_setaffinity := f\<rparr>) t = backend_get_affinity os t"
  "backend_get_affinity (os\<lparr>os_setscheduler := g\<rparr>) t = backend_get_affinity os t"
  "backend_get_affinity (os\<lparr>os_setpriority := h\<rparr>) t = backend_get_affinity os t"
  "backend_get_affinity (os\<lparr>os_setattr := a\<rparr>) t = backend_get_affinity os t"
  "backend_read_allowed (os\<lparr>os_setaffinity := f\<rparr>) t = backend_read_allowed os t"
  "backend_read_allowed (os\<lparr>os_setscheduler := g\<rparr>) t = backend_read_allowed os t"
  "backend_read_allowed (os\<lparr>os_setpriority := h\<rparr>) t = backend_read_allowed os t"
  "backend_read_allowed (os\<lparr>os_setattr := a\<rparr>) t = backend_read_allowed os t"
  by (simp_all add: backend_get_affinity_def backend_read_allowed_def get_affinity_def
      read_allowed_mask_def read_to_string_def)

lemma uclamp_supported_upd [simp]:
  "uclamp_supported (os\<lparr>os_setaffinity := f\<rparr>) = uclamp_supported os"
  "uclamp_supported (os\<lparr>os_setscheduler := g\<rparr>) = uclamp_supported os"
  "uclamp_supported (os\<lparr>os_setpriority := h\<rparr>) = uclamp_supported os"
  "uclamp_supported (os\<lparr>os_setattr := a\<rparr>) = uclamp_supported os"
  by (simp_all add: uclamp_supported_def cong: branch_cong)

lemma sets_upd [simp]:
  "set_scheduler (os\<lparr>os_setaffinity := f\<rparr>) t p pr = set_scheduler os t p pr"
  "set_scheduler (os\<lparr>os_setpriority := h\<rparr>) t p pr = set_scheduler os t p pr"
  "set_scheduler (os\<lparr>os_setattr := a\<rparr>) t p pr = set_scheduler os t p pr"
  "set_nice (os\<lparr>os_setaffinity := f\<rparr>) t n = set_nice os t n"
  "set_nice (os\<lparr>os_setscheduler := g\<rparr>) t n = set_nice os t n"
  "set_nice (os\<lparr>os_setattr := a\<rparr>) t n = set_nice os t n"
  "set_uclamp (os\<lparr>os_setaffinity := f\<rparr>) t mn mx = set_uclamp os t mn mx"
  "set_uclamp (os\<lparr>os_setscheduler := g\<rparr>) t mn mx = set_uclamp os t mn mx"
  "set_uclamp (os\<lparr>os_setpriority := h\<rparr>) t mn mx = set_uclamp os t mn mx"
  "backend_set_affinity (os\<lparr>os_setscheduler := g\<rparr>) t c = backend_set_affinity os t c"
  "backend_set_affinity (os\<lparr>os_setpriority := h\<rparr>) t c = backend_set_affinity os t c"
  "backend_set_affinity (os\<lparr>os_setattr := a\<rparr>) t c = backend_set_affinity os t c"
  by (simp_all add: set_scheduler_def set_nice_def set_uclamp_def backend_set_affinity_def set_affinity_def
      cong: branch_cong)

lemma apply_affinity_upd [simp]:
  "apply_affinity (os\<lparr>os_setscheduler := g\<rparr>) t pkg p topo = apply_affinity os t pkg p topo"
  "apply_affinity (os\<lparr>os_setpriority := h\<rparr>) t pkg p topo = apply_affinity os t pkg p topo"
  "apply_affinity (os\<lparr>os_setattr := a\<rparr>) t pkg p topo = apply_affinity os t pkg p topo"
  by (simp_all add: apply_affinity_def restrict_and_set_def downgraded_path_def final_set_def Let_def
      cong: branch_cong)

lemma apply_sched_upd [simp]:
  "apply_sched (os\<lparr>os_setaffinity := f\<rparr>) t pkg p pr n = apply_sched os t pkg p pr n"
  "apply_sched (os\<lparr>os_setattr := a\<rparr>) t pkg p pr n = apply_sched os t pkg p pr n"
  by (simp_all add: apply_sched_def cong: branch_cong)

lemma apply_uclamp_upd [simp]:
  "apply_uclamp (os\<lparr>os_setaffinity := f\<rparr>) t pkg mn mx oc = apply_uclamp os t pkg mn mx oc"
  "apply_uclamp (os\<lparr>os_setscheduler := g\<rparr>) t pkg mn mx oc = apply_uclamp os t pkg mn mx oc"
  "apply_uclamp (os\<lparr>os_setpriority := h\<rparr>) t pkg mn mx oc = apply_uclamp os t pkg mn mx oc"
  by (simp_all add: apply_uclamp_def cong: branch_cong)

text \<open>Only nonempty masks of requested, online CPUs are ever set.\<close>

abbreviation safe_mask :: "CpuTopology \<Rightarrow> CpuSet \<Rightarrow> nat set \<Rightarrow> bool" where
  "safe_mask topo c M \<equiv> M \<noteq> {} \<and> M \<subseteq> members c \<and>
     (members (online_cpus topo) \<noteq> {} \<longrightarrow> M \<subseteq> members (online_cpus topo))"

lemma final_set_same:
  assumes "same_masks P os os'" and "wf_cpuset e" and "members e \<noteq> {} \<Longrightarrow> P (members e)"
  shows "final_set os' t pkg r e = final_set os t pkg r e"
proof (cases "members e = {}")
  case False
  obtain f where os': "os' = os\<lparr>os_setaffinity := f\<rparr>" using assms(1) by (auto simp: same_masks_def)
  have "backend_set_affinity os' t e = backend_set_affinity os t e"
    using set_affinity_same [OF assms(1,2)] assms(3) False by blast
  then show ?thesis by (simp add: final_set_def Let_def os' cong: branch_cong)
qed (use assms(2) in \<open>simp add: final_set_def\<close>)

lemma downgraded_same:
  assumes "same_masks P os os'" and "wf_cpuset e" and "P (members e)"
  shows "downgraded_path os' t pkg b a e = downgraded_path os t pkg b a e"
proof -
  obtain f where os': "os' = os\<lparr>os_setaffinity := f\<rparr>" using assms(1) by (auto simp: same_masks_def)
  have "backend_set_affinity os' t e = backend_set_affinity os t e"
    using assms by (rule set_affinity_same)
  then show ?thesis by (simp add: downgraded_path_def os' cong: branch_cong)
qed

lemma restrict_same:
  assumes same: "same_masks P os os'" and e: "wf_cpuset e"
    and P: "\<And>M. M \<noteq> {} \<Longrightarrow> M \<subseteq> members e \<Longrightarrow> P M"
  shows "restrict_and_set os' t pkg r e = restrict_and_set os t pkg r e"
proof -
  obtain f where os': "os' = os\<lparr>os_setaffinity := f\<rparr>" using same by (auto simp: same_masks_def)
  have final: "final_set os' t pkg r c = final_set os t pkg r c"
    if "wf_cpuset c" "members c \<subseteq> members e" for c
    using that by (intro final_set_same [OF same]) (auto intro: P)
  have down: "downgraded_path os' t pkg b a c = downgraded_path os t pkg b a c"
    if "wf_cpuset c" "members c \<subseteq> members e" "members c \<noteq> {}" for b a c
    using that by (intro downgraded_same [OF same]) (auto intro: P)
  have "backend_read_allowed os' t = backend_read_allowed os t" by (simp add: os')
  moreover have "audit_record os' = audit_record os" by (rule ext) (simp add: os')
  ultimately show ?thesis
    unfolding restrict_and_set_def
    by (simp only:) (rule bind_cong_gives [OF allowed_wf], auto simp: Let_def e final down split: option.splits)
qed

lemma apply_affinity_same:
  assumes same: "same_masks (safe_mask topo (cpus p)) os os'"
    and p: "wf_cpuset (cpus p)" and on: "wf_cpuset (online_cpus topo)"
  shows "apply_affinity os' t pkg p topo = apply_affinity os t pkg p topo"
proof -
  obtain f where os': "os' = os\<lparr>os_setaffinity := f\<rparr>" using same by (auto simp: same_masks_def)
  have "restrict_and_set os' t pkg r (online_filter topo (cpus p)) =
      restrict_and_set os t pkg r (online_filter topo (cpus p))" for r
    using online_fold(1) [OF p] online_filter_members [OF p on]
    by (intro restrict_same [OF same]) (auto split: if_splits)
  then show ?thesis
    unfolding apply_affinity_def by (simp add: os' Let_def cong: branch_cong)
qed

section \<open>Scheduler, nice and uclamp calls\<close>

lemma clamp_range: "lo \<le> hi \<Longrightarrow> lo \<le> clamp_int lo hi n \<and> clamp_int lo hi n \<le> hi"
  by (auto simp: clamp_int_def)

lemma set_scheduler_same:
  assumes "\<And>k. g t (to_libc p) (sched_param p pr) k = os_setscheduler os t (to_libc p) (sched_param p pr) k"
  shows "set_scheduler (os\<lparr>os_setscheduler := g\<rparr>) t p pr = set_scheduler os t p pr"
proof -
  have "g t (to_libc p) (sched_param p pr) = os_setscheduler os t (to_libc p) (sched_param p pr)"
    using assms by (rule ext)
  then show ?thesis by (simp add: set_scheduler_def)
qed

lemma set_nice_same:
  assumes "\<And>n k. - 20 \<le> n \<Longrightarrow> n \<le> 19 \<Longrightarrow> h t n k = os_setpriority os t n k"
  shows "set_nice (os\<lparr>os_setpriority := h\<rparr>) t n = set_nice os t n"
proof -
  have "h t (clamp_int (-20) 19 n) = os_setpriority os t (clamp_int (-20) 19 n)"
    using clamp_range [of "-20" 19 n] assms by (intro ext) simp
  then show ?thesis by (simp add: set_nice_def)
qed

lemma set_uclamp_same:
  assumes "\<And>k. mn \<noteq> None \<or> mx \<noteq> None \<Longrightarrow>
    a t (attr_fields (uclamp_attr mn mx)) k = os_setattr os t (attr_fields (uclamp_attr mn mx)) k"
  shows "set_uclamp (os\<lparr>os_setattr := a\<rparr>) t mn mx = set_uclamp os t mn mx"
proof (cases "mn = None \<and> mx = None")
  case False
  then have "a t (attr_fields (uclamp_attr mn mx)) = os_setattr os t (attr_fields (uclamp_attr mn mx))"
    using assms by (intro ext) auto
  then show ?thesis using False by (auto simp: set_uclamp_def)
qed (simp add: set_uclamp_def)

lemma clamp_attr_fields:
  "attr_fields (uclamp_attr mn mx) =
     [56, 0, (if mn \<noteq> None then 32 else 0) + (if mx \<noteq> None then 64 else 0), 0, 0, 0, 0, 0,
      int (min 1024 (case mn of None \<Rightarrow> 0 | Some v \<Rightarrow> v)), int (min 1024 (case mx of None \<Rightarrow> 1024 | Some v \<Rightarrow> v))]"
proof -
  have "uint (of_nat (min 1024 n) :: u32) = int (min 1024 n)" for n
    by (simp add: uint_nat unat_of_nat)
  then show ?thesis
    by (simp add: attr_fields_def uclamp_attr_def SCHED_FLAG_UTIL_CLAMP_MIN_def SCHED_FLAG_UTIL_CLAMP_MAX_def)
qed

section \<open>The newest record\<close>

text \<open>The answer and the newest record of the log when the computation ends.\<close>

definition tells :: "('a \<Rightarrow> AuditEntry \<Rightarrow> bool) \<Rightarrow> ('k world, 'a) state \<Rightarrow> bool" where
  "tells R m = (\<forall>w. R (fst (run_state m w)) (last (audit_ring (snd (run_state m w)))))"

named_theorems tells_intros

lemma tellsD: "tells R m \<Longrightarrow> run_state m w = (x, w') \<Longrightarrow> R x (last (audit_ring w'))"
  unfolding tells_def by (metis fst_conv snd_conv)

lemma tells_any: "(\<And>e. R x e) \<Longrightarrow> tells R (ret x)"
  by (simp add: tells_def)

lemma tells_bind [tells_intros]: "(\<And>x. tells R (f x)) \<Longrightarrow> tells R (State_Monad.bind m f)"
  by (auto simp: tells_def split: prod.splits)

lemma tells_if [tells_intros]:
  "(b \<Longrightarrow> tells R m) \<Longrightarrow> (\<not> b \<Longrightarrow> tells R n) \<Longrightarrow> tells R (if b then m else n)"
  by simp

lemma tells_let [tells_intros]: "(\<And>y. tells R (f y)) \<Longrightarrow> tells R (let y = x in f y)"
  by simp

lemma tells_option [tells_intros]:
  "tells R m \<Longrightarrow> (\<And>y. x = Some y \<Longrightarrow> tells R (f y)) \<Longrightarrow> tells R (case x of None \<Rightarrow> m | Some y \<Rightarrow> f y)"
  by (cases x) auto

lemma tells_record:
  assumes "\<And>ts. R x (e\<lparr>timestamp := ts\<rparr>)"
  shows "tells R (do { _ \<leftarrow> audit_record os e; ret x })"
proof -
  have "R x (last (audit_ring (snd (run_state (audit_record os e) w))))" for w
    using assms assms [of "timestamp e"]
    by (auto simp: audit_record_def on_kern_def record_entry_def stamp_def ring_push_last split: prod.splits)
  then show ?thesis by (auto simp: tells_def split: prod.splits) (metis snd_conv)
qed

text \<open>The reasons that go with an outcome of the affinity step.\<close>

fun outcome_reasons :: "ApplyOutcome \<Rightarrow> string set" where
  "outcome_reasons Applied = {''applied'', ''already''}"
| "outcome_reasons Exited = {''esrch''}"
| "outcome_reasons BlockedByCgroup = {''cgroup''}"
| "outcome_reasons Downgraded = {''downgraded''}"
| "outcome_reasons BlockedByPerm = {''eperm''}"
| "outcome_reasons OEinval = {''einval''}"
| "outcome_reasons Failed = {''other'', ''downgraded_failed''}"
| "outcome_reasons SkippedNoCpus = {}"

definition logged :: "pid \<Rightarrow> string \<Rightarrow> ApplyOutcome \<Rightarrow> AuditEntry \<Rightarrow> bool" where
  "logged t pkg oc e \<longleftrightarrow> oc = SkippedNoCpus \<or>
     (ae_tid e = t \<and> ae_pkg e = pkg \<and> reason e \<in> outcome_reasons oc \<and>
      (ae_success e \<longleftrightarrow> oc = Applied \<or> oc = Downgraded))"

lemma tells_logged:
  "tells (logged t pkg) (ret SkippedNoCpus)"
  "reason e \<in> outcome_reasons oc \<Longrightarrow> ae_tid e = t \<Longrightarrow> ae_pkg e = pkg \<Longrightarrow>
     (ae_success e \<longleftrightarrow> oc = Applied \<or> oc = Downgraded) \<Longrightarrow>
   tells (logged t pkg) (do { _ \<leftarrow> audit_record os e; ret oc })"
  by (rule tells_any, simp add: logged_def) (rule tells_record, simp add: logged_def)

lemma apply_affinity_logged: "tells (logged t pkg) (apply_affinity os t pkg p topo)"
  unfolding apply_affinity_def restrict_and_set_def downgraded_path_def final_set_def
  by (intro tells_logged tells_intros) (simp_all add: entry_def)

end
