(* ===== verification/Apply_Properties.thy ===== *)
theory Apply_Properties
  imports Apply_Facts
begin

text \<open>
  The properties of applying a policy: which calls the kernel can receive, and what the audit
  log says afterwards. Each property about calls replaces the behaviour of the call on every
  other argument and shows that the computation stays the same: those calls are never made.
\<close>

section \<open>Examples\<close>

text \<open>A kernel whose state counts the calls and in which every call succeeds.\<close>

definition demo_os :: "nat os" where
  "demo_os = \<lparr>os_read_file = \<lambda>_ k. (None, k), os_read_at = \<lambda>_ _ k. (None, k),
     os_read_dir = \<lambda>_ k. (None, k), os_write_file = \<lambda>_ _ k. (True, k),
     os_append_file = \<lambda>_ _ k. (True, k), os_exists = \<lambda>_ k. (True, k), os_mkdir = \<lambda>_ k. (None, k),
     os_chmod_chown = \<lambda>_ k. ((), k), os_rmdir = \<lambda>_ k. (True, k), os_open_dir = \<lambda>_ k. (3, k),
     os_getaffinity = \<lambda>_ k. (None, k), os_setaffinity = \<lambda>_ _ k. (None, Suc k),
     os_setscheduler = \<lambda>_ _ _ k. (None, Suc k), os_setpriority = \<lambda>_ _ k. (None, Suc k),
     os_setattr = \<lambda>_ _ k. (None, Suc k), os_kill0 = \<lambda>_ k. (None, k), os_geteuid = \<lambda>k. (0, k),
     os_capget = \<lambda>k. (None, k), os_unix_secs = \<lambda>k. (Some 7, k),
     os_mono_secs = \<lambda>k. (int k, k), os_instant = \<lambda>k. (int k, k), os_sleep = \<lambda>_ k. ((), k)\<rparr>"

definition demo_policy :: Policy where
  "demo_policy = \<lparr>cpus = fold cpuset_set [0, 1] cpuset_new, cpuset_dir = ''0-1'', sched = Some Fifo,
     sched_prio = Some 120, nice = Some (- 30), uclamp_min = Some 2000, uclamp_max = None\<rparr>"

lemma demo_policy_wf: "wf_cpuset (cpus demo_policy)"
  using fold_cpuset_set [OF wf_new] by (simp add: demo_policy_def)

lemma default_online_wf: "wf_cpuset (online_cpus topo_default)"
  by (simp add: topo_default_def)

lemma bits_eta: "\<lparr>bits = bits c\<rparr> = (c :: CpuSet)"
  by simp

section \<open>Calls\<close>

text \<open>
  C29. Applying a policy never sets an affinity mask that is empty, has a CPU the policy does not
  name, or, when some CPU is online, has an offline CPU: the mask of the cgroup can only
  shrink the request, whatever the kernel answers.
\<close>

theorem only_safe_masks:
  assumes "wf_cpuset (cpus p)" and "wf_cpuset (online_cpus topo)"
    and "same_masks (safe_mask topo (cpus p)) os os'"
  shows "apply_thread os' t pkg p topo rt = apply_thread os t pkg p topo rt"
proof -
  obtain f where os': "os' = os\<lparr>os_setaffinity := f\<rparr>" using assms(3) by (auto simp: same_masks_def)
  have "apply_affinity os' t pkg p topo = apply_affinity os t pkg p topo"
    using assms by (intro apply_affinity_same)
  then show ?thesis by (simp add: apply_thread_def os' cong: branch_cong)
qed

text \<open>A kernel that fails on every mask but those two CPUs answers \<open>demo_policy\<close> the same way.\<close>

theorem only_safe_masks_witness:
  "apply_thread (demo_os\<lparr>os_setaffinity := \<lambda>t ws k.
       if members \<lparr>bits = ws\<rparr> \<noteq> {} \<and> members \<lparr>bits = ws\<rparr> \<subseteq> members (cpus demo_policy)
       then (None, Suc k) else (Some EINVAL, k)\<rparr>) 5 ''a'' demo_policy topo_default True =
   apply_thread demo_os 5 ''a'' demo_policy topo_default True"
  by (rule only_safe_masks [OF demo_policy_wf default_online_wf])
    (simp add: same_masks_def demo_os_def bits_eta)

text \<open>
  C31. The scheduler is only called in the range the kernel defines: a real-time class (1 or 2)
  only when the caller may use it and with a priority from 1 to 99, every other class with
  priority 0; and without a policy it is not called at all.
\<close>

theorem only_legal_classes:
  assumes "\<And>c prio k. sched p \<noteq> None \<Longrightarrow>
      (if c = 1 \<or> c = 2 then rt \<and> 1 \<le> prio \<and> prio \<le> 99 else prio = 0) \<Longrightarrow>
      g t c prio k = os_setscheduler os t c prio k"
  shows "apply_thread (os\<lparr>os_setscheduler := g\<rparr>) t pkg p topo rt = apply_thread os t pkg p topo rt"
proof (cases "sched p")
  case (Some pol)
  have "apply_sched (os\<lparr>os_setscheduler := g\<rparr>) t pkg pol pr n = apply_sched os t pkg pol pr n"
    if "is_rt pol \<longrightarrow> rt" for pr n
  proof -
    have "set_scheduler (os\<lparr>os_setscheduler := g\<rparr>) t pol pr = set_scheduler os t pol pr"
    proof (rule set_scheduler_same)
      fix k
      show "g t (to_libc pol) (sched_param pol pr) k = os_setscheduler os t (to_libc pol) (sched_param pol pr) k"
        using that Some clamp_range [of 1 99] by (intro assms) (cases pol; simp add: sched_param_def)+
    qed
    then show ?thesis by (simp add: apply_sched_def cong: branch_cong)
  qed
  then show ?thesis
    by (cases "is_rt pol \<and> \<not> rt") (auto simp: apply_thread_def Some cong: branch_cong)
qed (simp add: apply_thread_def cong: branch_cong)

text \<open>Priority 120 of \<open>demo_policy\<close> becomes 99; without the privilege the class is not set.\<close>

theorem only_legal_classes_witness:
  "apply_thread (demo_os\<lparr>os_setscheduler := \<lambda>_ c prio k. if c = 1 \<or> c = 2 then (Some EPERM, k) else (None, Suc k)\<rparr>)
     5 ''a'' demo_policy topo_default False = apply_thread demo_os 5 ''a'' demo_policy topo_default False"
  by (rule only_legal_classes) (simp add: demo_os_def split: if_splits)

text \<open>
  A nice value is only set from -20 to 19, and only for a policy that also sets a class: a
  nice value alone is never applied.
\<close>

theorem only_legal_nice:
  assumes "\<And>n k. sched p \<noteq> None \<Longrightarrow> - 20 \<le> n \<Longrightarrow> n \<le> 19 \<Longrightarrow> h t n k = os_setpriority os t n k"
  shows "apply_thread (os\<lparr>os_setpriority := h\<rparr>) t pkg p topo rt = apply_thread os t pkg p topo rt"
proof (cases "sched p")
  case (Some pol)
  then have "set_nice (os\<lparr>os_setpriority := h\<rparr>) t n = set_nice os t n" for n
    using assms by (intro set_nice_same) simp
  then have "apply_sched (os\<lparr>os_setpriority := h\<rparr>) t pkg pol pr n = apply_sched os t pkg pol pr n" for pr n
    by (simp add: apply_sched_def cong: branch_cong)
  then show ?thesis by (simp add: apply_thread_def Some cong: branch_cong)
qed (simp add: apply_thread_def cong: branch_cong)

theorem only_legal_nice_witness:
  "apply_thread (demo_os\<lparr>os_setpriority := undefined\<rparr>) 5 ''a'' (demo_policy\<lparr>sched := None\<rparr>) topo_default True =
   apply_thread demo_os 5 ''a'' (demo_policy\<lparr>sched := None\<rparr>) topo_default True"
  by (rule only_legal_nice) simp

text \<open>
  C32. The clamps are only set when the policy has a bound: the flags are
  those of the given bounds and no other (32 for the lower, 64 for the upper; in particular none
  that keeps the current policy and parameters), a given bound is cut at 1024, a bound that is
  not given is 0 or 1024, and every field in between is zero.
\<close>

theorem only_legal_attributes:
  assumes "\<And>k. uclamp_min p \<noteq> None \<or> uclamp_max p \<noteq> None \<Longrightarrow> let
      flags = (if uclamp_min p = None then 0 else 32) + (if uclamp_max p = None then 0 else 64);
      lo = (case uclamp_min p of None \<Rightarrow> 0 | Some v \<Rightarrow> if v < 1024 then int v else 1024);
      hi = (case uclamp_max p of None \<Rightarrow> 1024 | Some v \<Rightarrow> if v < 1024 then int v else 1024)
    in a t [56, 0, flags, 0, 0, 0, 0, 0, lo, hi] k = os_setattr os t [56, 0, flags, 0, 0, 0, 0, 0, lo, hi] k"
  shows "apply_thread (os\<lparr>os_setattr := a\<rparr>) t pkg p topo rt = apply_thread os t pkg p topo rt"
proof -
  let ?mn = "uclamp_min p" and ?mx = "uclamp_max p"
  have "a t (attr_fields (uclamp_attr ?mn ?mx)) k = os_setattr os t (attr_fields (uclamp_attr ?mn ?mx)) k"
    if "?mn \<noteq> None \<or> ?mx \<noteq> None" for k
    using assms [OF that, of k]
    by (cases ?mn; cases ?mx) (simp_all add: clamp_attr_fields Let_def min_def split: if_splits)
  then have "set_uclamp (os\<lparr>os_setattr := a\<rparr>) t ?mn ?mx = set_uclamp os t ?mn ?mx"
    by (rule set_uclamp_same)
  then have "apply_uclamp (os\<lparr>os_setattr := a\<rparr>) t pkg ?mn ?mx oc = apply_uclamp os t pkg ?mn ?mx oc" for oc
    by (simp add: apply_uclamp_def cong: branch_cong)
  then show ?thesis by (simp add: apply_thread_def cong: branch_cong)
qed

text \<open>The lower bound 2000 of \<open>demo_policy\<close> is set as 1024, with its flag alone.\<close>

theorem only_legal_attributes_witness:
  "apply_thread (demo_os\<lparr>os_setattr := \<lambda>_ xs k.
       if xs = [56, 0, 32, 0, 0, 0, 0, 0, 1024, 1024] then (None, Suc k) else (Some EINVAL, k)\<rparr>)
     5 ''a'' demo_policy topo_default True = apply_thread demo_os 5 ''a'' demo_policy topo_default True"
  by (rule only_legal_attributes) (simp add: demo_os_def demo_policy_def)

section \<open>The audit log\<close>


definition demo_world :: "nat world" where
  "demo_world = \<lparr>kern = 0, audit_ring = [], warned_einval = {}, warned_blocked = {}, warned_eperm = {},
     warned_cpuset = {}, short_circuit_total = 0, uclamp_support = None, ensured_dirs = {},
     relock_stats = \<lparr>rst_allow = 0, rst_skip = 0, rst_degrade = 0\<rparr>, tracker = tracker_new,
     cfg_rules = ruleset_default\<rparr>"

lemma demo_affinity:
  "fst (run_state (apply_affinity demo_os 5 ''a'' demo_policy topo_default) demo_world) = Applied"
proof -
  have wf: "wf_cpuset (online_cpus topo_default)" "members (online_cpus topo_default) = {}"
    by (simp_all add: topo_default_def)
  have m: "members (cpus demo_policy) = {0, 1}" by (simp add: demo_policy_def insert_commute)
  have "online_filter topo_default (cpus demo_policy) = cpus demo_policy"
    using wf by (simp add: online_filter_def)
  then show ?thesis
    using demo_policy_wf m
    by (simp add: apply_affinity_def Let_def join_cpuset_def topo_default_def backend_get_affinity_def
        get_affinity_def on_kern_def demo_os_def restrict_and_set_def backend_read_allowed_def
        read_allowed_mask_def read_to_string_def final_set_def backend_set_affinity_def set_affinity_def
        split: prod.splits)
qed


text \<open>
  After any sequence of records from the empty log, the ring holds exactly the newest 1024
  of them, in order.
\<close>

theorem ring_holds_newest:
  "fold ring_push es [] = drop (length es - AUDIT_LOG_MAX) es"
  using fold_ring_push [of "[]" es] by simp

text \<open>
  The failure rate fed back into the decisions is the share of unsuccessful records, a number
  from 0 to 1 (and 0 without records).
\<close>

theorem failure_rate_is_share:
  "f_between 0 1 (failure_rate (summarize es)) \<and>
   failure_rate (summarize es) =
     (if es = [] then Fin 0
      else Fin (of_nat (length (filter (\<lambda>e. \<not> ae_success e) es)) / of_nat (length es)))"
  using failure_rate_between [of es] failure_rate_value [of es]
  by (simp add: failure_rate_def summarize_success)

end
