(* ===== verification/Affinity_Properties.thy ===== *)
theory Affinity_Properties
  imports Apply_Properties
begin

text \<open>
  What the affinity step does to the thread. \<open>apply_affinity\<close> (crates/core/src/policy.rs) intersects
  the CPUs of the policy with the list \<open>Cpus_allowed_list\<close> of the status file of the thread, which it
  takes for the limit of the cgroup. That list is the affinity of the thread itself, the mask
  sched_getaffinity answers (proc(5)); so, unless the thread was moved to another cpuset first, an
  affinity can only shrink. \<open>ends_with_mask\<close> is a triple over the affinity.
\<close>

section \<open>A kernel that reports its affinities\<close>

text \<open>
  \<open>aff\<close> reads the affinity of the thread off the state of the kernel: the status file and
  sched_getaffinity answer it, sched_setaffinity replaces it by CPUs of the mask (those the cpuset of
  the thread has) or fails and leaves it, and reading the clock leaves it.
\<close>

definition reports_affinity :: "'k os \<Rightarrow> pid \<Rightarrow> ('k \<Rightarrow> nat set) \<Rightarrow> bool" where
  "reports_affinity os t aff \<longleftrightarrow>
     (\<forall>k. (\<exists>a. fst (run_state (read_allowed_mask os t) k) = Some a \<and> members a = aff k) \<and>
       aff (snd (run_state (read_allowed_mask os t) k)) = aff k) \<and>
     (\<forall>k. (\<forall>ws. fst (os_getaffinity os t k) = Some ws \<longrightarrow> members \<lparr>bits = ws\<rparr> = aff k) \<and>
       aff (snd (os_getaffinity os t k)) = aff k) \<and>
     (\<forall>c k. if fst (os_setaffinity os t (bits c) k) = None
        then aff (snd (os_setaffinity os t (bits c) k)) \<noteq> {} \<and>
          aff (snd (os_setaffinity os t (bits c) k)) \<subseteq> members c
        else aff (snd (os_setaffinity os t (bits c) k)) = aff k) \<and>
     (\<forall>k. aff (snd (os_unix_secs os k)) = aff k)"

section \<open>Triples over the affinity\<close>

text \<open>From affinity \<open>A\<close> the computation answers and ends with an affinity as \<open>R\<close> says.\<close>

definition ends_with_mask ::
  "('k \<Rightarrow> nat set) \<Rightarrow> nat set \<Rightarrow> ('k world, 'a) state \<Rightarrow> ('a \<Rightarrow> nat set \<Rightarrow> bool) \<Rightarrow> bool"
where
  "ends_with_mask aff A m R \<longleftrightarrow>
     (\<forall>w. aff (kern w) = A \<longrightarrow> R (fst (run_state m w)) (aff (kern (snd (run_state m w)))))"

named_theorems mask_intros

lemma mask_return [mask_intros]: "R x A \<Longrightarrow> ends_with_mask aff A (ret x) R"
  by (simp add: ends_with_mask_def)

lemma mask_bind:
  fixes aff :: "'k \<Rightarrow> nat set"
  assumes "ends_with_mask aff A m Q" and "\<And>x B. Q x B \<Longrightarrow> ends_with_mask aff B (f x) R"
  shows "ends_with_mask aff A (State_Monad.bind m f) R"
  unfolding ends_with_mask_def
proof (intro allI impI)
  fix w :: "'k world"
  assume "aff (kern w) = A"
  moreover obtain x w' where r: "run_state m w = (x, w')" by (cases "run_state m w")
  ultimately have "Q x (aff (kern w'))" using assms(1) unfolding ends_with_mask_def by (metis fst_conv snd_conv)
  from assms(2) [OF this] r
  show "R (fst (run_state (State_Monad.bind m f) w)) (aff (kern (snd (run_state (State_Monad.bind m f) w))))"
    by (auto simp: ends_with_mask_def)
qed

text \<open>A computation that leaves the affinity.\<close>

definition quiet :: "('k \<Rightarrow> nat set) \<Rightarrow> ('k world, 'a) state \<Rightarrow> bool" where
  "quiet aff m \<longleftrightarrow> (\<forall>A. keeps (\<lambda>w. aff (kern w) = A) m)"

lemma mask_quiet [mask_intros]:
  assumes "quiet aff m" and "\<And>x. ends_with_mask aff A (f x) R"
  shows "ends_with_mask aff A (State_Monad.bind m f) R"
proof (rule mask_bind)
  show "ends_with_mask aff A m (\<lambda>_ B. B = A)"
    using assms(1) by (simp add: quiet_def keeps_def ends_with_mask_def)
qed (use assms(2) in simp)

lemma mask_if [mask_intros]:
  "(b \<Longrightarrow> ends_with_mask aff A m R) \<Longrightarrow> (\<not> b \<Longrightarrow> ends_with_mask aff A n R) \<Longrightarrow>
   ends_with_mask aff A (if b then m else n) R"
  by simp

lemma mask_let [mask_intros]:
  "(\<And>y. y = x \<Longrightarrow> ends_with_mask aff A (f y) R) \<Longrightarrow> ends_with_mask aff A (let y = x in f y) R"
  by simp

lemma mask_option [mask_intros]:
  "(x = None \<Longrightarrow> ends_with_mask aff A m R) \<Longrightarrow> (\<And>y. x = Some y \<Longrightarrow> ends_with_mask aff A (f y) R) \<Longrightarrow>
   ends_with_mask aff A (case x of None \<Rightarrow> m | Some y \<Rightarrow> f y) R"
  by (cases x) simp_all

lemma quiet_modify: "(\<And>w. kern (g w) = kern w) \<Longrightarrow> quiet aff (modify g)"
  by (simp add: quiet_def keeps_def)

lemma quiet_warn:
  "quiet aff (warn_einval t)" "quiet aff (warn_blocked t)" "quiet aff (warn_eperm t)"
  by (simp_all add: quiet_def keeps_def warn_einval_def warn_blocked_def warn_eperm_def warn_once_def)

lemma quiet_record:
  assumes "reports_affinity os t aff"
  shows "quiet aff (audit_record os e)"
proof -
  have "aff k' = aff k" if "os_unix_secs os k = (r, k')" for k r k'
    using assms that unfolding reports_affinity_def by (metis snd_conv)
  then show ?thesis
    by (auto simp: quiet_def keeps_def audit_record_def on_kern_def record_entry_def now_secs_def split: prod.splits)
qed

section \<open>The step\<close>

text \<open>A success leaves a mask within the wanted CPUs and the old affinity; a failure leaves the old affinity.\<close>

definition shrinks :: "nat set \<Rightarrow> nat set \<Rightarrow> ApplyOutcome \<Rightarrow> nat set \<Rightarrow> bool" where
  "shrinks M A oc B \<longleftrightarrow> (if oc = Applied \<or> oc = Downgraded then B \<noteq> {} \<and> B \<subseteq> M \<inter> A else B = A)"

lemma reports_set:
  assumes "reports_affinity os t aff" and "os_setaffinity os t (bits c) k = (e, k')"
  shows "if e = None then aff k' \<noteq> {} \<and> aff k' \<subseteq> members c else aff k' = aff k"
  using assms unfolding reports_affinity_def by (metis fst_conv snd_conv)

lemma mask_kern:
  assumes "\<And>k r k'. aff k = A \<Longrightarrow> run_state m k = (r, k') \<Longrightarrow> Q r (aff k')"
  shows "ends_with_mask aff A (on_kern m) Q"
  using assms by (auto simp: ends_with_mask_def on_kern_def split: prod.splits)

lemma mask_set:
  assumes "reports_affinity os t aff"
    and "\<And>B. B \<noteq> {} \<Longrightarrow> B \<subseteq> members c \<Longrightarrow> ends_with_mask aff B (f None) R"
    and "\<And>e. ends_with_mask aff A (f (Some e)) R"
  shows "ends_with_mask aff A (State_Monad.bind (backend_set_affinity os t c) f) R"
proof (rule mask_bind)
  show "ends_with_mask aff A (backend_set_affinity os t c)
      (\<lambda>r B. if r = None then B \<noteq> {} \<and> B \<subseteq> members c else B = A)"
    unfolding backend_set_affinity_def set_affinity_def
    by (rule mask_kern) (use reports_set [OF assms(1)] in simp)
qed (use assms(2,3) in \<open>auto split: if_splits\<close>)

lemma mask_get:
  assumes "reports_affinity os t aff"
    and "ends_with_mask aff A (f None) R"
    and "\<And>c. members c = A \<Longrightarrow> ends_with_mask aff A (f (Some c)) R"
  shows "ends_with_mask aff A (State_Monad.bind (backend_get_affinity os t) f) R"
proof (rule mask_bind)
  show "ends_with_mask aff A (backend_get_affinity os t) (\<lambda>r B. B = A \<and> (\<forall>c. r = Some c \<longrightarrow> members c = A))"
    unfolding backend_get_affinity_def
  proof (rule mask_kern)
    fix k r k'
    assume "aff k = A" "run_state (get_affinity os t) k = (r, k')"
    moreover obtain ws k1 where "os_getaffinity os t k = (ws, k1)" by (cases "os_getaffinity os t k")
    ultimately show "aff k' = A \<and> (\<forall>c. r = Some c \<longrightarrow> members c = A)"
      using assms(1) unfolding reports_affinity_def
      by (auto simp: get_affinity_def split: option.splits) (metis fst_conv snd_conv)+
  qed
qed (use assms(2,3) in \<open>metis option.exhaust\<close>)

lemma mask_read:
  assumes "reports_affinity os t aff"
    and "\<And>a. wf_cpuset a \<Longrightarrow> members a = A \<Longrightarrow> ends_with_mask aff A (f (Some a)) R"
  shows "ends_with_mask aff A (State_Monad.bind (backend_read_allowed os t) f) R"
proof (rule mask_bind)
  show "ends_with_mask aff A (backend_read_allowed os t) (\<lambda>r B. B = A \<and> (\<exists>a. r = Some a \<and> wf_cpuset a \<and> members a = A))"
    unfolding backend_read_allowed_def
  proof (rule mask_kern)
    fix k r k'
    assume "aff k = A" and r: "run_state (read_allowed_mask os t) k = (r, k')"
    then have "aff k' = A \<and> (\<exists>a. r = Some a \<and> members a = A)"
      using assms(1) unfolding reports_affinity_def by (metis fst_conv snd_conv)
    with givesD [OF allowed_wf', of os t k] r show "aff k' = A \<and> (\<exists>a. r = Some a \<and> wf_cpuset a \<and> members a = A)" by auto
  qed
qed (use assms(2) in auto)

lemma final_shrinks:
  assumes "reports_affinity os t aff" and "members e \<subseteq> M \<inter> A"
  shows "ends_with_mask aff A (final_set os t pkg r e) (shrinks M A)"
  unfolding final_set_def
  by (intro mask_intros mask_set [OF assms(1)] quiet_warn quiet_record [OF assms(1)])
    (use assms(2) in \<open>auto simp: shrinks_def\<close>)

lemma downgraded_shrinks:
  assumes "reports_affinity os t aff" and "members e \<subseteq> M \<inter> A"
  shows "ends_with_mask aff A (downgraded_path os t pkg b a e) (shrinks M A)"
  unfolding downgraded_path_def
  by (intro mask_intros mask_set [OF assms(1)] quiet_warn quiet_record [OF assms(1)])
    (use assms(2) in \<open>auto simp: shrinks_def\<close>)

text \<open>The whole step, when the thread is not moved to a cpuset.\<close>

lemma affinity_shrinks:
  assumes reports: "reports_affinity os t aff" and stays: "\<not> cpuset_enabled topo \<or> base_cpuset_fd topo = -1"
    and p: "wf_cpuset (cpus p)"
  shows "ends_with_mask aff A (apply_affinity os t pkg p topo)
    (\<lambda>oc B. shrinks (members (cpus p)) A oc B \<and> (members (cpus p) \<noteq> {} \<and> members (cpus p) \<inter> A = {} \<longrightarrow> oc = BlockedByCgroup))"
    (is "ends_with_mask _ _ _ ?R")
proof -
  let ?M = "members (cpus p)" and ?e = "online_filter topo (cpus p)"
  have e: "wf_cpuset ?e" by (rule online_fold(1) [OF p])
  have sub: "members ?e \<subseteq> ?M" using online_fold(2,3) [OF p, of topo] by (metis Diff_subset order_refl)
  have weaken: "ends_with_mask aff A m (shrinks ?M A) \<Longrightarrow> ?M \<inter> A \<noteq> {} \<Longrightarrow> ends_with_mask aff A m ?R" for m :: "('a world, ApplyOutcome) state"
    by (auto simp: ends_with_mask_def)
  have "ends_with_mask aff A (restrict_and_set os t pkg r ?e) ?R" for r
    unfolding restrict_and_set_def
  proof (rule mask_read [OF reports])
    fix a
    assume a: "wf_cpuset a" "members a = A"
    let ?c = "cpuset_and ?e a"
    have c: "members ?c = members ?e \<inter> A" "wf_cpuset ?c" using e a by simp_all
    show "ends_with_mask aff A (case Some a of None \<Rightarrow> final_set os t pkg r ?e
      | Some a \<Rightarrow>
          (let before = to_range_string ?e; effective = cpuset_and ?e a in
           if cpuset_count effective = 0 then do {
             _ \<leftarrow> warn_blocked t;
             _ \<leftarrow> audit_record os (entry t pkg before [] False ''cgroup'');
             ret BlockedByCgroup
           }
           else (let after = to_range_string effective in
             if before \<noteq> after then downgraded_path os t pkg before after effective
             else final_set os t pkg r effective))) ?R"
    proof (cases "members ?c = {}")
      case True
      then have "cpuset_count ?c = 0" using c(2) by simp
      then show ?thesis
        by (simp add: Let_def) (intro mask_intros quiet_warn quiet_record [OF reports], simp add: shrinks_def)
    next
      case False
      then have "?M \<inter> A \<noteq> {}" "cpuset_count ?c \<noteq> 0" using c sub by auto
      then show ?thesis
        using sub c by (simp add: Let_def)
          (intro conjI impI weaken downgraded_shrinks [OF reports] final_shrinks [OF reports]; auto)
    qed
  qed
  note rest = this
  show ?thesis
  proof (cases "?M = {}")
    case True
    then show ?thesis using p by (simp add: apply_affinity_def Let_def shrinks_def mask_return)
  next
    case False
    have "join_cpuset os t pkg d r topo = ret ()" for d r using stays by (auto simp: join_cpuset_def)
    then have step: "apply_affinity os t pkg p topo = do {
        curr \<leftarrow> backend_get_affinity os t;
        if (case curr of None \<Rightarrow> False | Some c \<Rightarrow> bits c = bits (cpus p)) then do {
          _ \<leftarrow> modify (\<lambda>w. w\<lparr>short_circuit_total := short_circuit_total w + 1\<rparr>);
          _ \<leftarrow> audit_record os (entry t pkg (to_range_string (cpus p)) (to_range_string (cpus p)) True ''already'');
          ret Applied
        }
        else restrict_and_set os t pkg (to_range_string (cpus p)) ?e }"
      using False p by (simp add: apply_affinity_def Let_def)
    have already: "ends_with_mask aff A (do {
        _ \<leftarrow> modify (\<lambda>w. w\<lparr>short_circuit_total := short_circuit_total w + 1\<rparr>);
        _ \<leftarrow> audit_record os e;
        ret Applied }) ?R" if "A = ?M" for e
      using that False by (intro mask_intros quiet_modify quiet_record [OF reports]) (simp_all add: shrinks_def)
    have same: "A = ?M" if "members c = A" "bits c = bits (cpus p)" for c
      using that by (metis CpuSet.surjective old.unit.exhaust)
    show ?thesis
      unfolding step
    proof (rule mask_get [OF reports], goal_cases)
      case 1
      show ?case unfolding option.case if_False by (rule rest)
    next
      case (2 c)
      show ?case
      proof (cases "bits c = bits (cpus p)")
        case True
        show ?thesis unfolding option.case if_P [OF True] by (rule already [OF same [OF 2 True]])
      next
        case False
        show ?thesis unfolding option.case if_not_P [OF False] by (rule rest)
      qed
    qed
  qed
qed

lemma mask_run:
  "ends_with_mask aff A m R \<Longrightarrow> aff (kern w) = A \<Longrightarrow> run_state m w = (x, w') \<Longrightarrow> R x (aff (kern w'))"
  unfolding ends_with_mask_def by (metis fst_conv snd_conv)

section \<open>Affinities only shrink\<close>

text \<open>
  C30. Where threads are not moved to cpusets (no cpuset hierarchy), the affinity step never widens an
  affinity: on success the thread keeps CPUs it already had and the policy names, on any other
  outcome its affinity is unchanged; and a policy none of whose CPUs the thread may use now is
  refused as blocked by the cgroup, although no cgroup limits it.
\<close>

theorem affinity_never_widens:
  assumes "reports_affinity os t aff" and "\<not> cpuset_enabled topo \<or> base_cpuset_fd topo = -1"
    and "wf_cpuset (cpus p)" and "run_state (apply_affinity os t pkg p topo) w = (oc, w')"
  shows "(if oc = Applied \<or> oc = Downgraded
      then aff (kern w') \<noteq> {} \<and> aff (kern w') \<subseteq> members (cpus p) \<inter> aff (kern w)
      else aff (kern w') = aff (kern w)) \<and>
    (members (cpus p) \<noteq> {} \<and> members (cpus p) \<inter> aff (kern w) = {} \<longrightarrow> oc = BlockedByCgroup)"
  using mask_run [OF affinity_shrinks [OF assms(1-3)] refl assms(4)] unfolding shrinks_def .

text \<open>A kernel with one thread, on CPUs 0 and 1 until it is set to a mask with CPU 0, then on CPU 0.\<close>

definition pin_os :: "nat os" where
  "pin_os = demo_os\<lparr>
     os_read_file := \<lambda>_ k. (Some (if k = 0 then ''Cpus_allowed_list:0-1'' else ''Cpus_allowed_list:0''), k),
     os_setaffinity := \<lambda>_ ws k. if 0 \<in> members \<lparr>bits = ws\<rparr> then (None, 1) else (Some EINVAL, k)\<rparr>"

definition pin_aff :: "nat \<Rightarrow> nat set" where
  "pin_aff k = (if k = 0 then {0, 1} else {0})"

lemma pin_lists:
  "allowed_of_lines (str_lines ''Cpus_allowed_list:0-1'') = Some (parse_cpu_ranges ''0-1'' None)"
  "allowed_of_lines (str_lines ''Cpus_allowed_list:0'') = Some (parse_cpu_ranges ''0'' None)"
  by (simp_all add: str_lines_def strip_cr_def is_newline_def char_code_def strip_prefix_def starts_with_def trim_def
      trim_start_def is_ws_def Let_def)

lemma pin_ranges: "members (parse_cpu_ranges ''0-1'' None) = {0, 1}" "members (parse_cpu_ranges ''0'' None) = {0}"
proof -
  have "''0-1'' = to_range_string (fold cpuset_set [0, 1] cpuset_new)" "''0'' = to_range_string (cpuset_set 0 cpuset_new)"
    by code_simp+
  then show "members (parse_cpu_ranges ''0-1'' None) = {0, 1}" "members (parse_cpu_ranges ''0'' None) = {0}"
    by (simp_all add: parse_to_range_string insert_commute)
qed

lemma pin_reports: "reports_affinity pin_os 5 pin_aff"
proof -
  have "run_state (read_allowed_mask pin_os 5) k =
      (Some (parse_cpu_ranges (if k = 0 then ''0-1'' else ''0'') None), k)" for k
    by (simp add: read_allowed_mask_def read_to_string_def pin_os_def pin_lists)
  moreover have "\<exists>a. (Some (parse_cpu_ranges (if k = 0 then ''0-1'' else ''0'') None) = Some a \<and> members a = pin_aff k)" for k
    by (simp add: pin_ranges pin_aff_def)
  ultimately show ?thesis
    by (auto simp: reports_affinity_def pin_os_def pin_aff_def demo_os_def bits_eta)
qed

text \<open>Once on CPU 0, the thread is never given CPU 1 again.\<close>

definition other_policy :: Policy where
  "other_policy = demo_policy\<lparr>cpus := cpuset_set 1 cpuset_new\<rparr>"

theorem affinity_never_widens_witness:
  "\<exists>w'. run_state (apply_affinity pin_os 5 ''a'' other_policy topo_default) (demo_world\<lparr>kern := 1\<rparr>) =
     (BlockedByCgroup, w') \<and> pin_aff (kern w') = {0}"
proof -
  obtain oc w' where r: "run_state (apply_affinity pin_os 5 ''a'' other_policy topo_default) (demo_world\<lparr>kern := 1\<rparr>) = (oc, w')"
    by (cases "run_state (apply_affinity pin_os 5 ''a'' other_policy topo_default) (demo_world\<lparr>kern := 1\<rparr>)")
  have p: "wf_cpuset (cpus other_policy)" "members (cpus other_policy) = {1}" by (simp_all add: other_policy_def)
  have on_0: "pin_aff (kern (demo_world\<lparr>kern := 1\<rparr>)) = {0}" by (simp add: pin_aff_def)
  have "\<not> cpuset_enabled topo_default \<or> base_cpuset_fd topo_default = -1" by (simp add: topo_default_def)
  from affinity_never_widens [OF pin_reports this p(1) r] have "oc = BlockedByCgroup" "pin_aff (kern w') = {0}"
    unfolding on_0 p(2) by auto
  with r show ?thesis by blast
qed

text \<open>
  So a thread pinned by one policy is never moved by a later one with other CPUs (after a reload or a
  scene, say): as long as nothing else changes its affinity, every such policy is refused.
\<close>

lemma pinned_thread_stays:
  assumes "reports_affinity os t aff" and "\<not> cpuset_enabled topo \<or> base_cpuset_fd topo = -1"
    and "wf_cpuset (cpus p)" and "wf_cpuset (cpus q)" and "members (cpus q) \<noteq> {}"
    and "members (cpus p) \<inter> members (cpus q) = {}"
    and "run_state (apply_affinity os t pkg p topo) w = (oc, v)" and "oc = Applied \<or> oc = Downgraded"
    and "aff (kern v') = aff (kern v)"
    and "run_state (apply_affinity os t pkg q topo) v' = (oc', w')"
  shows "oc' = BlockedByCgroup \<and> aff (kern w') = aff (kern v)"
proof -
  have "aff (kern v) \<subseteq> members (cpus p)"
    using mask_run [OF affinity_shrinks [OF assms(1-3)] refl assms(7)] assms(8) by (auto simp: shrinks_def)
  with assms(6) have "members (cpus q) \<inter> aff (kern v') = {}" using assms(9) by auto
  then show ?thesis
    using mask_run [OF affinity_shrinks [OF assms(1,2,4)] refl assms(10)] assms(5,9) by (auto simp: shrinks_def)
qed

end
