(* ===== verification/Tracker.thy ===== *)
theory Tracker
  imports Backend "HOL-Library.AList"
begin

text \<open>
  The process tracker (crates/core/src/tracker.rs): the per-process thread-name cache, entering
  and removing processes with PID-reuse detection, and the reference counts of the cpuset
  directories, whose last reference removes the directory. \<open>refs_ok\<close> is the invariant: the count
  of a directory is the number of tracked processes that hold it.
\<close>

section \<open>Thread names\<close>

definition THREAD_NAME_CACHE_TTL_SECS :: int where "THREAD_NAME_CACHE_TTL_SECS = 60"

definition name_cache_new :: "int \<Rightarrow> ThreadNameCache" where
  "name_cache_new now = \<lparr>names = Map.empty, last_full_refresh = now\<rparr>"

definition expire_names :: "int \<Rightarrow> ThreadNameCache \<Rightarrow> ThreadNameCache" where
  "expire_names now c =
     (if THREAD_NAME_CACHE_TTL_SECS \<le> now - last_full_refresh c
      then \<lparr>names = Map.empty, last_full_refresh = now\<rparr> else c)"

definition get_or_read ::
  "'k os \<Rightarrow> pid \<Rightarrow> int \<Rightarrow> ThreadNameCache \<Rightarrow> ('k, string \<times> ThreadNameCache) state" where
  "get_or_read os tid now c0 =
     (let c = expire_names now c0 in
      case names c tid of
        Some n \<Rightarrow> ret (n, c)
      | None \<Rightarrow> do {
          r \<leftarrow> read_thread_name os tid;
          let n = (case r of None \<Rightarrow> [] | Some s \<Rightarrow> s);
          ret (n, c\<lparr>names := (names c)(tid \<mapsto> n)\<rparr>)
        })"

definition names_clear :: "ThreadNameCache \<Rightarrow> ThreadNameCache" where
  "names_clear c = \<lparr>names = Map.empty, last_full_refresh = 0\<rparr>"

definition names_retain :: "pid set \<Rightarrow> ThreadNameCache \<Rightarrow> ThreadNameCache" where
  "names_retain tids c = c\<lparr>names := (\<lambda>t. if t \<in> tids then names c t else None)\<rparr>"

section \<open>Processes\<close>

definition process_new :: "pid \<Rightarrow> nat \<Rightarrow> string \<Rightarrow> int \<Rightarrow> ProcessState" where
  "process_new p st pkg now = \<lparr>ps_pid = p, ps_pkg = pkg, start_time = st, initial_scan_done = False,
     last_scan_time = 0, applied_tids = {}, applied_dirs = [], tid_names = name_cache_new now\<rparr>"

definition tracker_get :: "pid \<Rightarrow> 'k world \<Rightarrow> ProcessState option" where
  "tracker_get p w = map_of (procs (tracker w)) p"

definition tracker_contains :: "pid \<Rightarrow> 'k world \<Rightarrow> bool" where
  "tracker_contains p w = (tracker_get p w \<noteq> None)"

definition tracker_pids :: "'k world \<Rightarrow> pid list" where
  "tracker_pids w = map fst (procs (tracker w))"

definition put_proc :: "pid \<Rightarrow> ProcessState \<Rightarrow> 'k world \<Rightarrow> 'k world" where
  "put_proc p s w = w\<lparr>tracker := (tracker w)\<lparr>procs := AList.update p s (procs (tracker w))\<rparr>\<rparr>"

definition drop_proc :: "pid \<Rightarrow> 'k world \<Rightarrow> 'k world" where
  "drop_proc p w = w\<lparr>tracker := (tracker w)\<lparr>procs := AList.delete p (procs (tracker w))\<rparr>\<rparr>"

definition set_refs :: "(string \<rightharpoonup> nat) \<Rightarrow> 'k world \<Rightarrow> 'k world" where
  "set_refs r w = w\<lparr>tracker := (tracker w)\<lparr>cpuset_refs := r\<rparr>\<rparr>"

text \<open>A change of an existing process through \<open>get_mut\<close>; nothing happens for an unknown one.\<close>

definition with_proc :: "pid \<Rightarrow> (ProcessState \<Rightarrow> ProcessState) \<Rightarrow> ('k world, unit) state" where
  "with_proc p f =
     modify (\<lambda>w. case tracker_get p w of None \<Rightarrow> w | Some s \<Rightarrow> put_proc p (f s) w)"

section \<open>Directory references\<close>

definition release_dir :: "'k os \<Rightarrow> string \<Rightarrow> unit \<Rightarrow> ('k world, unit) state" where
  "release_dir os dir u =
     (if dir = [] then ret ()
      else do {
        refs \<leftarrow> gets (\<lambda>w. cpuset_refs (tracker w));
        (case refs dir of
           None \<Rightarrow> ret ()
         | Some n \<Rightarrow>
             (if n - 1 = 0 then do {
                _ \<leftarrow> modify (set_refs (refs(dir := None)));
                ok \<leftarrow> on_kern (remove_cpuset_dir os (dir_path dir));
                if ok then forget_cpuset_dir dir else ret ()
              }
              else modify (set_refs (refs(dir \<mapsto> n - 1)))))
      })"

definition release_state :: "'k os \<Rightarrow> ProcessState \<Rightarrow> ('k world, unit) state" where
  "release_state os s = foldM (release_dir os) (applied_dirs s) ()"

definition register_dir :: "pid \<Rightarrow> string \<Rightarrow> 'k world \<Rightarrow> 'k world" where
  "register_dir p d w =
     (case tracker_get p w of
        None \<Rightarrow> w
      | Some s \<Rightarrow>
          (if d = [] \<or> d \<in> set (applied_dirs s) then w
           else
             (let refs = cpuset_refs (tracker w);
                  n = (case refs d of None \<Rightarrow> 0 | Some k \<Rightarrow> k)
              in set_refs (refs(d \<mapsto> n + 1))
                   (put_proc p (s\<lparr>applied_dirs := applied_dirs s @ [d]\<rparr>) w))))"

definition register_dirs :: "pid \<Rightarrow> string list \<Rightarrow> ('k world, unit) state" where
  "register_dirs p dirs = modify (fold (register_dir p) dirs)"

section \<open>Entering and removing\<close>

text \<open>The numbered actions of \<open>enter\<close>: fast path, exec, PID reuse; no process is a new one.\<close>

datatype enter_action = FastPath | ExecUpdate | PidReuse

definition or_zero :: "nat option \<Rightarrow> nat" where
  "or_zero r = (case r of None \<Rightarrow> 0 | Some v \<Rightarrow> v)"

definition enter_decide :: "'k os \<Rightarrow> pid \<Rightarrow> string \<Rightarrow> ProcessState \<Rightarrow> ('k world, enter_action) state" where
  "enter_decide os p pkg ex =
     (if ps_pkg ex = pkg \<or> start_time ex = 0 then ret FastPath
      else do {
        r \<leftarrow> on_kern (read_start_time os p);
        ret (if or_zero r = 0 \<or> or_zero r = start_time ex then ExecUpdate else PidReuse)
      })"

definition insert_new :: "'k os \<Rightarrow> pid \<Rightarrow> string \<Rightarrow> int \<Rightarrow> ('k world, unit) state" where
  "insert_new os p pkg now = do {
     st \<leftarrow> on_kern (read_start_time os p);
     modify (put_proc p (process_new p (or_zero st) pkg now))
   }"

definition tracker_enter :: "'k os \<Rightarrow> pid \<Rightarrow> string \<Rightarrow> int \<Rightarrow> ('k world, unit) state" where
  "tracker_enter os p pkg now = do {
     ex \<leftarrow> gets (tracker_get p);
     (case ex of
        None \<Rightarrow> insert_new os p pkg now
      | Some s \<Rightarrow> do {
          a \<leftarrow> enter_decide os p pkg s;
          (case a of
             FastPath \<Rightarrow> ret ()
           | ExecUpdate \<Rightarrow> with_proc p (\<lambda>s. s\<lparr>ps_pkg := pkg\<rparr>)
           | PidReuse \<Rightarrow> do {
               _ \<leftarrow> modify (drop_proc p);
               _ \<leftarrow> release_state os s;
               insert_new os p pkg now
             })
        })
   }"

definition remove_tid :: "pid \<Rightarrow> pid \<Rightarrow> ('k world, unit) state" where
  "remove_tid p tid = with_proc p (\<lambda>s. s\<lparr>applied_tids := applied_tids s - {tid}\<rparr>)"

definition tracker_remove :: "'k os \<Rightarrow> pid \<Rightarrow> ('k world, bool) state" where
  "tracker_remove os p = do {
     ex \<leftarrow> gets (tracker_get p);
     (case ex of
        None \<Rightarrow> ret False
      | Some s \<Rightarrow> do {
          _ \<leftarrow> modify (drop_proc p);
          _ \<leftarrow> release_state os s;
          ret True
        })
   }"

definition record_applied_tids :: "pid \<Rightarrow> pid set \<Rightarrow> ('k world, unit) state" where
  "record_applied_tids p tids = with_proc p (\<lambda>s. s\<lparr>applied_tids := applied_tids s \<union> tids\<rparr>)"

definition retain_interested :: "'k os \<Rightarrow> string set \<Rightarrow> ('k world, unit) state" where
  "retain_interested os pkg_set = do {
     stale \<leftarrow> gets (\<lambda>w. map fst (filter (\<lambda>(_, s). ps_pkg s \<notin> pkg_set) (procs (tracker w))));
     foldM (\<lambda>p _. do { _ \<leftarrow> tracker_remove os p; ret () }) stale ()
   }"

end
