(* ===== verification/Relock.thy ===== *)
theory Relock
  imports Tracker
begin

text \<open>
  Relock control (crates/core/src/relock.rs): who owns a process's cpuset, the sampled coverage
  by the system, the common cooldown gate, and the adaptive period, a state machine over a
  window of samples whose rank selects 3, 10, 60 or 300 seconds.
\<close>

section \<open>Coverage\<close>

definition read_cpuset_owner :: "'k os \<Rightarrow> pid \<Rightarrow> ('k, string option) state" where
  "read_cpuset_owner os p = do {
     r \<leftarrow> sys (os_read_file os (proc_path p ''cpuset''));
     ret (case r of None \<Rightarrow> None | Some s \<Rightarrow> if trim s = [] then None else Some (trim s))
   }"

function trim_start_matches :: "string \<Rightarrow> string \<Rightarrow> string" where
  "trim_start_matches p s =
     (if p \<noteq> [] \<and> starts_with p s then trim_start_matches p (drop (length p) s) else s)"
  by pat_completeness auto

termination
proof (relation "measure (\<lambda>(p, s). length s)", simp)
  fix p s :: string
  assume "p \<noteq> [] \<and> starts_with p s"
  then have "p \<noteq> []" "s \<noteq> []" by (auto simp: starts_with_def)
  then show "((p, drop (length p) s), p, s) \<in> measure (\<lambda>(p, s). length s)" by simp
qed

declare trim_start_matches.simps [simp del]

definition owner_is_ours :: "string \<Rightarrow> string \<Rightarrow> bool" where
  "owner_is_ours owner base =
     (starts_with (base @ ''/'') owner \<or>
      starts_with (trim_start_matches ''/dev/cpuset'' base @ ''/'') owner)"

definition is_in_our_cpuset :: "'k os \<Rightarrow> pid \<Rightarrow> string \<Rightarrow> ('k, bool) state" where
  "is_in_our_cpuset os p base = do {
     r \<leftarrow> read_cpuset_owner os p;
     ret (case r of None \<Rightarrow> False | Some owner \<Rightarrow> owner_is_ours owner base)
   }"

definition sample_coverage :: "'k os \<Rightarrow> string \<Rightarrow> ('k world, f64) state" where
  "sample_coverage os base = do {
     pids \<leftarrow> gets tracker_pids;
     if pids = [] then ret (Fin 0)
     else do {
       covered \<leftarrow> foldM (\<lambda>p n. do {
           mine \<leftarrow> on_kern (is_in_our_cpuset os p base);
           ret (if mine then n else n + 1)
         }) pids 0;
       ret (f_div (f_of_nat covered) (f_of_nat (length pids)))
     }
   }"

section \<open>The cooldown gate\<close>

record RelockGuard =
  last_at :: instant
  cooldown_ms :: u64

definition guard_new :: "instant \<Rightarrow> RelockGuard" where
  "guard_new now = \<lparr>last_at = now - int (from_secs 3600), cooldown_ms = 0\<rparr>"

definition elapsed_ms :: "instant \<Rightarrow> instant \<Rightarrow> u64" where
  "elapsed_ms now t = of_nat (duration_since now t div 1000000)"

definition try_lock :: "instant \<Rightarrow> RelockGuard \<Rightarrow> bool \<times> RelockGuard" where
  "try_lock now g =
     (if cooldown_ms g \<le> elapsed_ms now (last_at g) then (True, g\<lparr>last_at := now\<rparr>) else (False, g))"

definition set_cooldown :: "u64 \<Rightarrow> RelockGuard \<Rightarrow> RelockGuard" where
  "set_cooldown ms g = g\<lparr>cooldown_ms := ms\<rparr>"

text \<open>In milliseconds.\<close>

definition remaining :: "instant \<Rightarrow> RelockGuard \<Rightarrow> nat" where
  "remaining now g = unat (cooldown_ms g) - unat (elapsed_ms now (last_at g))"

section \<open>The adaptive period\<close>

definition INTERVALS_SECS :: "nat list" where "INTERVALS_SECS = [3, 10, 60, 300]"
definition DEFAULT_INTERVAL :: nat where "DEFAULT_INTERVAL = 60"
definition SAMPLE_INTERVAL_SECS :: nat where "SAMPLE_INTERVAL_SECS = 2"
definition WINDOW_SAMPLES :: nat where "WINDOW_SAMPLES = 15"
definition COVER_RATIO_SHRINK :: rat where "COVER_RATIO_SHRINK = 1 / 2"
definition STABLE_SECS_EXTEND :: nat where "STABLE_SECS_EXTEND = 60"

lemmas relock_consts = INTERVALS_SECS_def DEFAULT_INTERVAL_def SAMPLE_INTERVAL_SECS_def
  WINDOW_SAMPLES_def COVER_RATIO_SHRINK_def STABLE_SECS_EXTEND_def

record AdaptiveRelock =
  rank :: nat
  samples :: "bool list"
  stable_secs :: nat

fun position :: "('a \<Rightarrow> bool) \<Rightarrow> 'a list \<Rightarrow> nat option" where
  "position P [] = None"
| "position P (x # xs) = (if P x then Some 0 else map_option Suc (position P xs))"

definition adaptive_new :: AdaptiveRelock where
  "adaptive_new =
     \<lparr>rank = (case position (\<lambda>v. v = DEFAULT_INTERVAL) INTERVALS_SECS of None \<Rightarrow> 2 | Some i \<Rightarrow> i),
      samples = [], stable_secs = 0\<rparr>"

text \<open>The distance is computed on \<open>i64\<close>, where it can wrap.\<close>

definition dist64 :: "u64 \<Rightarrow> nat \<Rightarrow> int" where
  "dist64 secs v = (let d = of_nat v - secs in sint (if sint d < 0 then - d else d))"

text \<open>\<open>min_by_key\<close> returns the first of the least elements.\<close>

fun min_by_key :: "('a \<Rightarrow> int) \<Rightarrow> 'a list \<Rightarrow> 'a option" where
  "min_by_key f [] = None"
| "min_by_key f (x # xs) =
     (case min_by_key f xs of None \<Rightarrow> Some x | Some y \<Rightarrow> if f y < f x then Some y else Some x)"

definition from_initial :: "u64 \<Rightarrow> AdaptiveRelock" where
  "from_initial secs =
     \<lparr>rank = (case min_by_key (\<lambda>(_, v). dist64 secs v) (enumerate 0 INTERVALS_SECS) of
                None \<Rightarrow> 2 | Some (i, _) \<Rightarrow> i),
      samples = [], stable_secs = 0\<rparr>"

definition interval_secs :: "AdaptiveRelock \<Rightarrow> nat" where
  "interval_secs a = INTERVALS_SECS ! rank a"

definition push_sample :: "bool \<Rightarrow> bool list \<Rightarrow> bool list" where
  "push_sample b xs =
     (let ys = xs @ [b] in if WINDOW_SAMPLES < length ys then tl ys else ys)"

definition covered_count :: "bool list \<Rightarrow> nat" where
  "covered_count xs = length (filter id xs)"

definition window_covered :: "bool list \<Rightarrow> bool" where
  "window_covered xs = (COVER_RATIO_SHRINK \<le> of_nat (covered_count xs) / of_nat (length xs))"

definition shrink :: "AdaptiveRelock \<Rightarrow> AdaptiveRelock" where
  "shrink a = a\<lparr>stable_secs := 0, rank := rank a - 1\<rparr>"

definition extend_stable :: "AdaptiveRelock \<Rightarrow> AdaptiveRelock" where
  "extend_stable a =
     (let t = stable_secs a + SAMPLE_INTERVAL_SECS in
      if STABLE_SECS_EXTEND \<le> t
      then a\<lparr>stable_secs := 0,
             rank := (if rank a < length INTERVALS_SECS - 1 then rank a + 1 else rank a)\<rparr>
      else a\<lparr>stable_secs := t\<rparr>)"

definition observe :: "bool \<Rightarrow> AdaptiveRelock \<Rightarrow> AdaptiveRelock" where
  "observe covered a0 =
     (let a = a0\<lparr>samples := push_sample covered (samples a0)\<rparr> in
      if length (samples a) < WINDOW_SAMPLES then a
      else if window_covered (samples a) then shrink a
      else if covered_count (samples a) = 0 then extend_stable a
      else a\<lparr>stable_secs := 0\<rparr>)"

definition observe_ratio :: "f64 \<Rightarrow> AdaptiveRelock \<Rightarrow> AdaptiveRelock" where
  "observe_ratio ratio a0 =
     (let a = a0\<lparr>samples := push_sample (f_ge ratio (Fin COVER_RATIO_SHRINK)) (samples a0)\<rparr> in
      if length (samples a) < WINDOW_SAMPLES then a
      else if window_covered (samples a) then shrink a
      else if f_eq ratio (Fin 0) then extend_stable a
      else a\<lparr>stable_secs := 0\<rparr>)"

section \<open>Lemmas\<close>

definition adaptive_ok :: "AdaptiveRelock \<Rightarrow> bool" where
  "adaptive_ok a \<longleftrightarrow> rank a < 4 \<and> length (samples a) \<le> 15 \<and> stable_secs a < 60 \<and> even (stable_secs a)"

lemma push_sample_length: "length xs \<le> 15 \<Longrightarrow> length (push_sample b xs) = min 15 (length xs + 1)"
  by (auto simp: push_sample_def Let_def relock_consts)

lemma extend_ok: "adaptive_ok a \<Longrightarrow> adaptive_ok (extend_stable a)"
  by (auto simp: adaptive_ok_def extend_stable_def Let_def relock_consts)

lemma shrink_ok: "adaptive_ok a \<Longrightarrow> adaptive_ok (shrink a)"
  by (auto simp: adaptive_ok_def shrink_def)

lemma push_ok: "adaptive_ok a \<Longrightarrow> adaptive_ok (a\<lparr>samples := push_sample b (samples a)\<rparr>)"
  by (simp add: adaptive_ok_def push_sample_length)

lemma reset_ok: "adaptive_ok a \<Longrightarrow> adaptive_ok (a\<lparr>stable_secs := 0\<rparr>)"
  by (simp add: adaptive_ok_def)

lemma observe_ratio_ok: "adaptive_ok a \<Longrightarrow> adaptive_ok (observe_ratio r a)"
  unfolding observe_ratio_def Let_def
  using push_ok [of a "f_ge r (Fin COVER_RATIO_SHRINK)"] by (auto intro: extend_ok shrink_ok reset_ok)

lemma observe_ok: "adaptive_ok a \<Longrightarrow> adaptive_ok (observe c a)"
  unfolding observe_def Let_def
  using push_ok [of a c] by (auto intro: extend_ok shrink_ok reset_ok)

lemma observe_ratios_ok: "adaptive_ok a \<Longrightarrow> adaptive_ok (fold observe_ratio rs a)"
  by (induction rs arbitrary: a) (simp_all add: observe_ratio_ok)

lemma min_by_key_None [simp]: "min_by_key f xs = None \<longleftrightarrow> xs = []"
  by (cases xs) (auto split: option.splits)

lemma min_by_key_in: "min_by_key f xs = Some y \<Longrightarrow> y \<in> set xs \<and> (\<forall>x \<in> set xs. f y \<le> f x)"
  by (induction xs arbitrary: y) (auto split: option.splits if_splits)

lemma from_initial_ok: "adaptive_ok (from_initial secs)"
proof -
  have "i < 4" if "min_by_key (\<lambda>(_, v). dist64 secs v) (enumerate 0 INTERVALS_SECS) = Some (i, v)" for i v
    using min_by_key_in [OF that] by (auto simp: in_set_enumerate_eq INTERVALS_SECS_def)
  then show ?thesis
    by (auto simp: from_initial_def adaptive_ok_def split: option.splits)
qed

lemma adaptive_new_ok: "adaptive_ok adaptive_new"
  by (simp add: adaptive_ok_def adaptive_new_def relock_consts)

lemma interval_in: "adaptive_ok a \<Longrightarrow> interval_secs a \<in> {3, 10, 60, 300}"
  by (auto simp: adaptive_ok_def interval_secs_def INTERVALS_SECS_def nth_Cons split: nat.splits)

lemma try_lock_spec:
  "fst (try_lock now g) \<longleftrightarrow> cooldown_ms g \<le> elapsed_ms now (last_at g)"
  "snd (try_lock now g) = (if fst (try_lock now g) then g\<lparr>last_at := now\<rparr> else g)"
  by (simp_all add: try_lock_def)

end
