(* ===== verification/Relock_Facts.thy ===== *)
theory Relock_Facts
  imports Relock
begin

text \<open>
  The adaptive period over sequences of samples: the window holds the newest 15 samples, the
  quiet time is bounded by the run of zero samples, and two liveness facts, that a covered
  system brings the period down to its minimum and a quiet one up to its maximum.
\<close>

section \<open>The window\<close>

abbreviation covers :: "f64 \<Rightarrow> bool" where
  "covers r \<equiv> f_ge r (Fin COVER_RATIO_SHRINK)"

abbreviation zero_ratio :: "f64 \<Rightarrow> bool" where
  "zero_ratio r \<equiv> f_eq r (Fin 0)"

lemma zero_not_covers: "zero_ratio r \<Longrightarrow> \<not> covers r"
  by (auto simp: f_eq_def f_ge_def COVER_RATIO_SHRINK_def)

lemma push_sample_drop: "length xs \<le> 15 \<Longrightarrow> push_sample b xs = drop (length xs + 1 - 15) (xs @ [b])"
  by (cases "length xs = 15") (auto simp: push_sample_def Let_def relock_consts drop_Suc tl_append split: list.splits)

lemma drop_snoc_window:
  assumes "zs' = drop (length zs - 15) zs"
  shows "drop (length zs' + 1 - 15) (zs' @ [b]) = drop (length zs + 1 - 15) (zs @ [b])"
proof (cases "length zs < 15")
  case False
  then have "zs' @ [b] = drop (length zs - 15) (zs @ [b])" using assms by simp
  moreover have "Suc (length zs - 15) = length zs - 14" using False by simp
  ultimately show ?thesis using False assms by (simp del: drop_append)
qed (use assms in simp)

lemma fold_push:
  assumes "length xs \<le> 15"
  shows "fold push_sample bs xs = drop (length xs + length bs - 15) (xs @ bs)"
proof (induction bs rule: rev_induct)
  case Nil
  then show ?case using assms by simp
next
  case (snoc b bs)
  let ?ys = "drop (length xs + length bs - 15) (xs @ bs)"
  have len: "length ?ys \<le> 15" by simp
  have "fold push_sample (bs @ [b]) xs = drop (length ?ys + 1 - 15) (?ys @ [b])"
    using snoc push_sample_drop [OF len] by simp
  also have "\<dots> = drop (length (xs @ bs) + 1 - 15) ((xs @ bs) @ [b])"
    by (rule drop_snoc_window) simp
  finally show ?case by simp
qed

lemma observe_ratio_samples [simp]:
  "samples (observe_ratio r a) = push_sample (covers r) (samples a)"
  by (simp add: observe_ratio_def Let_def shrink_def extend_stable_def)

lemma fold_samples: "samples (fold observe_ratio rs a) = fold push_sample (map covers rs) (samples a)"
  by (induction rs arbitrary: a) simp_all

lemma window_after:
  assumes "adaptive_ok a" and "15 \<le> length rs"
  shows "samples (fold observe_ratio rs a) = map covers (drop (length rs - 15) rs)"
proof -
  have "length (samples a) \<le> 15" using assms(1) by (simp add: adaptive_ok_def)
  then show ?thesis using assms(2) by (simp add: fold_samples fold_push drop_map)
qed

lemma window_all:
  assumes "adaptive_ok a" and "15 \<le> length rs" and "\<forall>r \<in> set rs. covers r = b"
  shows "samples (fold observe_ratio rs a) = replicate 15 b"
proof -
  have "\<forall>r \<in> set (drop (length rs - 15) rs). covers r = b" using assms(3) by (meson in_set_dropD)
  then have "map covers (drop (length rs - 15) rs) = map (\<lambda>_. b) (drop (length rs - 15) rs)" by simp
  then show ?thesis using window_after [OF assms(1,2)] assms(2) by (simp add: map_replicate_const)
qed

section \<open>Down\<close>

lemma covered_full: "window_covered (replicate 15 True)"
  by (simp add: window_covered_def covered_count_def COVER_RATIO_SHRINK_def)

lemma observe_covered:
  assumes "samples (observe_ratio r a) = replicate 15 True"
  shows "rank (observe_ratio r a) = rank a - 1"
  using assms covered_full unfolding observe_ratio_samples
  by (simp add: observe_ratio_def Let_def WINDOW_SAMPLES_def shrink_def)

lemma covered_descends:
  assumes "adaptive_ok a" and "\<forall>r \<in> set rs. covers r" and "14 \<le> length rs"
  shows "rank (fold observe_ratio rs a) \<le> 3 - (length rs - 14)"
  using assms(2,3)
proof (induction rs rule: rev_induct)
  case (snoc r rs)
  let ?b = "fold observe_ratio rs a"
  show ?case
  proof (cases "length rs = 13")
    case True
    then show ?thesis using observe_ratios_ok [OF assms(1), of "rs @ [r]"] by (simp add: adaptive_ok_def)
  next
    case False
    then have "rank ?b \<le> 3 - (length rs - 14)" using snoc by simp
    moreover have "samples (fold observe_ratio (rs @ [r]) a) = replicate 15 True"
      using snoc.prems False by (intro window_all [OF assms(1)]) auto
    ultimately show ?thesis using observe_covered [of r ?b] False snoc.prems by simp
  qed
qed simp

section \<open>Up\<close>

definition level :: "AdaptiveRelock \<Rightarrow> nat" where
  "level a = (if rank a = 3 then 180 else rank a * 60 + stable_secs a)"

lemma extend_level:
  assumes "adaptive_ok a"
  shows "min 180 (level a + 2) \<le> level (extend_stable a)"
  using assms by (auto simp: level_def extend_stable_def Let_def relock_consts adaptive_ok_def)

lemma observe_quiet:
  assumes "samples (observe_ratio r a) = replicate 15 False" and "zero_ratio r"
  shows "level (observe_ratio r a) = level (extend_stable a)"
  using assms unfolding observe_ratio_samples
  by (simp add: observe_ratio_def Let_def WINDOW_SAMPLES_def window_covered_def covered_count_def
      COVER_RATIO_SHRINK_def extend_stable_def level_def)

lemma quiet_ascends:
  assumes "adaptive_ok a" and "\<forall>r \<in> set rs. zero_ratio r" and "14 \<le> length rs"
  shows "min 180 (2 * (length rs - 14)) \<le> level (fold observe_ratio rs a)"
  using assms(2,3)
proof (induction rs rule: rev_induct)
  case (snoc r rs)
  let ?b = "fold observe_ratio rs a"
  show ?case
  proof (cases "length rs = 13")
    case False
    then have "min 180 (2 * (length rs - 14)) \<le> level ?b" using snoc by simp
    moreover have "samples (fold observe_ratio (rs @ [r]) a) = replicate 15 False"
      using snoc.prems False zero_not_covers by (intro window_all [OF assms(1)]) auto
    ultimately show ?thesis
      using observe_quiet [of r ?b] extend_level [OF observe_ratios_ok [OF assms(1)], of rs] snoc.prems False
      by simp
  qed simp
qed simp

section \<open>The quiet time\<close>

definition zero_run :: "f64 list \<Rightarrow> nat" where
  "zero_run rs = length (takeWhile zero_ratio (rev rs))"

lemma zero_run_snoc: "zero_run (rs @ [r]) = (if zero_ratio r then Suc (zero_run rs) else 0)"
  by (simp add: zero_run_def)

lemma zero_run_drop: "n \<le> zero_run rs \<Longrightarrow> n \<le> length rs \<and> (\<forall>r \<in> set (drop (length rs - n) rs). zero_ratio r)"
proof
  assume n: "n \<le> zero_run rs"
  have le: "zero_run rs \<le> length rs" using length_takeWhile_le [of _ "rev rs"] by (simp add: zero_run_def)
  with n show "n \<le> length rs" by simp
  have "set (drop (length rs - n) rs) = set (take n (rev rs))" by (simp add: take_rev)
  also have "\<dots> \<subseteq> set (takeWhile zero_ratio (rev rs))"
    using n unfolding zero_run_def by (metis set_take_subset_set_take takeWhile_eq_take)
  finally show "\<forall>r \<in> set (drop (length rs - n) rs). zero_ratio r" by (auto dest: set_takeWhileD)
qed

lemma observe_ratio_stable:
  "stable_secs (observe_ratio r a) =
     (if length (push_sample (covers r) (samples a)) < 15 then stable_secs a
      else if window_covered (push_sample (covers r) (samples a)) then 0
      else if zero_ratio r then stable_secs (extend_stable a) else 0)"
  by (simp add: observe_ratio_def Let_def WINDOW_SAMPLES_def shrink_def extend_stable_def)

lemma stable_bound:
  assumes "samples a = []" and "stable_secs a = 0"
  shows "stable_secs (fold observe_ratio rs a) \<le> 2 * zero_run rs \<and>
    (length rs < 15 \<longrightarrow> stable_secs (fold observe_ratio rs a) = 0)"
proof (induction rs rule: rev_induct)
  case Nil
  then show ?case using assms by simp
next
  case (snoc r rs)
  let ?b = "fold observe_ratio rs a"
  have "length (fold push_sample bs []) = min 15 (length bs)" for bs :: "bool list"
    by (simp add: fold_push)
  from this [of "map covers (rs @ [r])"] fold_samples [of "rs @ [r]" a] assms(1)
  have len: "length (push_sample (covers r) (samples ?b)) = min 15 (length rs + 1)"
    by simp
  note step = observe_ratio_stable [of r ?b, unfolded len]
  have "stable_secs (extend_stable ?b) \<le> stable_secs ?b + 2"
    by (simp add: extend_stable_def Let_def relock_consts)
  with snoc show ?case by (auto simp: step zero_run_snoc)
qed

lemma rank_grows:
  assumes "rank a < rank (observe_ratio r a)"
  shows "zero_ratio r \<and> 58 \<le> stable_secs a"
  using assms
  by (auto simp: observe_ratio_def Let_def shrink_def extend_stable_def relock_consts split: if_splits)

section \<open>The gate\<close>

text \<open>The instants at which a sequence of attempts is granted.\<close>

fun grants :: "instant list \<Rightarrow> RelockGuard \<Rightarrow> instant list" where
  "grants [] g = []"
| "grants (t # ts) g =
     (if fst (try_lock t g) then t # grants ts (snd (try_lock t g)) else grants ts (snd (try_lock t g)))"

lemma try_lock_cooldown [simp]: "cooldown_ms (snd (try_lock t g)) = cooldown_ms g"
  by (simp add: try_lock_def)

lemma grants_spaced:
  "successively (\<lambda>s t. cooldown_ms g \<le> elapsed_ms t s) (last_at g # grants ts g)"
proof (induction ts arbitrary: g)
  case (Cons t ts)
  from Cons.IH [of "snd (try_lock t g)"] show ?case
    by (auto simp: try_lock_spec(1) try_lock_def split: if_splits)
qed simp

end
