(* ===== verification/Observe.thy ===== *)
theory Observe
  imports Tracker
begin

text \<open>
  Observation (crates/core/src/observe.rs): thread snapshots sampled from the kernel, and a
  window of samples per thread with its statistics (migrations, affinity changes, distribution
  over CPUs, load). Hash maps are association lists; \<open>window_ok\<close> is their invariant.
\<close>

record ThreadSnapshot =
  sn_tid :: pid
  sn_name :: string
  sn_affinity :: string
  running_cpu :: "nat option"
  load_pct :: nat
  cpu_ticks :: nat

record ThreadStats =
  ts_tid :: pid
  ts_name :: string
  migrations :: nat
  affinity_changes :: nat
  cpu_distribution :: "(nat \<times> nat) list"
  ts_samples :: nat
  avg_load_pct :: nat
  max_load_pct :: nat
  primary_cpu :: "nat option"

fun max_entry :: "(nat \<times> nat) list \<Rightarrow> (nat \<times> nat) option" where
  "max_entry [] = None"
| "max_entry (e # es) =
     (case max_entry es of None \<Rightarrow> Some e | Some m \<Rightarrow> if snd m < snd e then Some e else Some m)"

definition compute_primary :: "ThreadStats \<Rightarrow> ThreadStats" where
  "compute_primary st = st\<lparr>primary_cpu := map_option fst (max_entry (cpu_distribution st))\<rparr>"

type_synonym window_sample = "nat \<times> nat option \<times> string"

record SnapshotWindow =
  w_recent :: "(pid \<times> window_sample list) list"
  w_stats :: "(pid \<times> ThreadStats) list"
  w_seq :: nat

definition OBSERVE_WINDOW :: nat where "OBSERVE_WINDOW = 150"

definition window_new :: SnapshotWindow where
  "window_new = \<lparr>w_recent = [], w_stats = [], w_seq = 0\<rparr>"

definition stats_new :: "ThreadSnapshot \<Rightarrow> ThreadStats" where
  "stats_new s = \<lparr>ts_tid = sn_tid s, ts_name = sn_name s, migrations = 0, affinity_changes = 0,
     cpu_distribution = [], ts_samples = 0, avg_load_pct = 0, max_load_pct = 0, primary_cpu = None\<rparr>"

definition bump_cpu :: "nat \<Rightarrow> (nat \<times> nat) list \<Rightarrow> (nat \<times> nat) list" where
  "bump_cpu c d = AList.update c ((case map_of d c of None \<Rightarrow> 0 | Some n \<Rightarrow> n) + 1) d"

definition count_sample :: "ThreadSnapshot \<Rightarrow> ThreadStats \<Rightarrow> ThreadStats" where
  "count_sample s st =
     (let n = ts_samples st + 1 in
      st\<lparr>ts_name := sn_name s, ts_samples := n,
         avg_load_pct := (avg_load_pct st * (n - 1) + load_pct s) div n,
         max_load_pct := max (max_load_pct st) (load_pct s),
         cpu_distribution := (case running_cpu s of None \<Rightarrow> cpu_distribution st
                              | Some c \<Rightarrow> bump_cpu c (cpu_distribution st))\<rparr>)"

text \<open>Comparison with the previous sample of the thread.\<close>

definition count_changes :: "ThreadSnapshot \<Rightarrow> window_sample list \<Rightarrow> ThreadStats \<Rightarrow> ThreadStats" where
  "count_changes s q st =
     (if q = [] then st
      else (case last q of (_, prev_cpu, prev_aff) \<Rightarrow>
        st\<lparr>migrations := migrations st +
             (case (running_cpu s, prev_cpu) of
                (Some c, Some p) \<Rightarrow> if c \<noteq> p then 1 else 0 | _ \<Rightarrow> 0),
           affinity_changes := affinity_changes st + (if prev_aff \<noteq> sn_affinity s then 1 else 0)\<rparr>))"

definition push_window :: "window_sample \<Rightarrow> window_sample list \<Rightarrow> window_sample list" where
  "push_window x q = (let q' = q @ [x] in drop (length q' - OBSERVE_WINDOW) q')"

definition or_empty :: "'a list option \<Rightarrow> 'a list" where
  "or_empty r = (case r of None \<Rightarrow> [] | Some xs \<Rightarrow> xs)"

definition push_snapshot :: "nat \<Rightarrow> ThreadSnapshot \<Rightarrow> SnapshotWindow \<Rightarrow> SnapshotWindow" where
  "push_snapshot n s w =
     (let st0 = (case map_of (w_stats w) (sn_tid s) of None \<Rightarrow> stats_new s | Some st \<Rightarrow> st);
          q = or_empty (map_of (w_recent w) (sn_tid s));
          st = compute_primary (count_changes s q (count_sample s st0))
      in w\<lparr>w_stats := AList.update (sn_tid s) st (w_stats w),
           w_recent := AList.update (sn_tid s)
             (push_window (n, running_cpu s, sn_affinity s) q) (w_recent w)\<rparr>)"

definition push_batch :: "ThreadSnapshot list \<Rightarrow> SnapshotWindow \<Rightarrow> SnapshotWindow" where
  "push_batch snaps w0 =
     (let w = w0\<lparr>w_seq := w_seq w0 + 1\<rparr> in fold (push_snapshot (w_seq w)) snaps w)"

definition stats_sorted :: "SnapshotWindow \<Rightarrow> ThreadStats list" where
  "stats_sorted w = sort_key ts_tid (map snd (w_stats w))"

definition stats_of :: "pid \<Rightarrow> SnapshotWindow \<Rightarrow> ThreadStats option" where
  "stats_of tid w = map_of (w_stats w) tid"

definition recent_sample :: "pid \<Rightarrow> SnapshotWindow \<Rightarrow> (nat option \<times> string) option" where
  "recent_sample tid w =
     (case map_of (w_recent w) tid of
        None \<Rightarrow> None | Some q \<Rightarrow> if q = [] then None else Some (snd (last q)))"

definition window_retain :: "pid set \<Rightarrow> SnapshotWindow \<Rightarrow> SnapshotWindow" where
  "window_retain alive w =
     w\<lparr>w_recent := filter (\<lambda>kv. fst kv \<in> alive) (w_recent w),
       w_stats := filter (\<lambda>kv. fst kv \<in> alive) (w_stats w)\<rparr>"

section \<open>The sampler\<close>

record Sampler =
  last_cpu :: "pid \<rightharpoonup> nat"
  sp_interval :: nat
  hz :: nat

definition sampler_new :: "nat \<Rightarrow> Sampler" where
  "sampler_new secs = \<lparr>last_cpu = Map.empty, sp_interval = max secs 1, hz = 100\<rparr>"

text \<open>Products wrap at 64 bits.\<close>

definition load_of :: "Sampler \<Rightarrow> pid \<Rightarrow> nat \<Rightarrow> nat" where
  "load_of sp tid ticks =
     (case last_cpu sp tid of
        None \<Rightarrow> 0
      | Some prev \<Rightarrow>
          (if prev \<le> ticks
           then min 100 ((((ticks - prev) * 100) mod 2 ^ 64) div max ((sp_interval sp * hz sp) mod 2 ^ 64) 1)
           else 0))"

definition sample_thread ::
  "'k os \<Rightarrow> string \<Rightarrow> pid \<Rightarrow> Sampler \<times> ThreadSnapshot list \<Rightarrow>
   ('k, Sampler \<times> ThreadSnapshot list) state" where
  "sample_thread os allowed tid acc = do {
     nm \<leftarrow> read_thread_name os tid;
     cpu \<leftarrow> read_processor os tid;
     tk \<leftarrow> read_thread_cpu_secs os tid;
     let ticks = or_zero tk;
     let sp = fst acc;
     ret (sp\<lparr>last_cpu := (last_cpu sp)(tid \<mapsto> ticks)\<rparr>,
          snd acc @ [\<lparr>sn_tid = tid, sn_name = (case nm of None \<Rightarrow> [] | Some s \<Rightarrow> s),
            sn_affinity = allowed, running_cpu = cpu, load_pct = load_of sp tid ticks,
            cpu_ticks = ticks\<rparr>])
   }"

text \<open>The iteration order of the set of threads is the argument \<open>order\<close>.\<close>

definition sample_process ::
  "'k os \<Rightarrow> (pid set \<Rightarrow> pid list) \<Rightarrow> pid \<times> ProcessState \<Rightarrow> Sampler \<times> ThreadSnapshot list \<Rightarrow>
   ('k, Sampler \<times> ThreadSnapshot list) state" where
  "sample_process os order ps acc = do {
     m \<leftarrow> read_allowed_mask os (fst ps);
     foldM (sample_thread os (case m of None \<Rightarrow> [] | Some c \<Rightarrow> to_range_string c))
       (order (applied_tids (snd ps))) acc
   }"

definition sampler_sample ::
  "'k os \<Rightarrow> (pid set \<Rightarrow> pid list) \<Rightarrow> Sampler \<Rightarrow> ('k world, Sampler \<times> ThreadSnapshot list) state" where
  "sampler_sample os order sp = do {
     ps \<leftarrow> gets (\<lambda>w. procs (tracker w));
     on_kern (foldM (sample_process os order) ps (sp, []))
   }"

section \<open>Lemmas\<close>

definition dist_total :: "(nat \<times> nat) list \<Rightarrow> nat" where
  "dist_total d = sum_list (map snd d)"

lemma dist_total_bump: "dist_total (bump_cpu c d) = dist_total d + 1"
proof -
  have "dist_total (AList.update c ((case map_of d c of None \<Rightarrow> 0 | Some n \<Rightarrow> n) + 1) d) = dist_total d + 1"
    by (induction d) (auto simp: dist_total_def split: option.splits)
  then show ?thesis by (simp add: bump_cpu_def)
qed

definition stat_ok :: "ThreadStats \<Rightarrow> bool" where
  "stat_ok st \<longleftrightarrow> avg_load_pct st \<le> max_load_pct st \<and> max_load_pct st \<le> 100 \<and>
     migrations st \<le> ts_samples st \<and> affinity_changes st \<le> ts_samples st \<and>
     dist_total (cpu_distribution st) \<le> ts_samples st"

definition window_ok :: "SnapshotWindow \<Rightarrow> bool" where
  "window_ok w \<longleftrightarrow> (\<forall>kv \<in> set (w_stats w). stat_ok (snd kv)) \<and>
     (\<forall>kv \<in> set (w_recent w). length (snd kv) \<le> OBSERVE_WINDOW)"

lemma avg_le: "a \<le> m \<Longrightarrow> x \<le> m \<Longrightarrow> (a * n + x) div (n + 1) \<le> (m :: nat)"
proof -
  assume "a \<le> m" "x \<le> m"
  then have "a * n + x \<le> m * n + m" by (intro add_mono mult_right_mono) auto
  also have "\<dots> = m * (n + 1)" by simp
  finally show ?thesis by (metis div_le_mono div_mult_self_is_m less_add_one zero_less_Suc Suc_eq_plus1)
qed

lemma count_sample_ok:
  assumes "stat_ok st" and "load_pct s \<le> 100"
  shows "stat_ok (count_sample s st)"
  using assms avg_le [of "avg_load_pct st" "max (max_load_pct st) (load_pct s)" "load_pct s" "ts_samples st"]
  by (auto simp: stat_ok_def count_sample_def Let_def dist_total_bump split: option.splits)

lemma count_sample_strict:
  "stat_ok st \<Longrightarrow> migrations (count_sample s st) < ts_samples (count_sample s st) \<and>
     affinity_changes (count_sample s st) < ts_samples (count_sample s st)"
  by (auto simp: stat_ok_def count_sample_def Let_def)

lemma count_changes_ok:
  "stat_ok st \<Longrightarrow> migrations st < ts_samples st \<Longrightarrow> affinity_changes st < ts_samples st \<Longrightarrow>
   stat_ok (count_changes s q st)"
  by (auto simp: stat_ok_def count_changes_def split: prod.splits option.splits)

lemma primary_ok: "stat_ok st \<Longrightarrow> stat_ok (compute_primary st)"
  by (simp add: stat_ok_def compute_primary_def)

lemma stats_new_ok: "stat_ok (stats_new s)"
  by (simp add: stat_ok_def stats_new_def dist_total_def)

lemma push_window_length: "length (push_window x q) \<le> OBSERVE_WINDOW"
  by (simp add: push_window_def Let_def)

lemma alist_update_sub: "set (AList.update k v xs) \<subseteq> insert (k, v) (set xs)"
  by (induction xs) auto

lemma window_put:
  assumes "window_ok w" and "stat_ok st" and "length q \<le> OBSERVE_WINDOW"
  shows "window_ok (w\<lparr>w_stats := AList.update k st (w_stats w), w_recent := AList.update k q (w_recent w)\<rparr>)"
  using assms alist_update_sub [of k st "w_stats w"] alist_update_sub [of k q "w_recent w"]
  by (auto simp: window_ok_def)

lemma push_snapshot_ok:
  assumes "window_ok w" and "load_pct s \<le> 100"
  shows "window_ok (push_snapshot n s w)"
proof -
  define st0 where "st0 = (case map_of (w_stats w) (sn_tid s) of None \<Rightarrow> stats_new s | Some st \<Rightarrow> st)"
  have "stat_ok st" if "map_of (w_stats w) (sn_tid s) = Some st" for st
    using assms(1) map_of_SomeD [OF that] by (auto simp: window_ok_def)
  then have "stat_ok st0" by (simp add: st0_def stats_new_ok split: option.splits)
  then have "stat_ok (compute_primary (count_changes s q (count_sample s st0)))" for q
    using count_sample_ok [of st0 s] count_sample_strict [of st0 s] assms(2)
    by (intro primary_ok count_changes_ok) auto
  then show ?thesis
    unfolding push_snapshot_def Let_def st0_def [symmetric]
    by (intro window_put assms(1) push_window_length)
qed

lemma push_batch_ok:
  assumes "window_ok w" and "\<forall>s \<in> set snaps. load_pct s \<le> 100"
  shows "window_ok (push_batch snaps w)"
proof -
  have "window_ok v \<Longrightarrow> window_ok (fold (push_snapshot n) snaps v)" for v n
    using assms(2) by (induction snaps arbitrary: v) (simp_all add: push_snapshot_ok)
  moreover have "window_ok (w\<lparr>w_seq := k\<rparr>)" for k using assms(1) by (simp add: window_ok_def)
  ultimately show ?thesis by (simp add: push_batch_def Let_def)
qed

lemma load_of_le: "load_of sp tid t \<le> 100"
  by (simp add: load_of_def split: option.splits)

lemma max_entry_None: "max_entry d = None \<longleftrightarrow> d = []"
  by (cases d) (auto split: option.splits)

lemma max_entry_max:
  "max_entry d = Some e \<Longrightarrow> e \<in> set d \<and> (\<forall>e' \<in> set d. snd e' \<le> snd e)"
proof (induction d arbitrary: e)
  case Nil
  then show ?case by simp
next
  case (Cons a d)
  show ?case
  proof (cases "max_entry d")
    case None
    with Cons.prems show ?thesis by (simp add: max_entry_None)
  next
    case (Some m)
    from Cons.IH [OF this] Cons.prems Some show ?thesis by (auto split: if_splits)
  qed
qed

end
