(* ===== verification/Scene.thy ===== *)
theory Scene
  imports Prelude
begin

text \<open>
  Scenes (crates/core/src/scene.rs): presets of engine parameters written into the configuration
  file between two marker lines. \<open>cleaned_lines\<close> states what is kept of the old file: since the
  end marker also begins with the start marker, the first marked line hides everything below it.
\<close>

definition nl :: char where "nl = char_of (10::nat)"

definition SCENE_MARKER_START :: string where "SCENE_MARKER_START = ''// <<scene:''"
definition SCENE_MARKER_END :: string where "SCENE_MARKER_END = ''// <<scene: end>>''"

definition scene_inner :: "string \<Rightarrow> string option" where
  "scene_inner name =
     (if name = ''game''
      then Some (''lock-interval 60'' @ [nl] @ ''    migrate-action \"force\"'')
      else if name = ''video''
      then Some (''lock-interval 30'' @ [nl] @ ''    migrate-action \"observe\"'')
      else if name = ''power-save''
      then Some (''lock-interval 300'' @ [nl] @ ''    pressure-sensitive \"true\"'')
      else if name = ''balanced'' \<or> name = ''default''
      then Some (''lock-interval 60'' @ [nl] @ ''    migrate-action \"observe\"'')
      else None)"

definition scene_kdl :: "string \<Rightarrow> string option" where
  "scene_kdl name =
     map_option (\<lambda>inner. SCENE_MARKER_START @ '' '' @ name @ ''>>'' @ [nl] @ ''engine {'' @ [nl]
       @ ''    '' @ inner @ [nl] @ ''}'' @ [nl] @ SCENE_MARKER_END @ [nl]) (scene_inner name)"

definition is_valid_scene :: "string \<Rightarrow> bool" where
  "is_valid_scene name = (scene_kdl name \<noteq> None)"

definition is_start_line :: "string \<Rightarrow> bool" where
  "is_start_line l = starts_with SCENE_MARKER_START (trim_start l)"

definition is_end_line :: "string \<Rightarrow> bool" where
  "is_end_line l = starts_with SCENE_MARKER_END (trim_start l)"

text \<open>One line of the loop; the state is the text kept so far and \<open>in_scene\<close>.\<close>

definition scene_line :: "string \<Rightarrow> string \<times> bool \<Rightarrow> string \<times> bool" where
  "scene_line l acc =
     (if is_start_line l then (fst acc, True)
      else if is_end_line l then (fst acc, False)
      else if \<not> snd acc then (fst acc @ l @ [nl], snd acc)
      else acc)"

datatype scene_error = UnknownScene string

definition apply_scene_to_config :: "string \<Rightarrow> string \<Rightarrow> scene_error + string" where
  "apply_scene_to_config content name =
     (case scene_kdl name of
        None \<Rightarrow> Inl (UnknownScene name)
      | Some block \<Rightarrow> Inr (fst (fold scene_line (str_lines content) ([], False)) @ block))"

section \<open>Lemmas\<close>

definition unlines :: "string list \<Rightarrow> string" where
  "unlines ls = concat (map (\<lambda>l. l @ [nl]) ls)"

lemma end_is_start: "is_end_line l \<Longrightarrow> is_start_line l"
  unfolding is_end_line_def is_start_line_def
  by (rule starts_with_trans [of _ SCENE_MARKER_END])
    (simp_all add: starts_with_def SCENE_MARKER_START_def SCENE_MARKER_END_def)

lemma scene_line_in_scene: "snd acc \<Longrightarrow> scene_line l acc = (fst acc, True)"
  using end_is_start [of l] by (cases acc) (auto simp: scene_line_def)

lemma scene_fold_in_scene: "snd acc \<Longrightarrow> fst (fold scene_line ls acc) = fst acc"
  by (induction ls arbitrary: acc) (simp_all add: scene_line_in_scene)

lemma cleaned_lines:
  "fst (fold scene_line ls (t, False)) = t @ unlines (takeWhile (\<lambda>l. \<not> is_start_line l) ls)"
proof (induction ls arbitrary: t)
  case Nil
  then show ?case by (simp add: unlines_def)
next
  case (Cons l ls)
  show ?case
  proof (cases "is_start_line l")
    case True
    then have "scene_line l (t, False) = (t, True)" by (simp add: scene_line_def)
    with True scene_fold_in_scene [of "(t, True)" ls] show ?thesis by (simp add: unlines_def)
  next
    case False
    then have "\<not> is_end_line l" using end_is_start by blast
    with False have "scene_line l (t, False) = (t @ l @ [nl], False)" by (simp add: scene_line_def)
    with False Cons.IH show ?thesis by (simp add: unlines_def)
  qed
qed

lemma apply_scene_value:
  "apply_scene_to_config content name =
     (case scene_kdl name of
        None \<Rightarrow> Inl (UnknownScene name)
      | Some block \<Rightarrow>
          Inr (unlines (takeWhile (\<lambda>l. \<not> is_start_line l) (str_lines content)) @ block))"
  by (simp add: apply_scene_to_config_def cleaned_lines split: option.splits)

end
