(* ===== verification/Store.thy ===== *)
theory Store
  imports Ruleset_Facts Kdl_Config
begin

text \<open>
  Loading and hot-reloading the configuration (\<open>ConfigSnapshot::load\<close> of
  crates/core/src/config.rs, and crates/core/src/store.rs): a failed reload keeps the old
  snapshot, a successful one raises the version, and the detection loop falls back from
  inotify to polling the modification time.
\<close>

section \<open>Snapshots\<close>

record ConfigSnapshot =
  version :: u64
  config_file :: string
  daemon :: DaemonConfig
  engine :: EngineConfig
  rules :: RuleSet

datatype load_error = ReadFailed | NotKdl string | ParseFailed kdl_error

definition load_snapshot ::
  "'k os \<Rightarrow> kdl_parser \<Rightarrow> string \<Rightarrow> CpuTopology \<Rightarrow> u64 \<Rightarrow> ('k, load_error + ConfigSnapshot) state" where
  "load_snapshot os kdl_doc path topo v = do {
     r \<leftarrow> read_to_string os path;
     ret (case r of
        None \<Rightarrow> Inl ReadFailed
      | Some content \<Rightarrow>
          (if \<not> ends_with ''.kdl'' path then Inl (NotKdl path)
           else (case parse_kdl kdl_doc content of
              Inl e \<Rightarrow> Inl (ParseFailed e)
            | Inr (model, d, e) \<Rightarrow>
                Inr \<lparr>version = v, config_file = path, daemon = d, engine = e,
                     rules = fst (compile (to_rules_with_clusters model (clusters topo)) topo)\<rparr>)))
   }"

record ConfigStore =
  snapshot :: ConfigSnapshot
  store_file :: string
  store_topo :: CpuTopology

definition store_new ::
  "'k os \<Rightarrow> kdl_parser \<Rightarrow> string \<Rightarrow> CpuTopology \<Rightarrow> ('k, load_error + ConfigStore) state" where
  "store_new os kdl_doc path topo = do {
     r \<leftarrow> load_snapshot os kdl_doc path topo 1;
     ret (case r of Inl e \<Rightarrow> Inl e
          | Inr s \<Rightarrow> Inr \<lparr>snapshot = s, store_file = path, store_topo = topo\<rparr>)
   }"

definition current :: "ConfigStore \<Rightarrow> ConfigSnapshot" where
  "current st = snapshot st"

definition reload ::
  "'k os \<Rightarrow> kdl_parser \<Rightarrow> ConfigStore \<Rightarrow> ('k, (load_error + u64) \<times> ConfigStore) state" where
  "reload os kdl_doc st = do {
     let v = version (current st) + 1;
     r \<leftarrow> load_snapshot os kdl_doc (store_file st) (store_topo st) v;
     ret (case r of Inl e \<Rightarrow> (Inl e, st) | Inr s \<Rightarrow> (Inr v, st\<lparr>snapshot := s\<rparr>))
   }"

section \<open>Waiting for a change\<close>

text \<open>
  One call of \<open>InotifyWatch::wait\<close> as a function of the answers of poll, read and the
  re-installation of the watch; an event is its mask.
\<close>

datatype wait_result = NeedReload | NothingYet | WatchBroken

datatype poll_answer = PollErr errno | PollTimeout | PollReady

datatype read_answer = ReadErr errno | ReadMasks "u32 list"

definition IN_CLOSE_WRITE :: u32 where "IN_CLOSE_WRITE = 0x8"
definition IN_DELETE_SELF :: u32 where "IN_DELETE_SELF = 0x400"
definition IN_MOVE_SELF :: u32 where "IN_MOVE_SELF = 0x800"
definition EINTR :: errno where "EINTR = 4"
definition EAGAIN :: errno where "EAGAIN = 11"

fun wait_masks :: "u32 list \<Rightarrow> bool list \<Rightarrow> bool \<Rightarrow> wait_result" where
  "wait_masks [] inst reload_needed = (if reload_needed then NeedReload else NothingYet)"
| "wait_masks (m # ms) inst reload_needed =
     (if m AND (IN_CLOSE_WRITE OR IN_DELETE_SELF OR IN_MOVE_SELF) = 0
      then wait_masks ms inst reload_needed
      else if m AND (IN_DELETE_SELF OR IN_MOVE_SELF) = 0 then wait_masks ms inst True
      else (case inst of
              ok # inst' \<Rightarrow> if ok then wait_masks ms inst' True else WatchBroken
            | [] \<Rightarrow> WatchBroken))"

definition wait_change :: "poll_answer \<Rightarrow> read_answer \<Rightarrow> bool list \<Rightarrow> wait_result" where
  "wait_change p r inst =
     (case p of
        PollErr e \<Rightarrow> (if e = EINTR then NothingYet else WatchBroken)
      | PollTimeout \<Rightarrow> NothingYet
      | PollReady \<Rightarrow>
          (case r of
             ReadErr e \<Rightarrow> (if e \<noteq> EAGAIN then WatchBroken else NothingYet)
           | ReadMasks ms \<Rightarrow> wait_masks ms inst False))"

section \<open>The detection loop\<close>

record hot_state =
  inotify_active :: bool
  last_mtime :: int
  hot_store :: ConfigStore

text \<open>One iteration; the result is the version sent to the main loop, when one is sent.\<close>

definition hot_reload_now ::
  "'k os \<Rightarrow> kdl_parser \<Rightarrow> hot_state \<Rightarrow> ('k, hot_state \<times> u64 option) state" where
  "hot_reload_now os kdl_doc h = do {
     rs \<leftarrow> reload os kdl_doc (hot_store h);
     ret (h\<lparr>hot_store := snd rs\<rparr>,
          case fst rs of Inl _ \<Rightarrow> None | Inr _ \<Rightarrow> Some (version (current (snd rs))))
   }"

definition hot_step ::
  "'k os \<Rightarrow> kdl_parser \<Rightarrow> wait_result \<Rightarrow> int \<Rightarrow> hot_state \<Rightarrow> ('k, hot_state \<times> u64 option) state" where
  "hot_step os kdl_doc waited mtime h =
     (if inotify_active h
      then (case waited of
              NeedReload \<Rightarrow> hot_reload_now os kdl_doc h
            | NothingYet \<Rightarrow> ret (h, None)
            | WatchBroken \<Rightarrow> ret (h\<lparr>inotify_active := False, last_mtime := -1\<rparr>, None))
      else if mtime \<noteq> last_mtime h
      then (if mtime = -1 then ret (h\<lparr>last_mtime := mtime\<rparr>, None)
            else hot_reload_now os kdl_doc (h\<lparr>last_mtime := mtime\<rparr>))
      else ret (h, None))"

section \<open>Lemmas\<close>

lemma load_version:
  "gives (\<lambda>r. \<forall>s. r = Inr s \<longrightarrow> version s = v \<and> config_file s = path) (load_snapshot os kdl_doc path topo v)"
  unfolding load_snapshot_def
  by (intro gives_intros) (auto split: option.splits sum.splits if_splits)

lemma load_rules_ok:
  assumes "wf_cpuset (present_cpus topo)"
  shows "gives (\<lambda>r. \<forall>s. r = Inr s \<longrightarrow> ruleset_ok topo (rules s) \<and> cache_ok fnm (rules s))
    (load_snapshot os kdl_doc path topo v)"
  unfolding load_snapshot_def
  by (intro gives_intros) (auto simp: compile_ok [OF assms] split: option.splits sum.splits if_splits)

definition reload_post :: "ConfigStore \<Rightarrow> (load_error + u64) \<times> ConfigStore \<Rightarrow> bool" where
  "reload_post st x =
     (case fst x of
        Inl _ \<Rightarrow> snd x = st
      | Inr v \<Rightarrow> v = version (snapshot st) + 1 \<and> version (snapshot (snd x)) = v \<and>
          store_file (snd x) = store_file st \<and> store_topo (snd x) = store_topo st)"

lemma reload_result: "gives (reload_post st) (reload os kdl_doc st)"
  unfolding reload_def Let_def current_def
proof (rule gives_bind [OF load_version])
  fix r :: "load_error + ConfigSnapshot"
  assume r: "\<forall>s. r = Inr s \<longrightarrow> version s = version (snapshot st) + 1 \<and> config_file s = store_file st"
  show "gives (reload_post st) (ret (case r of Inl e \<Rightarrow> (Inl e, st)
      | Inr s \<Rightarrow> (Inr (version (snapshot st) + 1), st\<lparr>snapshot := s\<rparr>)))"
    using r by (cases r) (simp_all add: gives_return reload_post_def)
qed

end
