(* ===== verification/Affinity_Pool.thy ===== *)
theory Affinity_Pool
  imports Topology
begin

text \<open>
  The embeddable affinity pool (crates/libthreadctl/src/lib.rs): workers bound to one CPU set
  and tasks sent to them in turn. Threads and channels are the standard library's; a worker is
  its queue of tasks, and whether thread number \<open>i\<close> can be created is the argument \<open>spawns\<close>.
\<close>

datatype pool_error = EmptyCpuSet string | ZeroSize | WorkerFailed nat

record 'task AffinityPool =
  pool_name :: string
  pool_cpus :: CpuSet
  workers :: "'task list list"
  next_worker :: u64

fun create_workers :: "(nat \<Rightarrow> bool) \<Rightarrow> nat \<Rightarrow> nat \<Rightarrow> pool_error + 'task list list" where
  "create_workers spawns i 0 = Inr []"
| "create_workers spawns i (Suc n) =
     (if \<not> spawns i then Inl (WorkerFailed i)
      else case create_workers spawns (Suc i) n of Inl e \<Rightarrow> Inl e | Inr ws \<Rightarrow> Inr ([] # ws))"

definition pool_new ::
  "(nat \<Rightarrow> bool) \<Rightarrow> string \<Rightarrow> string \<Rightarrow> nat \<Rightarrow> pool_error + 'task AffinityPool" where
  "pool_new spawns name cpus_str size1 =
     (let s = parse_cpu_ranges cpus_str None in
      if cpuset_is_empty s then Inl (EmptyCpuSet cpus_str)
      else if size1 = 0 then Inl ZeroSize
      else case create_workers spawns 0 size1 of
        Inl e \<Rightarrow> Inl e
      | Inr ws \<Rightarrow> Inr \<lparr>pool_name = name, pool_cpus = s, workers = ws, next_worker = 0\<rparr>)"

text \<open>\<open>fetch_add\<close> wraps at the width of \<open>usize\<close>.\<close>

definition pool_spawn :: "'task \<Rightarrow> 'task AffinityPool \<Rightarrow> 'task AffinityPool" where
  "pool_spawn t p =
     (let idx = unat (next_worker p) mod length (workers p)
      in p\<lparr>next_worker := next_worker p + 1,
           workers := (workers p)[idx := workers p ! idx @ [t]]\<rparr>)"

definition worker_count :: "'task AffinityPool \<Rightarrow> nat" where
  "worker_count p = length (workers p)"

definition cpus_desc :: "'task AffinityPool \<Rightarrow> string" where
  "cpus_desc p = to_range_string (pool_cpus p)"

text \<open>\<open>CPU_SET\<close> for every CPU of the mask, then \<open>sched_setaffinity\<close> on the calling thread.\<close>

definition bind_mask :: "CpuSet \<Rightarrow> CpuSet" where
  "bind_mask c = fold cpuset_set (cpuset_iter c) cpuset_new"

definition bind_thread :: "'k os \<Rightarrow> CpuSet \<Rightarrow> ('k, errno option) state" where
  "bind_thread os c = sys (os_setaffinity os 0 (bits (bind_mask c)))"

text \<open>The body of a worker over the tasks it receives; a failed binding is only reported.\<close>

definition worker_body :: "'k os \<Rightarrow> CpuSet \<Rightarrow> ('k, unit) state list \<Rightarrow> ('k, unit) state" where
  "worker_body os c tasks = do {
     _ \<leftarrow> bind_thread os c;
     foldM (\<lambda>task _. task) tasks ()
   }"

section \<open>Lemmas\<close>

lemma worker_appends:
  "worker_body os c (ts @ us) = do { _ \<leftarrow> worker_body os c ts; foldM (\<lambda>task _. task) us () }"
proof -
  have "foldM (\<lambda>task _. task) (ts @ us) = (\<lambda>u. do { u' \<leftarrow> foldM (\<lambda>task _. task) ts u; foldM (\<lambda>task _. task) us u' })"
    by (induction ts) (rule ext, simp)+
  then show ?thesis by (simp add: worker_body_def)
qed

lemma bind_mask_id: "wf_cpuset c \<Longrightarrow> bind_mask c = c"
  using fold_cpuset_set [OF wf_new, of "cpuset_iter c"]
  by (intro cpuset_eqI) (auto simp: bind_mask_def set_iter dest: members_bound)

lemma create_workers_length: "create_workers spawns i n = Inr ws \<Longrightarrow> ws = replicate n []"
  by (induction spawns i n arbitrary: ws rule: create_workers.induct) (auto split: if_splits sum.splits)

lemma pool_new_ok:
  "pool_new spawns name cs n = Inr p \<Longrightarrow>
     workers p = replicate n [] \<and> 0 < n \<and> next_worker p = 0 \<and> wf_cpuset (pool_cpus p) \<and>
     members (pool_cpus p) \<noteq> {}"
  by (auto simp: pool_new_def Let_def is_empty_members dest: create_workers_length
      split: if_splits sum.splits)

text \<open>How many of the first \<open>k\<close> tasks go to worker \<open>i\<close> of \<open>n\<close>.\<close>

definition share :: "nat \<Rightarrow> nat \<Rightarrow> nat \<Rightarrow> nat" where
  "share n k i = length (filter (\<lambda>j. j mod n = i) [0..<k])"

lemma share_Suc: "share n (Suc k) i = share n k i + (if k mod n = i then 1 else 0)"
  by (simp add: share_def)

lemma share_value: "i < n \<Longrightarrow> share n k i = (k + n - 1 - i) div n"
proof (induction k)
  case 0
  then show ?case by (simp add: share_def)
next
  case (Suc k)
  have "(Suc k + n - 1 - i) div n = (k + n - 1 - i) div n + (if k mod n = i then 1 else 0)"
  proof -
    let ?a = "k + n - 1 - i"
    have "Suc k + n - 1 - i = Suc ?a" using Suc.prems by simp
    moreover have "Suc ?a div n = ?a div n + (if n dvd Suc ?a then 1 else 0)"
      by (simp add: div_Suc dvd_eq_mod_eq_0)
    moreover have "n dvd Suc ?a \<longleftrightarrow> k mod n = i"
    proof -
      have "n dvd Suc ?a \<longleftrightarrow> int n dvd int k - int i + int n"
        using Suc.prems by (simp flip: int_dvd_int_iff add: of_nat_diff algebra_simps)
      also have "\<dots> \<longleftrightarrow> int k mod int n = int i mod int n"
        by (simp add: mod_eq_dvd_iff)
      also have "\<dots> \<longleftrightarrow> k mod n = i" using Suc.prems by (simp flip: of_nat_mod)
      finally show ?thesis .
    qed
    ultimately show ?thesis by simp
  qed
  with Suc show ?case by (simp add: share_Suc)
qed

lemma pool_spawn_step:
  assumes "unat (next_worker q) = k" and "length (workers q) = n"
    and "\<forall>i < n. length (workers q ! i) = share n k i" and "0 < n"
  shows "next_worker (pool_spawn t q) = next_worker q + 1 \<and> length (workers (pool_spawn t q)) = n \<and>
    (\<forall>i < n. length (workers (pool_spawn t q) ! i) = share n (Suc k) i)"
  using assms by (auto simp: pool_spawn_def Let_def share_Suc nth_list_update)

lemma spawn_counts:
  assumes "workers p = replicate n []" and "0 < n" and "next_worker p = 0" and "length ts < 2 ^ 64"
  shows "next_worker (fold pool_spawn ts p) = of_nat (length ts) \<and>
    length (workers (fold pool_spawn ts p)) = n \<and>
    (\<forall>i < n. length (workers (fold pool_spawn ts p) ! i) = share n (length ts) i)"
  using assms(4)
proof (induction ts rule: rev_induct)
  case Nil
  then show ?case using assms(1,3) by (simp add: share_def)
next
  case (snoc t ts)
  define q where "q = fold pool_spawn ts p"
  have q: "next_worker q = of_nat (length ts)" "length (workers q) = n"
    "\<forall>i < n. length (workers q ! i) = share n (length ts) i"
    using snoc by (auto simp: q_def)
  have "unat (next_worker q) = length ts"
    using snoc.prems q(1) by (simp add: unat_of_nat)
  from pool_spawn_step [OF this q(2,3) assms(2), of t] q(1)
  have "next_worker (pool_spawn t q) = of_nat (length (ts @ [t])) \<and>
    length (workers (pool_spawn t q)) = n \<and>
    (\<forall>i < n. length (workers (pool_spawn t q) ! i) = share n (length (ts @ [t])) i)"
    by (simp add: add.commute)
  moreover have "pool_spawn t q = fold pool_spawn (ts @ [t]) p" by (simp add: q_def)
  ultimately show ?case by simp
qed

end
