(* ===== verification/Control_Properties.thy ===== *)
theory Control_Properties
  imports Relock_Facts Observe Scene Store Affinity_Pool
begin

text \<open>
  The properties of the control parts: the decision gate and its score, the relock period and
  its cooldown, the sampled state of the system, the observation window, scenes, the
  configuration store and the affinity pool.
\<close>

section \<open>The decision gate\<close>

text \<open>
  The gate allows a relock exactly for a forced engine, or for a task in the foreground or
  sensitive to latency while the system is not hot (0.8), the audit failure rate is not above
  a half, and, if the engine minds it, memory pressure is not critical.
\<close>

theorem gate_allows_iff:
  "(\<exists>r. decide_ctx e c = Allow r) \<longleftrightarrow>
     force_affinity_enabled e \<or>
     (intent c \<in> {Interactive, BackgroundLatencySensitive} \<and>
      \<not> f_lt (Fin (8 / 10)) (effective_thermal c) \<and>
      \<not> f_lt (Fin (5 / 10)) (audit_failure_rate c) \<and>
      \<not> (de_pressure_sensitive e \<and> pressure c = Critical))"
  by (rule decide_ctx_allow)

text \<open>
  The gate is monotone: when the temperature, the failure rate and the memory pressure of one
  context are at most those of another with the same intent, and the gate allows the worse
  one, it allows the better one.
\<close>

theorem gate_monotone:
  assumes "intent c = intent d"
    and "\<And>x. f_lt (Fin x) (effective_thermal c) \<Longrightarrow> f_lt (Fin x) (effective_thermal d)"
    and "\<And>x. f_lt (Fin x) (audit_failure_rate c) \<Longrightarrow> f_lt (Fin x) (audit_failure_rate d)"
    and "pressure_rank (pressure c) \<le> pressure_rank (pressure d)"
    and "\<exists>r. decide_ctx e d = Allow r"
  shows "\<exists>r. decide_ctx e c = Allow r"
  using assms by (cases "pressure c"; cases "pressure d") (auto simp: decide_ctx_allow)

definition calm :: DecisionContext where
  "calm = \<lparr>intent = Interactive, pressure = Normal, thermal_pressure = Fin 0, freq_throttle = Fin 1,
     foreground = True, audit_failure_rate = Fin 0\<rparr>"

definition busy :: DecisionContext where
  "busy = calm\<lparr>pressure := Moderate, freq_throttle := Fin (1 / 2)\<rparr>"

theorem gate_monotone_witness: "\<exists>r. decide_ctx engine_default calm = Allow r"
  by (rule gate_monotone [of calm busy])
    (simp_all add: calm_def busy_def effective_thermal_def f_max_def f_sub_def decide_ctx_def engine_default_def)

text \<open>
  Without force the engine steers exactly the foreground tasks when pressure is not critical
  and the latency-sensitive ones when it is normal (a pressure-blind engine both always), and
  the score stays from 0 to 60 and never grows with pressure or temperature.
\<close>

theorem score_table:
  "(\<not> force_affinity_enabled e \<longrightarrow>
     (decide e i p = Steer \<longleftrightarrow> (i = Interactive \<or> i = BackgroundLatencySensitive) \<and>
       (de_pressure_sensitive e \<longrightarrow> (if i = Interactive then p \<noteq> Critical else p = Normal)))) \<and>
   0 \<le> total (evaluate e i p t) \<and> total (evaluate e i p t) \<le> 60 \<and>
   (pressure_rank p \<le> pressure_rank q \<longrightarrow> f_lt t u \<or> t = u \<longrightarrow>
      total (evaluate e i q u) \<le> total (evaluate e i p t))"
  using decide_table [of e i p] total_range [of e i p t] total_antimono [of p q t u e i] by blast

theorem score_table_witness:
  "decide engine_default Interactive Moderate = Steer \<and>
   decide engine_default BackgroundLatencySensitive Moderate \<noteq> Steer"
  using score_table [of engine_default Interactive Moderate] score_table [of engine_default BackgroundLatencySensitive Moderate]
  by (simp add: engine_default_def)

section \<open>Relocking\<close>

text \<open>
  C35. Whatever ratios are observed from whatever configured period on, the period is one of 3, 10,
  60 and 300 seconds, the window has at most 15 samples, and the quiet time stays below 60.
\<close>

theorem period_stays_on_ladder:
  "let a = fold observe_ratio rs (from_initial secs) in
     interval_secs a \<in> {3, 10, 60, 300} \<and> length (samples a) \<le> 15 \<and> stable_secs a < 60"
  using observe_ratios_ok [OF from_initial_ok, of rs secs] interval_in
  by (auto simp: Let_def adaptive_ok_def)

text \<open>
  The period is never lengthened lightly: when one more ratio raises the rank, it and the 29
  ratios before it, a minute of samples, were all zero.
\<close>

theorem extension_needs_a_quiet_minute:
  assumes "rank (fold observe_ratio rs (from_initial secs)) <
    rank (fold observe_ratio (rs @ [r]) (from_initial secs))"
  shows "29 \<le> length rs \<and> (\<forall>x \<in> set (drop (length rs - 29) (rs @ [r])). f_eq x (Fin 0))"
proof -
  let ?a = "from_initial secs"
  have "samples ?a = []" "stable_secs ?a = 0" by (simp_all add: from_initial_def)
  then have "stable_secs (fold observe_ratio rs ?a) \<le> 2 * zero_run rs" using stable_bound by blast
  moreover have "zero_ratio r \<and> 58 \<le> stable_secs (fold observe_ratio rs ?a)"
    using assms by (intro rank_grows) simp
  ultimately show ?thesis using zero_run_drop [of 29 rs] by auto
qed

theorem extension_needs_a_quiet_minute_witness:
  "rank (fold observe_ratio (replicate 43 (Fin 0)) (from_initial 60)) <
     rank (fold observe_ratio (replicate 43 (Fin 0) @ [Fin 0]) (from_initial 60)) \<and> (29 :: nat) \<le> 43"
proof -
  have "rank (fold observe_ratio (replicate 43 (Fin 0)) (from_initial 60)) <
     rank (fold observe_ratio (replicate 43 (Fin 0) @ [Fin 0]) (from_initial 60))"
    by code_simp
  with extension_needs_a_quiet_minute [OF this] show ?thesis by simp
qed

text \<open>
  C36. Both ends are reached: from any state, 17 ratios of at least a half bring the period down to 3
  seconds, and 104 zero ratios bring it up to 300.
\<close>

theorem period_reaches_the_ends:
  assumes "adaptive_ok a"
  shows "(17 \<le> length rs \<and> (\<forall>r \<in> set rs. f_ge r (Fin (1 / 2))) \<longrightarrow> interval_secs (fold observe_ratio rs a) = 3) \<and>
    (104 \<le> length rs \<and> (\<forall>r \<in> set rs. f_eq r (Fin 0)) \<longrightarrow> interval_secs (fold observe_ratio rs a) = 300)"
proof (intro conjI impI)
  assume "17 \<le> length rs \<and> (\<forall>r \<in> set rs. f_ge r (Fin (1 / 2)))"
  then have "rank (fold observe_ratio rs a) = 0"
    using covered_descends [OF assms, of rs] by (simp add: COVER_RATIO_SHRINK_def)
  then show "interval_secs (fold observe_ratio rs a) = 3" by (simp add: interval_secs_def INTERVALS_SECS_def)
next
  assume "104 \<le> length rs \<and> (\<forall>r \<in> set rs. f_eq r (Fin 0))"
  moreover from this have "min 180 (2 * (length rs - 14)) = (180 :: nat)" by (intro min_absorb1) linarith
  ultimately have "180 \<le> level (fold observe_ratio rs a)" using quiet_ascends [OF assms, of rs] by auto
  then have "rank (fold observe_ratio rs a) = 3"
    using observe_ratios_ok [OF assms, of rs] by (auto simp: level_def adaptive_ok_def split: if_splits)
  then show "interval_secs (fold observe_ratio rs a) = 300" by (simp add: interval_secs_def INTERVALS_SECS_def)
qed

theorem period_reaches_the_ends_witness:
  "interval_secs (fold observe_ratio (replicate 17 (Fin 1)) adaptive_new) = 3 \<and>
   interval_secs (fold observe_ratio (replicate 104 (Fin 0)) adaptive_new) = 300"
  using period_reaches_the_ends [OF adaptive_new_ok, of "replicate 17 (Fin 1)"]
    period_reaches_the_ends [OF adaptive_new_ok, of "replicate 104 (Fin 0)"]
  by (simp add: f_ge_def f_eq_def)

text \<open>
  The cooldown separates the relocks: whatever the instants of the attempts, consecutive
  granted ones are at least the cooldown apart.
\<close>

theorem grants_respect_cooldown:
  "successively (\<lambda>s t. cooldown_ms g \<le> elapsed_ms t s) (last_at g # grants ts g)"
  by (rule grants_spaced)

section \<open>The system\<close>

text \<open>
  The frequency ratio read from sysfs is a number from 0 to 1, whatever the files hold (also
  for \<open>nan\<close>, negative or overlarge numbers).
\<close>

theorem freq_throttle_is_ratio:
  "f_between 0 1 (fst (run_state (read_freq_throttle os) k))"
  by (rule givesD [OF read_freq_throttle_between])

text \<open>
  The statistics of the observation window stay consistent under every sequence of batches
  the sampler can produce and every pruning: at most 150 samples per thread, averages at most
  the maxima and these at most 100, and no more migrations, affinity changes and CPU counts
  than samples.
\<close>

theorem window_stays_consistent:
  assumes "\<forall>b \<in> set batches. \<forall>s \<in> set b. load_pct s \<le> 100"
  shows "window_ok (window_retain alive (fold push_batch batches window_new))"
proof -
  have "window_ok w \<Longrightarrow> window_ok (fold push_batch batches w)" for w
    using assms by (induction batches arbitrary: w) (simp_all add: push_batch_ok)
  moreover have "window_ok window_new" by (simp add: window_ok_def window_new_def)
  ultimately have "window_ok (fold push_batch batches window_new)" .
  then show ?thesis by (auto simp: window_ok_def window_retain_def)
qed

definition demo_snapshot :: ThreadSnapshot where
  "demo_snapshot = \<lparr>sn_tid = 7, sn_name = ''main'', sn_affinity = ''0-3'', running_cpu = Some 2,
     load_pct = 40, cpu_ticks = 10\<rparr>"

theorem window_stays_consistent_witness:
  "window_ok (window_retain {7} (fold push_batch [[demo_snapshot], [demo_snapshot\<lparr>running_cpu := Some 3\<rparr>]] window_new))"
  by (rule window_stays_consistent) (simp add: demo_snapshot_def)

section \<open>Configuration files\<close>

text \<open>
  C37. Applying a scene keeps the file up to the first marker line and nothing else: the end marker
  begins with the start marker, so what follows an earlier scene block is lost.
\<close>

theorem scene_keeps_the_prefix:
  "apply_scene_to_config content name =
     (case scene_kdl name of
        None \<Rightarrow> Inl (UnknownScene name)
      | Some block \<Rightarrow> Inr (unlines (takeWhile (\<lambda>l. \<not> is_start_line l) (str_lines content)) @ block))"
  by (rule apply_scene_value)

text \<open>
  A reload either fails and leaves the store as it was, or raises the version by one (modulo
  the word) and keeps the file and the topology.
\<close>

theorem reload_is_atomic:
  "case run_state (reload os kdl_doc st) k of
     ((Inl e, st'), k') \<Rightarrow> st' = st
   | ((Inr v, st'), k') \<Rightarrow> v = version (snapshot st) + 1 \<and> version (snapshot st') = v \<and>
       store_file st' = store_file st \<and> store_topo st' = store_topo st"
  using givesD [OF reload_result, of st os kdl_doc k]
  by (auto simp: reload_post_def split: prod.splits sum.splits)

section \<open>The affinity pool\<close>

text \<open>
  The pool hands out tasks in turn: after any number of tasks (below the width of the counter)
  the queues of a new pool differ by at most one task, the first workers having the extra one,
  and its mask is a nonempty set of CPUs.
\<close>

theorem pool_is_balanced:
  assumes "pool_new spawns name cs n = Inr p" and "length ts < 2 ^ 64" and "i < n"
  shows "length (workers (fold pool_spawn ts p) ! i) = (length ts + n - 1 - i) div n \<and>
    members (pool_cpus p) \<noteq> {}"
proof -
  have p: "workers p = replicate n []" "0 < n" "next_worker p = 0" "members (pool_cpus p) \<noteq> {}"
    using pool_new_ok [OF assms(1)] by auto
  from spawn_counts [OF p(1-3) assms(2)] assms(3) p(4) show ?thesis by (simp add: share_value)
qed

theorem pool_is_balanced_witness:
  "\<exists>p. pool_new (\<lambda>_. True) ''io'' (to_range_string (cpuset_set 1 cpuset_new)) 2 = Inr p \<and>
     length (workers (fold pool_spawn [''a'', ''b'', ''c''] p) ! 0) = 2"
proof -
  let ?cs = "to_range_string (cpuset_set 1 cpuset_new)"
  have "parse_cpu_ranges ?cs None = cpuset_set 1 cpuset_new"
    by (rule parse_to_range_string) simp
  then have "\<not> cpuset_is_empty (parse_cpu_ranges ?cs None)" by (simp add: is_empty_members)
  then obtain p :: "string AffinityPool" where p: "pool_new (\<lambda>_. True) ''io'' ?cs 2 = Inr p"
    by (simp add: pool_new_def Let_def numeral_2_eq_2)
  with pool_is_balanced [OF p, of "[''a'', ''b'', ''c'']" 0] show ?thesis by simp
qed

end
