(* ===== verification/Tracker_Facts.thy ===== *)
theory Tracker_Facts
  imports Tracker
begin

text \<open>
  The reference-count invariant of the tracker and the operations that keep it: a directory's
  count is the number of tracked processes that hold it, a directory nobody holds has no entry,
  and no process holds a directory twice.
\<close>

definition holders :: "(pid \<times> ProcessState) list \<Rightarrow> string \<Rightarrow> nat" where
  "holders ps d = length (filter (\<lambda>ps. d \<in> set (applied_dirs (snd ps))) ps)"

definition refs_match :: "(string \<rightharpoonup> nat) \<Rightarrow> (string \<Rightarrow> nat) \<Rightarrow> bool" where
  "refs_match refs f \<longleftrightarrow> (\<forall>d. refs d = (if f d = 0 then None else Some (f d)))"

definition dirs_ok :: "ProcessState \<Rightarrow> bool" where
  "dirs_ok s \<longleftrightarrow> distinct (applied_dirs s) \<and> [] \<notin> set (applied_dirs s)"

definition procs_ok :: "(pid \<times> ProcessState) list \<Rightarrow> bool" where
  "procs_ok ps \<longleftrightarrow> distinct (map fst ps) \<and> (\<forall>ks \<in> set ps. dirs_ok (snd ks))"

definition refs_ok :: "'k world \<Rightarrow> bool" where
  "refs_ok w \<longleftrightarrow> procs_ok (procs (tracker w)) \<and>
     refs_match (cpuset_refs (tracker w)) (holders (procs (tracker w)))"

text \<open>The state while the directories \<open>rem\<close> of a removed process are still to be released.\<close>

definition releasing :: "string list \<Rightarrow> 'k world \<Rightarrow> bool" where
  "releasing rem w \<longleftrightarrow> procs_ok (procs (tracker w)) \<and>
     refs_match (cpuset_refs (tracker w)) (\<lambda>d. holders (procs (tracker w)) d + of_bool (d \<in> set rem))"

section \<open>Counting holders\<close>

lemma holders_delete:
  "distinct (map fst ps) \<Longrightarrow> map_of ps p = Some s \<Longrightarrow>
   holders ps d = holders (AList.delete p ps) d + of_bool (d \<in> set (applied_dirs s))"
proof (induction ps)
  case Nil
  then show ?case by simp
next
  case (Cons a ps)
  show ?case
  proof (cases "fst a = p")
    case True
    with Cons.prems have "p \<notin> fst ` set ps" "s = snd a" by auto
    then show ?thesis using True by (cases a) (simp add: holders_def delete_id)
  next
    case False
    with Cons show ?thesis by (cases a) (auto simp: holders_def)
  qed
qed

lemma holders_update:
  "distinct (map fst ps) \<Longrightarrow>
   holders (AList.update p s' ps) d +
     (case map_of ps p of None \<Rightarrow> 0 | Some s \<Rightarrow> of_bool (d \<in> set (applied_dirs s))) =
   holders ps d + of_bool (d \<in> set (applied_dirs s'))"
proof (induction ps)
  case Nil
  then show ?case by (simp add: holders_def)
next
  case (Cons a ps)
  show ?case
  proof (cases "fst a = p")
    case True
    then show ?thesis by (cases a) (simp add: holders_def)
  next
    case False
    with Cons show ?thesis by (cases a) (auto simp: holders_def split: option.splits)
  qed
qed

lemma set_delete_sub: "set (AList.delete p ps) \<subseteq> set ps"
  by (induction ps) auto

lemma procs_ok_delete: "procs_ok ps \<Longrightarrow> procs_ok (AList.delete p ps)"
  using set_delete_sub [of p ps] by (auto simp: procs_ok_def distinct_delete)

lemma set_update_sub: "set (AList.update p s ps) \<subseteq> insert (p, s) (set ps)"
  by (induction ps) auto

lemma procs_ok_update: "procs_ok ps \<Longrightarrow> dirs_ok s \<Longrightarrow> procs_ok (AList.update p s ps)"
  using set_update_sub [of p s ps] by (auto simp: procs_ok_def distinct_update)

lemma procs_ok_get: "procs_ok ps \<Longrightarrow> map_of ps p = Some s \<Longrightarrow> dirs_ok s"
  by (auto simp: procs_ok_def dest: map_of_SomeD)

section \<open>Preservation\<close>

lemma refs_ok_put_same:
  assumes "refs_ok w" and "tracker_get p w = Some s" and "applied_dirs s' = applied_dirs s"
  shows "refs_ok (put_proc p s' w)"
proof -
  let ?ps = "procs (tracker w)"
  have ok: "procs_ok ?ps" "map_of ?ps p = Some s"
    using assms by (simp_all add: refs_ok_def tracker_get_def)
  then have "dirs_ok s'" using procs_ok_get [OF ok] assms(3) by (simp add: dirs_ok_def)
  moreover have "holders (AList.update p s' ?ps) = holders ?ps"
    using holders_update [of ?ps p s'] ok assms(3) by (intro ext) (simp add: procs_ok_def)
  ultimately show ?thesis
    using assms(1) ok by (simp add: refs_ok_def put_proc_def procs_ok_update)
qed

lemma refs_with_proc: "(\<And>s. applied_dirs (f s) = applied_dirs s) \<Longrightarrow> keeps refs_ok (with_proc p f)"
  unfolding with_proc_def by (rule keeps_modify) (auto intro: refs_ok_put_same split: option.splits)

lemma refs_ok_put_new:
  assumes "refs_ok w" and "tracker_get p w = None" and "applied_dirs s = []"
  shows "refs_ok (put_proc p s w)"
proof -
  let ?ps = "procs (tracker w)"
  have ok: "procs_ok ?ps" "map_of ?ps p = None"
    using assms by (simp_all add: refs_ok_def tracker_get_def)
  have "holders (AList.update p s ?ps) = holders ?ps"
    using holders_update [of ?ps p s] ok assms(3) by (intro ext) (simp add: procs_ok_def)
  moreover have "dirs_ok s" using assms(3) by (simp add: dirs_ok_def)
  ultimately show ?thesis
    using assms(1) ok by (simp add: refs_ok_def put_proc_def procs_ok_update)
qed

lemma releasing_drop:
  assumes "refs_ok w" and "tracker_get p w = Some s"
  shows "releasing (applied_dirs s) (drop_proc p w)"
proof -
  let ?ps = "procs (tracker w)"
  have ok: "procs_ok ?ps" "map_of ?ps p = Some s"
    using assms by (simp_all add: refs_ok_def tracker_get_def)
  have "holders ?ps = (\<lambda>d. holders (AList.delete p ?ps) d + of_bool (d \<in> set (applied_dirs s)))"
    using holders_delete [of ?ps p s] ok by (intro ext) (simp add: procs_ok_def)
  with assms(1) show ?thesis
    by (simp add: refs_ok_def releasing_def drop_proc_def procs_ok_delete)
qed

lemma releasing_step:
  assumes rel: "releasing (d # ds) w" and fresh: "d \<notin> set ds" "d \<noteq> []"
  shows "releasing ds (snd (run_state (release_dir os d ()) w)) \<and>
    procs (tracker (snd (run_state (release_dir os d ()) w))) = procs (tracker w)"
proof -
  let ?h = "holders (procs (tracker w))" and ?refs = "cpuset_refs (tracker w)"
  have refs: "?refs e = (if ?h e + of_bool (e \<in> set (d # ds)) = 0 then None
      else Some (?h e + of_bool (e \<in> set (d # ds))))" for e
    using rel unfolding releasing_def refs_match_def by blast
  then have d: "?refs d = Some (?h d + 1)" by simp
  have ok: "procs_ok (procs (tracker w))" using rel by (simp add: releasing_def)
  have rest: "?refs e = (if ?h e + of_bool (e \<in> set ds) = 0 then None
      else Some (?h e + of_bool (e \<in> set ds)))" if "e \<noteq> d" for e
    using refs [of e] that by simp
  show ?thesis
  proof (cases "?h d = 0")
    case True
    with d fresh rest ok show ?thesis
      by (auto simp: release_dir_def set_refs_def on_kern_def forget_cpuset_dir_def releasing_def
          refs_match_def split: prod.splits)
  next
    case False
    with d fresh rest ok show ?thesis
      by (auto simp: release_dir_def set_refs_def releasing_def refs_match_def)
  qed
qed

lemma releasing_fold:
  assumes "releasing ds w" and "distinct ds" and "[] \<notin> set ds"
  shows "releasing [] (snd (run_state (foldM (release_dir os) ds ()) w)) \<and>
    procs (tracker (snd (run_state (foldM (release_dir os) ds ()) w))) = procs (tracker w)"
  using assms
proof (induction ds arbitrary: w)
  case Nil
  then show ?case by simp
next
  case (Cons d ds)
  from releasing_step [OF Cons.prems(1), of os] Cons.prems
  have step: "releasing ds (snd (run_state (release_dir os d ()) w))"
    "procs (tracker (snd (run_state (release_dir os d ()) w))) = procs (tracker w)" by auto
  from Cons.IH [OF step(1)] Cons.prems step(2) show ?case
    by (simp add: case_prod_beta)
qed

lemma releasing_Nil: "releasing [] w = refs_ok w"
  by (simp add: releasing_def refs_ok_def)

text \<open>Dropping a process and releasing its directories.\<close>

definition drop_and_release :: "'k os \<Rightarrow> pid \<Rightarrow> ProcessState \<Rightarrow> ('k world, unit) state" where
  "drop_and_release os p s = do { _ \<leftarrow> modify (drop_proc p); release_state os s }"

lemma drop_and_release_ok:
  assumes "refs_ok w" and "tracker_get p w = Some s"
  shows "refs_ok (snd (run_state (drop_and_release os p s) w)) \<and>
    procs (tracker (snd (run_state (drop_and_release os p s) w))) =
      AList.delete p (procs (tracker w))"
proof -
  have "dirs_ok s" using assms procs_ok_get by (auto simp: refs_ok_def tracker_get_def)
  with releasing_fold [OF releasing_drop [OF assms], of os] show ?thesis
    by (simp add: drop_and_release_def release_state_def dirs_ok_def releasing_Nil drop_proc_def)
qed

lemma map_of_delete: "map_of (AList.delete p ps) p = None"
  by (simp add: delete_conv)

lemma insert_new_ok:
  assumes "refs_ok w" and "tracker_get p w = None"
  shows "refs_ok (snd (run_state (insert_new os p pkg now) w))"
proof -
  have "refs_ok (w\<lparr>kern := k\<rparr>)" "tracker_get p (w\<lparr>kern := k\<rparr>) = None" for k
    using assms by (simp_all add: refs_ok_def tracker_get_def)
  from refs_ok_put_new [OF this] show ?thesis
    by (simp add: insert_new_def on_kern_def process_new_def split: prod.splits)
qed

lemma refs_remove: "keeps refs_ok (tracker_remove os p)"
proof -
  have "refs_ok (snd (run_state (tracker_remove os p) w))" if "refs_ok w" for w
  proof (cases "tracker_get p w")
    case None
    with that show ?thesis by (simp add: tracker_remove_def)
  next
    case (Some s)
    with drop_and_release_ok [OF that Some, of os] show ?thesis
      by (simp add: tracker_remove_def drop_and_release_def case_prod_beta)
  qed
  then show ?thesis by (simp add: keeps_def)
qed

lemma refs_enter: "keeps refs_ok (tracker_enter os p pkg now)"
proof -
  have "refs_ok (snd (run_state (tracker_enter os p pkg now) w))" if w: "refs_ok w" for w
  proof (cases "tracker_get p w")
    case None
    with insert_new_ok [OF w None] show ?thesis by (simp add: tracker_enter_def)
  next
    case (Some s)
    obtain a w1 where a: "run_state (enter_decide os p pkg s) w = (a, w1)"
      by (cases "run_state (enter_decide os p pkg s) w")
    then have w1: "refs_ok w1" "tracker_get p w1 = Some s" "procs (tracker w1) = procs (tracker w)"
      using w Some
      by (auto simp: enter_decide_def on_kern_def refs_ok_def tracker_get_def split: if_splits prod.splits)
    show ?thesis
    proof (cases a)
      case FastPath
      with a Some w1 show ?thesis by (simp add: tracker_enter_def)
    next
      case ExecUpdate
      with a Some w1 keepsD [OF refs_with_proc [of "\<lambda>s. s\<lparr>ps_pkg := pkg\<rparr>" p] w1(1)] show ?thesis
        by (simp add: tracker_enter_def)
    next
      case PidReuse
      let ?w2 = "snd (run_state (drop_and_release os p s) w1)"
      have "refs_ok ?w2" "tracker_get p ?w2 = None"
        using drop_and_release_ok [OF w1(1,2), of os] by (simp_all add: tracker_get_def map_of_delete)
      from insert_new_ok [OF this] a Some PidReuse show ?thesis
        by (simp add: tracker_enter_def drop_and_release_def case_prod_beta)
    qed
  qed
  then show ?thesis by (simp add: keeps_def)
qed

lemma register_dir_ok:
  assumes "refs_ok w"
  shows "refs_ok (register_dir p d w)"
proof (cases "tracker_get p w")
  case None
  with assms show ?thesis by (simp add: register_dir_def)
next
  case (Some s)
  show ?thesis
  proof (cases "d = [] \<or> d \<in> set (applied_dirs s)")
    case True
    with assms Some show ?thesis by (auto simp: register_dir_def)
  next
    case False
    let ?ps = "procs (tracker w)" and ?refs = "cpuset_refs (tracker w)"
    let ?s = "s\<lparr>applied_dirs := applied_dirs s @ [d]\<rparr>"
    have ok: "procs_ok ?ps" "map_of ?ps p = Some s"
      using assms Some by (simp_all add: refs_ok_def tracker_get_def)
    then have "dirs_ok ?s" using procs_ok_get [OF ok] False by (auto simp: dirs_ok_def)
    then have procs: "procs_ok (AList.update p ?s ?ps)" using ok by (simp add: procs_ok_update)
    have h: "holders (AList.update p ?s ?ps) e = holders ?ps e + of_bool (e = d)" for e
      using holders_update [of ?ps p ?s e] ok False by (auto simp: procs_ok_def split: if_splits)
    have refs: "?refs e = (if holders ?ps e = 0 then None else Some (holders ?ps e))" for e
      using assms unfolding refs_ok_def refs_match_def by blast
    then have "(case ?refs d of None \<Rightarrow> 0 | Some k \<Rightarrow> k) = holders ?ps d" by simp
    then have "refs_match (?refs(d \<mapsto> (case ?refs d of None \<Rightarrow> 0 | Some k \<Rightarrow> k) + 1))
        (holders (AList.update p ?s ?ps))"
      using refs by (simp add: refs_match_def h)
    with Some False procs show ?thesis
      by (simp add: register_dir_def Let_def refs_ok_def set_refs_def put_proc_def)
  qed
qed

lemma refs_register: "keeps refs_ok (register_dirs p dirs)"
proof -
  have "refs_ok w \<Longrightarrow> refs_ok (fold (register_dir p) dirs w)" for w :: "'k world"
    by (induction dirs arbitrary: w) (simp_all add: register_dir_ok)
  then show ?thesis unfolding register_dirs_def by (rule keeps_modify)
qed

lemma refs_retain: "keeps refs_ok (retain_interested os pkg_set)"
  unfolding retain_interested_def by (intro keeps_intros refs_remove)

section \<open>What the operations do\<close>

lemma release_frame:
  "procs (tracker (snd (run_state (release_dir os d u) w))) = procs (tracker w)"
  by (auto simp: release_dir_def set_refs_def on_kern_def forget_cpuset_dir_def
      split: prod.splits option.splits)

lemma release_fold_frame:
  "procs (tracker (snd (run_state (foldM (release_dir os) ds u) w))) = procs (tracker w)"
proof (induction ds arbitrary: u w)
  case Nil
  then show ?case by simp
next
  case (Cons d ds)
  then show ?case using release_frame [of os d u w] by (simp add: case_prod_beta)
qed

lemma remove_procs:
  "procs (tracker (snd (run_state (tracker_remove os p) w))) = AList.delete p (procs (tracker w))"
proof (cases "tracker_get p w")
  case None
  then have "p \<notin> fst ` set (procs (tracker w))" by (simp add: tracker_get_def map_of_eq_None_iff)
  then show ?thesis by (simp add: tracker_remove_def None delete_id)
next
  case (Some s)
  then show ?thesis
    by (simp add: tracker_remove_def release_state_def release_fold_frame drop_proc_def case_prod_beta)
qed

lemma remove_result: "fst (run_state (tracker_remove os p) w) = tracker_contains p w"
  by (simp add: tracker_remove_def tracker_contains_def case_prod_beta split: option.splits)

lemma remove_get:
  "tracker_get q (snd (run_state (tracker_remove os p) w)) = (if q = p then None else tracker_get q w)"
  by (simp add: tracker_get_def remove_procs delete_conv)

lemma update_get:
  "tracker_get q (put_proc p s w) = (if q = p then Some s else tracker_get q w)"
  by (simp add: tracker_get_def put_proc_def update_conv)

lemma kern_get: "tracker_get q (w\<lparr>kern := k\<rparr>) = tracker_get q w"
  by (simp add: tracker_get_def)

text \<open>After entering, the process is tracked, and no other process changes.\<close>

lemma insert_new_get:
  "tracker_get q (snd (run_state (insert_new os p pkg now) w)) \<noteq> None \<longleftrightarrow>
     q = p \<or> tracker_get q w \<noteq> None"
  by (auto simp: insert_new_def on_kern_def update_get kern_get split: prod.splits)

lemma drop_get: "tracker_get q (drop_proc p w) = (if q = p then None else tracker_get q w)"
  by (simp add: tracker_get_def drop_proc_def delete_conv)

lemma release_get: "tracker_get q (snd (run_state (release_state os s) w)) = tracker_get q w"
  by (simp add: tracker_get_def release_state_def release_fold_frame)

lemma enter_tracked:
  "tracker_get q (snd (run_state (tracker_enter os p pkg now) w)) \<noteq> None \<longleftrightarrow>
     q = p \<or> tracker_get q w \<noteq> None"
proof (cases "tracker_get p w")
  case None
  then show ?thesis using insert_new_get by (simp add: tracker_enter_def)
next
  case (Some s)
  obtain a w1 where a: "run_state (enter_decide os p pkg s) w = (a, w1)"
    by (cases "run_state (enter_decide os p pkg s) w")
  then have w1: "tracker_get r w1 = tracker_get r w" for r
    by (auto simp: enter_decide_def on_kern_def tracker_get_def split: if_splits prod.splits)
  show ?thesis
  proof (cases a)
    case FastPath
    with a Some w1 show ?thesis by (auto simp: tracker_enter_def)
  next
    case ExecUpdate
    with a Some w1 show ?thesis
      by (auto simp: tracker_enter_def with_proc_def update_get split: option.splits)
  next
    case PidReuse
    have "tracker_get r (snd (run_state (release_state os s) (drop_proc p w1))) =
        (if r = p then None else tracker_get r w)" for r
      by (simp add: release_get drop_get w1)
    with a Some PidReuse
      insert_new_get [of q os p pkg now "snd (run_state (release_state os s) (drop_proc p w1))"]
    show ?thesis by (simp add: tracker_enter_def case_prod_beta)
  qed
qed

text \<open>The package of a process is the old one or the one it was entered with.\<close>

lemma insert_new_pkg:
  "tracker_get q (snd (run_state (insert_new os p pkg now) w)) = Some s \<Longrightarrow>
     tracker_get q w = Some s \<or> q = p \<and> ps_pkg s = pkg"
  by (auto simp: insert_new_def on_kern_def update_get kern_get process_new_def split: prod.splits if_splits)

lemma enter_pkg:
  assumes "tracker_get q (snd (run_state (tracker_enter os p pkg now) w)) = Some s"
  shows "tracker_get q w = Some s \<or> q = p \<and> ps_pkg s = pkg"
proof (cases "tracker_get p w")
  case None
  with assms insert_new_pkg show ?thesis by (simp add: tracker_enter_def)
next
  case (Some t)
  obtain a w1 where a: "run_state (enter_decide os p pkg t) w = (a, w1)"
    by (cases "run_state (enter_decide os p pkg t) w")
  then have w1: "tracker_get r w1 = tracker_get r w" for r
    by (auto simp: enter_decide_def on_kern_def tracker_get_def split: if_splits prod.splits)
  show ?thesis
  proof (cases a)
    case FastPath
    with a Some w1 assms show ?thesis by (auto simp: tracker_enter_def)
  next
    case ExecUpdate
    with a Some w1 assms show ?thesis
      by (auto simp: tracker_enter_def with_proc_def update_get split: option.splits if_splits)
  next
    case PidReuse
    with a Some assms have
      "tracker_get q (snd (run_state (insert_new os p pkg now) (snd (run_state (release_state os t) (drop_proc p w1))))) = Some s"
      by (simp add: tracker_enter_def case_prod_beta)
    from insert_new_pkg [OF this] show ?thesis by (auto simp: release_get drop_get w1 split: if_splits)
  qed
qed

text \<open>Forgetting the processes of other packages.\<close>

lemma retain_fold:
  "tracker_get q (snd (run_state (foldM (\<lambda>p _. do { _ \<leftarrow> tracker_remove os p; ret () }) ps u) w)) =
     (if q \<in> set ps then None else tracker_get q w)"
  by (induction ps arbitrary: u w) (simp_all add: case_prod_beta remove_get)

lemma retain_get:
  assumes "distinct (tracker_pids w)"
  shows "tracker_get q (snd (run_state (retain_interested os pkgs) w)) =
    (case tracker_get q w of None \<Rightarrow> None | Some s \<Rightarrow> if ps_pkg s \<in> pkgs then Some s else None)"
proof -
  have key: "map_of (procs (tracker w)) q = Some s \<longleftrightarrow> (q, s) \<in> set (procs (tracker w))" for s
    using assms by (simp add: tracker_pids_def)
  have "q \<in> set (map fst (filter (\<lambda>(_, s). ps_pkg s \<notin> pkgs) (procs (tracker w)))) \<longleftrightarrow>
      (\<exists>s. tracker_get q w = Some s \<and> ps_pkg s \<notin> pkgs)"
    by (force simp: tracker_get_def key)
  then show ?thesis
    by (simp only: retain_interested_def run_state_bind run_gets case_prod_conv retain_fold) (auto split: option.split)
qed

end
