(* ===== verification/Engine.thy ===== *)
theory Engine
  imports Policy_Apply Tracker_Facts Decision
begin

text \<open>
  The event engine (crates/core/src/engine.rs): every event of either source is resolved here
  to rule matches and thread policies; relocking runs the same scan over the tracked processes
  behind the decision gate. The borrowed cache of thread names is taken out of the process and
  put back, as in the code.
\<close>

section \<open>Events (crates/core/src/event.rs)\<close>

datatype EventKind = Fork | Exec | ThreadClone | CpuMigrate | Exit

record ProcessEvent =
  ev_pid :: pid
  ev_tid :: pid
  ev_kind :: EventKind
  ev_cpu :: "nat option"
  ev_pkg :: "string option"

definition ev_fork :: "pid \<Rightarrow> pid \<Rightarrow> ProcessEvent" where
  "ev_fork p t = \<lparr>ev_pid = p, ev_tid = t, ev_kind = Fork, ev_cpu = None, ev_pkg = None\<rparr>"

definition ev_exec :: "pid \<Rightarrow> pid \<Rightarrow> ProcessEvent" where
  "ev_exec p t = \<lparr>ev_pid = p, ev_tid = t, ev_kind = Exec, ev_cpu = None, ev_pkg = None\<rparr>"

definition ev_thread_clone :: "pid \<Rightarrow> pid \<Rightarrow> ProcessEvent" where
  "ev_thread_clone p t = \<lparr>ev_pid = p, ev_tid = t, ev_kind = ThreadClone, ev_cpu = None, ev_pkg = None\<rparr>"

definition ev_cpu_migrate :: "pid \<Rightarrow> pid \<Rightarrow> nat \<Rightarrow> ProcessEvent" where
  "ev_cpu_migrate p t c = \<lparr>ev_pid = p, ev_tid = t, ev_kind = CpuMigrate, ev_cpu = Some c, ev_pkg = None\<rparr>"

definition ev_exit :: "pid \<Rightarrow> pid \<Rightarrow> ProcessEvent" where
  "ev_exit p t = \<lparr>ev_pid = p, ev_tid = t, ev_kind = Exit, ev_cpu = None, ev_pkg = None\<rparr>"

definition with_pkg :: "string \<Rightarrow> ProcessEvent \<Rightarrow> ProcessEvent" where
  "with_pkg pkg e = e\<lparr>ev_pkg := Some pkg\<rparr>"

section \<open>Scanning a process\<close>

definition THREAD_SCAN_TTL_SECS :: int where "THREAD_SCAN_TTL_SECS = 2"

definition mark_scanned :: "pid \<Rightarrow> int \<Rightarrow> ('k world, unit) state" where
  "mark_scanned p now = with_proc p (\<lambda>s. s\<lparr>initial_scan_done := True, last_scan_time := now\<rparr>)"

text \<open>\<open>mem::replace\<close> on the cache of the process that was just entered.\<close>

definition take_names :: "pid \<Rightarrow> int \<Rightarrow> ('k world, ThreadNameCache) state" where
  "take_names p now = do {
     c \<leftarrow> gets (\<lambda>w. case tracker_get p w of None \<Rightarrow> name_cache_new now | Some s \<Rightarrow> tid_names s);
     _ \<leftarrow> with_proc p (\<lambda>s. s\<lparr>tid_names := name_cache_new now\<rparr>);
     ret c
   }"

text \<open>The loop's mutable locals: the name cache, the count and the directories.\<close>

type_synonym scan_st = "ThreadNameCache \<times> nat \<times> string list"

definition scan_tid ::
  "'k os \<Rightarrow> fnmatch \<Rightarrow> CpuTopology \<Rightarrow> string \<Rightarrow> int \<Rightarrow> bool \<Rightarrow> bool \<Rightarrow> pid \<Rightarrow> scan_st \<Rightarrow>
   ('k world, scan_st) state" where
  "scan_tid os fnm topo pkg now rt_allowed thread_rules tid acc =
     (case acc of (cache, applied, dirs) \<Rightarrow> do {
        nc \<leftarrow> (if thread_rules then on_kern (get_or_read os tid now cache) else ret ([], cache));
        r \<leftarrow> on_rules (resolve fnm pkg (fst nc));
        (case r of
           None \<Rightarrow> ret (snd nc, applied, dirs)
         | Some policy \<Rightarrow> do {
             outcome \<leftarrow> apply_thread os tid pkg policy topo rt_allowed;
             ret (if outcome = Exited \<or> outcome = SkippedNoCpus then (snd nc, applied, dirs)
                  else (snd nc, applied + 1,
                        if cpuset_dir policy \<in> set dirs then dirs else dirs @ [cpuset_dir policy]))
           })
      })"

definition refresh_process_rules ::
  "'k os \<Rightarrow> fnmatch \<Rightarrow> CpuTopology \<Rightarrow> pid \<Rightarrow> string \<Rightarrow> int \<Rightarrow> bool \<Rightarrow> ('k world, nat \<times> string list) state" where
  "refresh_process_rules os fnm topo p pkg now rt_allowed = do {
     tids \<leftarrow> on_kern (list_tids os p);
     thread_rules \<leftarrow> on_rules (has_thread_rules fnm pkg);
     _ \<leftarrow> tracker_enter os p pkg now;
     cache \<leftarrow> take_names p now;
     st \<leftarrow> foldM (scan_tid os fnm topo pkg now rt_allowed thread_rules) tids (cache, 0, []);
     _ \<leftarrow> tracker_enter os p pkg now;
     _ \<leftarrow> with_proc p (\<lambda>s. s\<lparr>tid_names := names_retain (set tids) (fst st), applied_tids := set tids\<rparr>);
     ret (fst (snd st), snd (snd st))
   }"

definition full_scan ::
  "'k os \<Rightarrow> fnmatch \<Rightarrow> CpuTopology \<Rightarrow> pid \<Rightarrow> string \<Rightarrow> int \<Rightarrow> bool \<Rightarrow> ('k world, nat) state" where
  "full_scan os fnm topo p pkg now rt_allowed = do {
     nd \<leftarrow> refresh_process_rules os fnm topo p pkg now rt_allowed;
     _ \<leftarrow> register_dirs p (snd nd);
     _ \<leftarrow> mark_scanned p now;
     ret (fst nd)
   }"

section \<open>One new thread\<close>

definition add_tid :: "pid \<Rightarrow> pid \<Rightarrow> ('k world, unit) state" where
  "add_tid p tid = with_proc p (\<lambda>s. s\<lparr>applied_tids := insert tid (applied_tids s)\<rparr>)"

text \<open>The name of a thread through the process's own cache.\<close>

definition thread_name :: "'k os \<Rightarrow> pid \<Rightarrow> pid \<Rightarrow> int \<Rightarrow> ('k world, string) state" where
  "thread_name os p tid now = do {
     ex \<leftarrow> gets (tracker_get p);
     (case ex of
        None \<Rightarrow> ret []
      | Some s \<Rightarrow> do {
          nc \<leftarrow> on_kern (get_or_read os tid now (tid_names s));
          _ \<leftarrow> with_proc p (\<lambda>s. s\<lparr>tid_names := snd nc\<rparr>);
          ret (fst nc)
        })
   }"

definition apply_single_tid ::
  "'k os \<Rightarrow> fnmatch \<Rightarrow> CpuTopology \<Rightarrow> pid \<Rightarrow> string \<Rightarrow> pid \<Rightarrow> int \<Rightarrow> bool \<Rightarrow> ('k world, nat) state" where
  "apply_single_tid os fnm topo p pkg tid now rt_allowed = do {
     _ \<leftarrow> tracker_enter os p pkg now;
     done \<leftarrow> gets (\<lambda>w. case tracker_get p w of None \<Rightarrow> False | Some s \<Rightarrow> tid \<in> applied_tids s);
     if done then ret 0
     else do {
       thread_rules \<leftarrow> on_rules (has_thread_rules fnm pkg);
       tname \<leftarrow> (if thread_rules then thread_name os p tid now else ret []);
       r \<leftarrow> on_rules (resolve fnm pkg tname);
       (case r of
          None \<Rightarrow> do { _ \<leftarrow> add_tid p tid; ret 0 }
        | Some policy \<Rightarrow> do {
            outcome \<leftarrow> apply_thread os tid pkg policy topo rt_allowed;
            if outcome = Exited then ret 0
            else if outcome = SkippedNoCpus then do { _ \<leftarrow> add_tid p tid; ret 0 }
            else do {
              _ \<leftarrow> add_tid p tid;
              _ \<leftarrow> register_dirs p [cpuset_dir policy];
              ret 1
            }
          })
     }
   }"

section \<open>Handling events\<close>

definition need_full :: "ProcessState option \<Rightarrow> int \<Rightarrow> bool" where
  "need_full ex now =
     (case ex of None \<Rightarrow> True
      | Some s \<Rightarrow> \<not> initial_scan_done s \<or> THREAD_SCAN_TTL_SECS \<le> now - last_scan_time s)"

definition event_pkg :: "'k os \<Rightarrow> ProcessEvent \<Rightarrow> ('k world, string) state" where
  "event_pkg os ev =
     (case ev_pkg ev of
        Some pkg \<Rightarrow> ret pkg
      | None \<Rightarrow> do {
          r \<leftarrow> on_kern (read_cmdline os (ev_pid ev));
          ret (case r of None \<Rightarrow> [] | Some s \<Rightarrow> s)
        })"

definition handle_event ::
  "'k os \<Rightarrow> fnmatch \<Rightarrow> CpuTopology \<Rightarrow> int \<Rightarrow> bool \<Rightarrow> ProcessEvent \<Rightarrow> ('k world, nat) state" where
  "handle_event os fnm topo now rt_allowed ev =
     (if ev_kind ev = Exit
      then (if ev_tid ev \<noteq> ev_pid ev
            then do { _ \<leftarrow> remove_tid (ev_pid ev) (ev_tid ev); ret 0 }
            else do { _ \<leftarrow> tracker_remove os (ev_pid ev); ret 0 })
      else if ev_kind ev = CpuMigrate then ret 0
      else do {
        pkg \<leftarrow> event_pkg os ev;
        if pkg = [] then ret 0
        else do {
          interested \<leftarrow> on_rules (is_interested fnm pkg);
          if \<not> interested then do {
            tracked \<leftarrow> gets (tracker_contains (ev_pid ev));
            _ \<leftarrow> (if tracked then tracker_remove os (ev_pid ev) else ret False);
            ret 0
          }
          else if ev_kind ev = Exec then do {
            _ \<leftarrow> tracker_remove os (ev_pid ev);
            full_scan os fnm topo (ev_pid ev) pkg now rt_allowed
          }
          else if ev_kind ev = Fork then full_scan os fnm topo (ev_pid ev) pkg now rt_allowed
          else do {
            ex \<leftarrow> gets (tracker_get (ev_pid ev));
            if need_full ex now then full_scan os fnm topo (ev_pid ev) pkg now rt_allowed
            else apply_single_tid os fnm topo (ev_pid ev) pkg (ev_tid ev) now rt_allowed
          }
        }
      })"

definition handle_events ::
  "'k os \<Rightarrow> fnmatch \<Rightarrow> CpuTopology \<Rightarrow> int \<Rightarrow> ProcessEvent list \<Rightarrow> ('k world, nat) state" where
  "handle_events os fnm topo now evs = do {
     rt_allowed \<leftarrow> on_kern (can_rt_sched os);
     foldM (\<lambda>ev n. do { k \<leftarrow> handle_event os fnm topo now rt_allowed ev; ret (n + k) }) evs 0
   }"

section \<open>Relocking\<close>

record RelockContext =
  rx_pressure :: PressureLevel
  rx_thermal_pressure :: f64
  rx_freq_throttle :: f64
  rx_audit_failure_rate :: f64

fun bump_stats :: "Decision \<Rightarrow> RelockStats \<Rightarrow> RelockStats" where
  "bump_stats (Allow _) s = s\<lparr>rst_allow := rst_allow s + 1\<rparr>"
| "bump_stats (Skip _) s = s\<lparr>rst_skip := rst_skip s + 1\<rparr>"
| "bump_stats (Degrade _ _) s = s\<lparr>rst_degrade := rst_degrade s + 1\<rparr>"

definition bump_relock :: "Decision \<Rightarrow> ('k world, unit) state" where
  "bump_relock d = modify (\<lambda>w. w\<lparr>relock_stats := bump_stats d (relock_stats w)\<rparr>)"

definition relock_context :: "RelockContext \<Rightarrow> int \<Rightarrow> DecisionContext" where
  "relock_context rx oom =
     (let it = from_oom_adj oom in
      \<lparr>intent = it, pressure = rx_pressure rx, thermal_pressure = rx_thermal_pressure rx,
       freq_throttle = rx_freq_throttle rx, foreground = (it = Interactive),
       audit_failure_rate = rx_audit_failure_rate rx\<rparr>)"

definition relock_one ::
  "'k os \<Rightarrow> fnmatch \<Rightarrow> CpuTopology \<Rightarrow> int \<Rightarrow> RelockContext \<Rightarrow> DecisionEngine \<Rightarrow> bool \<Rightarrow> pid \<Rightarrow> nat \<Rightarrow>
   ('k world, nat) state" where
  "relock_one os fnm topo now rx de rt_allowed p n = do {
     ex \<leftarrow> gets (tracker_get p);
     (case ex of
        None \<Rightarrow> ret n
      | Some s \<Rightarrow> do {
          alive \<leftarrow> on_kern (is_alive os p);
          if \<not> alive then do { _ \<leftarrow> tracker_remove os p; ret n }
          else do {
            oom \<leftarrow> on_kern (read_oom_adj os p);
            let d = decide_ctx de (relock_context rx oom);
            _ \<leftarrow> bump_relock d;
            (case d of
               Allow _ \<Rightarrow> do {
                 nd \<leftarrow> refresh_process_rules os fnm topo p (ps_pkg s) now rt_allowed;
                 _ \<leftarrow> register_dirs p (snd nd);
                 ret (n + fst nd)
               }
             | _ \<Rightarrow> ret n)
          }
        })
   }"

definition relock_all ::
  "'k os \<Rightarrow> fnmatch \<Rightarrow> CpuTopology \<Rightarrow> int \<Rightarrow> RelockContext \<Rightarrow> DecisionEngine \<Rightarrow> ('k world, nat) state" where
  "relock_all os fnm topo now rx de = do {
     rt_allowed \<leftarrow> on_kern (can_rt_sched os);
     pids \<leftarrow> gets tracker_pids;
     foldM (relock_one os fnm topo now rx de rt_allowed) pids 0
   }"

definition cleanup_one :: "'k os \<Rightarrow> pid \<Rightarrow> nat \<Rightarrow> ('k world, nat) state" where
  "cleanup_one os p n = do {
     alive \<leftarrow> on_kern (is_alive os p);
     if alive then ret n
     else do { b \<leftarrow> tracker_remove os p; ret (if b then n + 1 else n) }
   }"

definition cleanup_dead :: "'k os \<Rightarrow> ('k world, nat) state" where
  "cleanup_dead os = do {
     pids \<leftarrow> gets tracker_pids;
     foldM (cleanup_one os) pids 0
   }"

definition tracked_summary :: "'k world \<Rightarrow> (pid \<times> string \<times> nat) list" where
  "tracked_summary w =
     List.map_filter (\<lambda>p. map_option (\<lambda>s. (p, ps_pkg s, card (applied_tids s))) (tracker_get p w))
       (tracker_pids w)"

end
