(* ===== verification/Bytes.thy ===== *)
theory Bytes
  imports Os
begin

text \<open>
  32-bit numbers in little-endian byte order, as in the structures the kernel hands to the
  program: the events of the ring buffer and those of inotify.
\<close>

definition le32 :: "u32 \<Rightarrow> string" where
  "le32 w = map (\<lambda>i. char_of (unat w div 256 ^ i)) [0..<4]"

fun le_nat :: "string \<Rightarrow> nat" where
  "le_nat [] = 0"
| "le_nat (c # cs) = char_code c + 256 * le_nat cs"

definition read32 :: "nat \<Rightarrow> string \<Rightarrow> u32" where
  "read32 off bytes = word_of_nat (le_nat (take 4 (drop off bytes)))"

lemma le_nat_digits: "le_nat (map (\<lambda>i. char_of (n div 256 ^ i)) [0..<k]) = n mod 256 ^ k"
proof (induction k arbitrary: n)
  case (Suc k)
  have "map (\<lambda>i. char_of (n div 256 ^ i) :: char) [0..<Suc k] =
      char_of n # map (\<lambda>i. char_of (n div 256 div 256 ^ i)) [0..<k]"
    by (simp add: map_upt_Suc div_mult2_eq del: upt_Suc)
  then show ?case using Suc by (simp add: char_code_def mod_mult2_eq del: upt_Suc)
qed simp

lemma le_nat_le32: "le_nat (le32 w) = unat w"
proof -
  have "unat w < 256 ^ 4" using unsigned_less [of w] by simp
  then show ?thesis by (simp add: le32_def le_nat_digits del: power_numeral upt_rec_numeral)
qed

lemma le32_length [simp]: "length (le32 w) = 4"
  by (simp add: le32_def)

lemma read32_at [simp]: "length xs = off \<Longrightarrow> read32 off (xs @ le32 w @ ys) = w"
  by (simp add: read32_def le_nat_le32)

end
