(* ===== verification/Ebpf_Kernel.thy ===== *)
theory Ebpf_Kernel
  imports Bytes
begin

text \<open>
  The eBPF program (crates/ebpf/src/main.rs): the three tracepoints, the whitelist over the
  sliding windows of a task name, and the limiter of bursts. The BPF maps, the ring buffer and
  the clock belong to the kernel and are the record of calls below; a map of the kernel may
  refuse an insertion and the limiter's map may evict entries, so no law is assumed here.
\<close>

section \<open>Events and calls\<close>

definition EVENT_FORK :: u32 where "EVENT_FORK = 1"
definition EVENT_EXEC :: u32 where "EVENT_EXEC = 2"
definition EVENT_EXIT :: u32 where "EVENT_EXIT = 3"

record ProcEvent =
  pe_pid :: pid
  pe_tid :: pid
  child_pid :: pid
  comm :: string
  event_type :: u32

text \<open>
  The \<open>repr(C)\<close> layout of an event: three 32-bit numbers, sixteen bytes and one more number, all
  at their natural alignment and in the byte order of the (little-endian) devices.
\<close>

definition pid_word :: "pid \<Rightarrow> u32" where
  "pid_word p = word_of_int p"

definition wire :: "ProcEvent \<Rightarrow> string" where
  "wire ev = le32 (pid_word (pe_pid ev)) @ le32 (pid_word (pe_tid ev)) @ le32 (pid_word (child_pid ev))
     @ comm ev @ le32 (event_type ev)"

record DedupEntry =
  last_ns :: u64
  dd_count :: u32

definition DEDUP_WINDOW_NS :: u64 where "DEDUP_WINDOW_NS = 100000000"
definition DEDUP_MAX_COUNT :: u32 where "DEDUP_MAX_COUNT = 2"

text \<open>
  Lookups do not change the state of the maps; \<open>read_comm\<close> and \<open>read_pid\<close> are reads of the
  tracepoint's arguments at an offset, \<open>reserve\<close> says whether the ring buffer has room.
\<close>

record 'b bpf =
  target_has :: "string \<Rightarrow> 'b \<Rightarrow> bool"
  tracked_has :: "pid \<Rightarrow> 'b \<Rightarrow> bool"
  dedup_get :: "u32 \<Rightarrow> 'b \<Rightarrow> DedupEntry option"
  dedup_insert :: "u32 \<Rightarrow> DedupEntry \<Rightarrow> 'b \<Rightarrow> 'b"
  ring_reserve :: "'b \<Rightarrow> bool"
  ring_submit :: "ProcEvent \<Rightarrow> 'b \<Rightarrow> 'b"
  ktime :: "'b \<Rightarrow> u64 \<times> 'b"
  pid_tgid :: "'b \<Rightarrow> u64"
  current_comm :: "'b \<Rightarrow> string option"
  read_comm :: "nat \<Rightarrow> 'b \<Rightarrow> string option"
  read_pid :: "nat \<Rightarrow> 'b \<Rightarrow> pid option"

section \<open>Filters\<close>

text \<open>What one call does to an entry: whether the event is dropped, and the entry to write.\<close>

definition dedup_entry :: "DedupEntry option \<Rightarrow> u64 \<Rightarrow> bool \<times> DedupEntry" where
  "dedup_entry prev now =
     (let (last, cnt) = (case prev of Some e \<Rightarrow> (last_ns e, dd_count e) | None \<Rightarrow> (0, 0))
      in if now - last < DEDUP_WINDOW_NS
         then (DEDUP_MAX_COUNT < cnt + 1, \<lparr>last_ns = last, dd_count = cnt + 1\<rparr>)
         else (False, \<lparr>last_ns = now, dd_count = 1\<rparr>))"

definition should_dedup :: "'b bpf \<Rightarrow> u32 \<Rightarrow> u64 \<Rightarrow> 'b \<Rightarrow> bool \<times> 'b" where
  "should_dedup k key now b =
     (case dedup_entry (dedup_get k key b) now of
        (dropped, e) \<Rightarrow> if dropped then (True, b) else (False, dedup_insert k key e b))"

definition comm_key :: "string \<Rightarrow> nat \<Rightarrow> string" where
  "comm_key c pos = take 8 (drop pos c)"

text \<open>The loop over the nine positions; it stops at the first hit.\<close>

fun comm_scan :: "'b bpf \<Rightarrow> string \<Rightarrow> nat list \<Rightarrow> 'b \<Rightarrow> bool" where
  "comm_scan k c [] b = False"
| "comm_scan k c (pos # ps) b = (if target_has k (comm_key c pos) b then True else comm_scan k c ps b)"

definition comm_matches :: "'b bpf \<Rightarrow> string \<Rightarrow> 'b \<Rightarrow> bool" where
  "comm_matches k c b = comm_scan k c [0..<9] b"

section \<open>Tracepoints\<close>

definition emit :: "'b bpf \<Rightarrow> ProcEvent \<Rightarrow> 'b \<Rightarrow> 'b" where
  "emit k ev b = (if ring_reserve k b then ring_submit k ev b else b)"

definition submit_event :: "'b bpf \<Rightarrow> pid \<Rightarrow> pid \<Rightarrow> pid \<Rightarrow> string \<Rightarrow> u32 \<Rightarrow> 'b \<Rightarrow> 'b" where
  "submit_event k p t child c ty b =
     (let ev = \<lparr>pe_pid = p, pe_tid = t, child_pid = child, comm = c, event_type = ty\<rparr> in
      if ty = EVENT_EXIT then emit k ev b
      else if \<not> comm_matches k c b then b
      else (case ktime k b of (now, b1) \<Rightarrow>
        (case should_dedup k (pid_word (if ty = EVENT_FORK then child else p)) now b1 of
           (dropped, b2) \<Rightarrow> if dropped then b2 else emit k ev b2)))"

definition no_comm :: string where
  "no_comm = replicate 16 nul"

text \<open>\<open>as i32\<close> on the two halves of the combined identifier.\<close>

definition hi32 :: "u64 \<Rightarrow> pid" where
  "hi32 x = sint (ucast (drop_bit 32 x) :: u32)"

definition lo32 :: "u64 \<Rightarrow> pid" where
  "lo32 x = sint (ucast x :: u32)"

definition sched_process_fork :: "'b bpf \<Rightarrow> 'b \<Rightarrow> 'b" where
  "sched_process_fork k b =
     (let c = (case read_comm k 28 b of None \<Rightarrow> no_comm | Some c \<Rightarrow> c);
          p = (case read_pid k 44 b of None \<Rightarrow> 0 | Some p \<Rightarrow> p)
      in submit_event k p p p c EVENT_FORK b)"

definition current_name :: "'b bpf \<Rightarrow> 'b \<Rightarrow> string" where
  "current_name k b = (case current_comm k b of None \<Rightarrow> no_comm | Some c \<Rightarrow> c)"

definition sched_process_exec :: "'b bpf \<Rightarrow> 'b \<Rightarrow> 'b" where
  "sched_process_exec k b =
     submit_event k (hi32 (pid_tgid k b)) (lo32 (pid_tgid k b)) 0 (current_name k b) EVENT_EXEC b"

definition sched_process_exit :: "'b bpf \<Rightarrow> 'b \<Rightarrow> 'b" where
  "sched_process_exit k b =
     (let tgid = hi32 (pid_tgid k b); tid = lo32 (pid_tgid k b)
      in if \<not> tracked_has k tgid b then b
         else submit_event k tgid tid 0 (current_name k b) EVENT_EXIT b)"

end
