(* ===== verification/Ebpf_Source.thy ===== *)
theory Ebpf_Source
  imports Engine Ebpf_Kernel "HOL-Library.Log_Nat"
begin

text \<open>
  The event source on top of the eBPF program (crates/daemon/src/ebpf_source.rs): the whitelist
  keys, the queue of forks whose command line is not readable yet, the split of forks into
  processes and threads, and the table of tracked processes in the kernel. The maps, reached
  through the aya crate, and the channel of the reader thread are the record of calls below.
  A source is passed and returned; it holds the rule set of its configuration, whose cache it
  fills by its own queries.
\<close>

section \<open>Calls\<close>

text \<open>An insertion or removal drops its error; \<open>open\<close> says whether the map is accessible.\<close>

record 'k ebpf_os =
  tracked_open :: "'k \<Rightarrow> bool \<times> 'k"
  tracked_put :: "pid \<Rightarrow> 'k \<Rightarrow> unit \<times> 'k"
  tracked_del :: "pid \<Rightarrow> 'k \<Rightarrow> unit \<times> 'k"
  tracked_keys :: "'k \<Rightarrow> pid list \<times> 'k"
  target_open :: "'k \<Rightarrow> bool \<times> 'k"
  target_put :: "string \<Rightarrow> 'k \<Rightarrow> unit \<times> 'k"
  target_del :: "string \<Rightarrow> 'k \<Rightarrow> unit \<times> 'k"
  target_keys :: "'k \<Rightarrow> string list \<times> 'k"
  try_recv :: "'k \<Rightarrow> ProcEvent option \<times> 'k"

definition now_instant :: "'k os \<Rightarrow> ('k world, instant) state" where
  "now_instant os = on_kern (sys (os_instant os))"

text \<open>A query of the source's own rule set.\<close>

definition ask :: "fnmatch \<Rightarrow> string \<Rightarrow> RuleSet \<Rightarrow> bool \<times> RuleSet" where
  "ask fnm pkg rs = run_state (is_interested fnm pkg) rs"

section \<open>State\<close>

record PendingFork =
  pf_child :: pid
  pf_retry :: nat
  pf_next :: instant

definition PENDING_BACKOFF_MS :: "nat list" where "PENDING_BACKOFF_MS = [100, 300, 1000]"
definition PENDING_MAX_RETRIES :: nat where "PENDING_MAX_RETRIES = 3"
definition PENDING_MAX_PENDING :: nat where "PENDING_MAX_PENDING = 128"
definition TRACKED_SYNC_SECS :: nat where "TRACKED_SYNC_SECS = 30"
definition DRAIN_MAX :: nat where "DRAIN_MAX = 256"

record EbpfSource =
  es_rules :: "RuleSet option"
  es_pending :: "PendingFork list"
  es_scan_done :: bool
  es_scanned :: "pid set"
  es_last_sync :: instant

definition ebpf_new :: "instant \<Rightarrow> EbpfSource" where
  "ebpf_new now = \<lparr>es_rules = None, es_pending = [], es_scan_done = False, es_scanned = {},
     es_last_sync = now\<rparr>"

section \<open>Loading\<close>

text \<open>
  The steps of the loader, each of which may fail: finding the object file beside the executable,
  reading it, loading it with a map capacity, attaching a program, and opening the ring buffer.
\<close>

datatype attach_error = NoProgram | WrongType | NotLoaded | NotAttached
datatype ebpf_error =
  NoObject | ObjectUnreadable | NotLoadable | ProgramFailed string attach_error | NoEvents | BadRing

record 'k ebpf_loader =
  ld_find :: "'k \<Rightarrow> bool \<times> 'k"
  ld_read :: "'k \<Rightarrow> bool \<times> 'k"
  ld_load :: "nat \<Rightarrow> 'k \<Rightarrow> bool \<times> 'k"
  ld_attach :: "string \<Rightarrow> 'k \<Rightarrow> attach_error option \<times> 'k"
  ld_events :: "'k \<Rightarrow> bool \<times> 'k"
  ld_ring :: "'k \<Rightarrow> bool \<times> 'k"

text \<open>\<open>u32::next_power_of_two\<close>, which overflows to 0 in a release build.\<close>

definition next_power_of_two :: "nat \<Rightarrow> nat" where
  "next_power_of_two n = 2 ^ floorlog 2 (n - 1) mod 2 ^ 32"

definition map_capacity :: "nat \<Rightarrow> nat" where
  "map_capacity pkg_count = max (next_power_of_two ((pkg_count * 2) mod 2 ^ 32)) 64"

definition PROGRAMS :: "string list" where
  "PROGRAMS = [''sched_process_fork'', ''sched_process_exec'', ''sched_process_exit'']"

fun attach_all :: "'k ebpf_loader \<Rightarrow> string list \<Rightarrow> ('k, ebpf_error option) state" where
  "attach_all ld [] = ret None"
| "attach_all ld (name # ps) = do {
     r \<leftarrow> sys (ld_attach ld name);
     (case r of Some e \<Rightarrow> ret (Some (ProgramFailed name e)) | None \<Rightarrow> attach_all ld ps)
   }"

definition ebpf_try_new ::
  "'k os \<Rightarrow> 'k ebpf_loader \<Rightarrow> RuleSet \<Rightarrow> ('k, ebpf_error + EbpfSource) state" where
  "ebpf_try_new os ld rs = do {
     there \<leftarrow> sys (ld_find ld);
     if \<not> there then ret (Inl NoObject)
     else do {
       readable \<leftarrow> sys (ld_read ld);
       if \<not> readable then ret (Inl ObjectUnreadable)
       else do {
         loaded \<leftarrow> sys (ld_load ld (map_capacity (length (rs_pkgs rs))));
         if \<not> loaded then ret (Inl NotLoadable)
         else do {
           failed \<leftarrow> attach_all ld PROGRAMS;
           (case failed of
              Some e \<Rightarrow> ret (Inl e)
            | None \<Rightarrow> do {
                ring \<leftarrow> sys (ld_events ld);
                if \<not> ring then ret (Inl NoEvents)
                else do {
                  buf \<leftarrow> sys (ld_ring ld);
                  if \<not> buf then ret (Inl BadRing)
                  else do { now \<leftarrow> sys (os_instant os); ret (Inr (ebpf_new now)) }
                }
              })
         }
       }
     }
   }"

text \<open>
  What the reader thread makes of an item of the ring buffer: a short one is skipped, of a
  longer one the leading bytes are read as the structure.
\<close>

definition EVENT_SIZE :: nat where "EVENT_SIZE = 32"

definition decode_event :: "string \<Rightarrow> ProcEvent option" where
  "decode_event bytes =
     (if EVENT_SIZE \<le> length bytes
      then Some \<lparr>pe_pid = sint (read32 0 bytes), pe_tid = sint (read32 4 bytes),
             child_pid = sint (read32 8 bytes), comm = take 16 (drop 12 bytes),
             event_type = read32 28 bytes\<rparr>
      else None)"

section \<open>The whitelist\<close>

definition prefix_key :: "string \<Rightarrow> string" where
  "prefix_key b = (let plen = min (length b) 8 in take plen b @ replicate (8 - plen) nul)"

definition pkg_keys :: "string \<Rightarrow> string list" where
  "pkg_keys b =
     (if b = [] then []
      else prefix_key b # (if 8 < length b then [drop (length b - 8) b] else []))"

text \<open>\<open>dedup\<close> removes repeated neighbours of the sorted list.\<close>

definition target_entries :: "string list \<Rightarrow> string list" where
  "target_entries pkgs = remdups_adj (sort (concat (map pkg_keys pkgs)))"

definition update_whitelist :: "'k ebpf_os \<Rightarrow> string list \<Rightarrow> ('k world, unit) state" where
  "update_whitelist eb pkgs = do {
     ok \<leftarrow> on_kern (sys (target_open eb));
     unless (\<not> ok) (do {
       old \<leftarrow> on_kern (sys (target_keys eb));
       _ \<leftarrow> foldM (\<lambda>k _. on_kern (sys (target_del eb k))) old ();
       foldM (\<lambda>k _. on_kern (sys (target_put eb k))) (target_entries pkgs) ()
     })
   }"

section \<open>The table of tracked processes\<close>

definition tracked_insert :: "'k ebpf_os \<Rightarrow> pid \<Rightarrow> ('k world, unit) state" where
  "tracked_insert eb tgid = do {
     ok \<leftarrow> on_kern (sys (tracked_open eb));
     unless (\<not> ok) (on_kern (sys (tracked_put eb tgid)))
   }"

definition tracked_remove :: "'k ebpf_os \<Rightarrow> pid \<Rightarrow> ('k world, unit) state" where
  "tracked_remove eb tgid = do {
     ok \<leftarrow> on_kern (sys (tracked_open eb));
     unless (\<not> ok) (on_kern (sys (tracked_del eb tgid)))
   }"

definition tracked_sync :: "'k ebpf_os \<Rightarrow> ('k world, unit) state" where
  "tracked_sync eb = do {
     pids \<leftarrow> gets tracker_pids;
     ok \<leftarrow> on_kern (sys (tracked_open eb));
     unless (\<not> ok) (do {
       _ \<leftarrow> foldM (\<lambda>p _. on_kern (sys (tracked_put eb p))) pids ();
       keys \<leftarrow> on_kern (sys (tracked_keys eb));
       foldM (\<lambda>p _. on_kern (sys (tracked_del eb p))) (filter (\<lambda>p. p \<notin> set pids) keys) ()
     })
   }"

section \<open>The initial scan\<close>

type_synonym ebpf_acc = "EbpfSource \<times> ProcessEvent list"

definition initial_entry ::
  "'k os \<Rightarrow> fnmatch \<Rightarrow> string \<Rightarrow> RuleSet \<times> pid set \<times> ProcessEvent list \<Rightarrow>
   ('k world, RuleSet \<times> pid set \<times> ProcessEvent list) state" where
  "initial_entry os fnm name acc =
     (case parse_i32 name of
        None \<Rightarrow> ret acc
      | Some p \<Rightarrow> do {
          r \<leftarrow> on_kern (read_cmdline os p);
          ret (case r of
             None \<Rightarrow> acc
           | Some pkg \<Rightarrow>
               (case acc of (rs, seen, evs) \<Rightarrow>
                  if pkg = [] then acc
                  else (case ask fnm pkg rs of (yes, rs') \<Rightarrow>
                    if yes then (rs', insert p seen, evs @ [with_pkg pkg (ev_fork p p)])
                    else (rs', seen, evs))))
        })"

definition initial_scan :: "'k os \<Rightarrow> fnmatch \<Rightarrow> ebpf_acc \<Rightarrow> ('k world, ebpf_acc) state" where
  "initial_scan os fnm acc =
     (case es_rules (fst acc) of
        None \<Rightarrow> ret acc
      | Some rs \<Rightarrow> do {
          dir \<leftarrow> on_kern (sys (os_read_dir os ''/proc''));
          (case dir of
             None \<Rightarrow> ret acc
           | Some entries \<Rightarrow> do {
               r \<leftarrow> foldM (initial_entry os fnm) entries (rs, es_scanned (fst acc), snd acc);
               ret (case r of (rs', seen, evs) \<Rightarrow>
                 ((fst acc)\<lparr>es_rules := Some rs', es_scanned := seen\<rparr>, evs))
             })
        })"

section \<open>Raw events\<close>

definition handle_raw ::
  "'k os \<Rightarrow> 'k ebpf_os \<Rightarrow> ProcEvent \<Rightarrow> ebpf_acc \<Rightarrow> ('k world, ebpf_acc) state" where
  "handle_raw os eb ev acc =
     (case acc of (s, evs) \<Rightarrow>
        if event_type ev = EVENT_FORK
        then (if pe_pid ev \<in> es_scanned s then ret (s, evs)
              else if length (es_pending s) < PENDING_MAX_PENDING \<and>
                      \<not> list_ex (\<lambda>p. pf_child p = pe_pid ev) (es_pending s)
              then do {
                now \<leftarrow> now_instant os;
                ret (s\<lparr>es_pending := es_pending s @
                       [\<lparr>pf_child = pe_pid ev, pf_retry = 0, pf_next = now\<rparr>]\<rparr>, evs)
              }
              else ret (s, evs))
        else if event_type ev = EVENT_EXEC then ret (s, evs @ [ev_exec (pe_pid ev) (pe_pid ev)])
        else if event_type ev = EVENT_EXIT
        then do {
          tracked \<leftarrow> gets (tracker_contains (pe_pid ev));
          _ \<leftarrow> unless (pe_tid ev \<noteq> pe_pid ev) (tracked_remove eb (pe_pid ev));
          ret (s, if tracked then evs @ [ev_exit (pe_pid ev) (pe_tid ev)] else evs)
        }
        else ret (s, evs))"

section \<open>Pending forks\<close>

definition retry_or_drop ::
  "'k os \<Rightarrow> PendingFork \<Rightarrow> PendingFork list \<Rightarrow> ('k world, PendingFork list) state" where
  "retry_or_drop os p kept =
     (if pf_retry p < PENDING_MAX_RETRIES
      then do {
        now \<leftarrow> now_instant os;
        ret (kept @ [\<lparr>pf_child = pf_child p, pf_retry = pf_retry p + 1,
          pf_next = now + int (from_millis (PENDING_BACKOFF_MS ! pf_retry p))\<rparr>])
      }
      else ret kept)"

type_synonym flush_acc = "RuleSet \<times> PendingFork list \<times> ProcessEvent list"

text \<open>A fork with a readable command line: a process, or a thread of the process \<open>tgid\<close>.\<close>

definition split_fork ::
  "'k os \<Rightarrow> 'k ebpf_os \<Rightarrow> fnmatch \<Rightarrow> pid \<Rightarrow> string \<Rightarrow> flush_acc \<Rightarrow> ('k world, flush_acc) state" where
  "split_fork os eb fnm child pkg acc =
     (case acc of (rs, kept, evs) \<Rightarrow> do {
        t \<leftarrow> on_kern (read_tgid os child);
        let tgid = (case t of None \<Rightarrow> child | Some g \<Rightarrow> g);
        if tgid = child
        then (case ask fnm pkg rs of (yes, rs') \<Rightarrow>
                if yes then do {
                  _ \<leftarrow> tracked_insert eb tgid;
                  ret (rs', kept, evs @ [with_pkg pkg (ev_fork child child)])
                }
                else ret (rs', kept, evs))
        else do {
          pp \<leftarrow> on_kern (read_cmdline os tgid);
          (case pp of
             None \<Rightarrow> ret (rs, kept, evs)
           | Some ppkg \<Rightarrow>
               (case ask fnm ppkg rs of (yes, rs') \<Rightarrow>
                  if yes then do {
                    _ \<leftarrow> tracked_insert eb tgid;
                    ret (rs', kept, evs @ [with_pkg ppkg (ev_thread_clone tgid child)])
                  }
                  else ret (rs', kept, evs)))
        }
      })"

definition flush_one ::
  "'k os \<Rightarrow> 'k ebpf_os \<Rightarrow> fnmatch \<Rightarrow> instant \<Rightarrow> PendingFork \<Rightarrow> flush_acc \<Rightarrow> ('k world, flush_acc) state" where
  "flush_one os eb fnm now p acc =
     (case acc of (rs, kept, evs) \<Rightarrow>
        if now < pf_next p then ret (rs, kept @ [p], evs)
        else do {
          alive \<leftarrow> on_kern (is_alive os (pf_child p));
          if \<not> alive then ret acc
          else do {
            r \<leftarrow> on_kern (read_cmdline os (pf_child p));
            if r = None \<or> r = Some []
            then do { kept' \<leftarrow> retry_or_drop os p kept; ret (rs, kept', evs) }
            else split_fork os eb fnm (pf_child p) (the r) acc
          }
        })"

definition ebpf_flush_pending ::
  "'k os \<Rightarrow> 'k ebpf_os \<Rightarrow> fnmatch \<Rightarrow> ebpf_acc \<Rightarrow> ('k world, ebpf_acc) state" where
  "ebpf_flush_pending os eb fnm acc =
     (if es_pending (fst acc) = [] then ret acc
      else (case es_rules (fst acc) of
        None \<Rightarrow> ret acc
      | Some rs \<Rightarrow> do {
          now \<leftarrow> now_instant os;
          r \<leftarrow> foldM (flush_one os eb fnm now) (es_pending (fst acc)) (rs, [], snd acc);
          ret (case r of (rs', kept, evs) \<Rightarrow>
            ((fst acc)\<lparr>es_rules := Some rs', es_pending := kept\<rparr>, evs))
        }))"

section \<open>Polling\<close>

text \<open>At most \<open>n\<close> messages, until the channel is empty.\<close>

fun recv_upto :: "'k ebpf_os \<Rightarrow> nat \<Rightarrow> ('k world, ProcEvent list) state" where
  "recv_upto eb 0 = ret []"
| "recv_upto eb (Suc n) = do {
     r \<leftarrow> on_kern (sys (try_recv eb));
     (case r of
        None \<Rightarrow> ret []
      | Some ev \<Rightarrow> do { evs \<leftarrow> recv_upto eb n; ret (ev # evs) })
   }"

definition ebpf_drain ::
  "'k os \<Rightarrow> 'k ebpf_os \<Rightarrow> fnmatch \<Rightarrow> ebpf_acc \<Rightarrow> ('k world, ebpf_acc) state" where
  "ebpf_drain os eb fnm acc = do {
     batch \<leftarrow> recv_upto eb DRAIN_MAX;
     acc' \<leftarrow> foldM (handle_raw os eb) batch acc;
     ebpf_flush_pending os eb fnm acc'
   }"

definition sync_if_due :: "'k os \<Rightarrow> 'k ebpf_os \<Rightarrow> EbpfSource \<Rightarrow> ('k world, EbpfSource) state" where
  "sync_if_due os eb s = do {
     now \<leftarrow> now_instant os;
     if TRACKED_SYNC_SECS \<le> duration_since now (es_last_sync s) div from_secs 1
     then do {
       _ \<leftarrow> tracked_sync eb;
       t \<leftarrow> now_instant os;
       ret (s\<lparr>es_last_sync := t\<rparr>)
     }
     else ret s
   }"

text \<open>When the round was empty, sleep until the deadline or the earliest pending retry.\<close>

definition wake_instant :: "instant \<Rightarrow> instant list \<Rightarrow> instant" where
  "wake_instant deadline nexts = fold min nexts deadline"

definition sleep_until :: "'k os \<Rightarrow> instant \<Rightarrow> ('k world, unit) state" where
  "sleep_until os wake = do {
     now \<leftarrow> now_instant os;
     unless (\<not> now < wake) (on_kern (sys (os_sleep os (nat (wake - now)))))
   }"

definition ebpf_poll ::
  "'k os \<Rightarrow> 'k ebpf_os \<Rightarrow> fnmatch \<Rightarrow> instant \<Rightarrow> EbpfSource \<Rightarrow>
   ('k world, EbpfSource \<times> ProcessEvent list) state" where
  "ebpf_poll os eb fnm deadline s0 = do {
     a1 \<leftarrow> (if es_scan_done s0 then ret (s0, [])
            else do {
              a \<leftarrow> initial_scan os fnm (s0, []);
              ret ((fst a)\<lparr>es_scan_done := True\<rparr>, snd a)
            });
     a2 \<leftarrow> ebpf_drain os eb fnm a1;
     s \<leftarrow> sync_if_due os eb ((fst a2)\<lparr>es_scanned := {}\<rparr>);
     _ \<leftarrow> unless (snd a2 \<noteq> []) (sleep_until os (wake_instant deadline (map pf_next (es_pending s))));
     ret (s, snd a2)
   }"

definition ebpf_on_config_changed ::
  "'k ebpf_os \<Rightarrow> RuleSet \<Rightarrow> EbpfSource \<Rightarrow> ('k world, EbpfSource) state" where
  "ebpf_on_config_changed eb rs s = do {
     _ \<leftarrow> update_whitelist eb (rs_pkgs rs);
     ret (s\<lparr>es_rules := Some rs, es_pending := []\<rparr>)
   }"

end
