(* ===== verification/Proc_Source.thy ===== *)
theory Proc_Source
  imports Ebpf_Source
begin

text \<open>
  The event source that scans /proc (crates/daemon/src/proc_source.rs): the queue of processes
  whose command line is still empty, full scans after a growth of the process count, and
  incremental rounds over the tracked processes in between.
\<close>

section \<open>State\<close>

definition PROC_MAX_PENDING :: nat where "PROC_MAX_PENDING = 64"
definition FULL_SCAN_THRESHOLD :: int where "FULL_SCAN_THRESHOLD = 5"

record PendingProcess =
  pp_pid :: pid
  retry_count :: nat
  next_retry :: instant

record ProcSource =
  so_rules :: "RuleSet option"
  last_proc_total :: int
  scan_all :: bool
  so_pending :: "PendingProcess list"

definition proc_new :: ProcSource where
  "proc_new = \<lparr>so_rules = None, last_proc_total = -1, scan_all = True, so_pending = []\<rparr>"

section \<open>Pending processes\<close>

type_synonym proc_flush = "RuleSet \<times> PendingProcess list \<times> ProcessEvent list"

definition proc_retry :: "instant \<Rightarrow> PendingProcess \<Rightarrow> PendingProcess list" where
  "proc_retry now p =
     (if retry_count p < PENDING_MAX_RETRIES
      then [\<lparr>pp_pid = pp_pid p, retry_count = retry_count p + 1,
             next_retry = now + int (from_millis (PENDING_BACKOFF_MS ! retry_count p))\<rparr>]
      else [])"

definition proc_flush_one ::
  "'k os \<Rightarrow> fnmatch \<Rightarrow> instant \<Rightarrow> PendingProcess \<Rightarrow> proc_flush \<Rightarrow> ('k world, proc_flush) state" where
  "proc_flush_one os fnm now p acc =
     (case acc of (rs, kept, evs) \<Rightarrow>
        if now < next_retry p then ret (rs, kept @ [p], evs)
        else do {
          alive \<leftarrow> on_kern (is_alive os (pp_pid p));
          if \<not> alive then ret acc
          else do {
            r \<leftarrow> on_kern (read_cmdline os (pp_pid p));
            ret (case r of
               None \<Rightarrow> (rs, kept @ proc_retry now p, evs)
             | Some pkg \<Rightarrow>
                 (if pkg = [] then (rs, kept @ proc_retry now p, evs)
                  else (case ask fnm pkg rs of (yes, rs') \<Rightarrow>
                    (rs', kept, if yes then evs @ [with_pkg pkg (ev_fork (pp_pid p) (pp_pid p))] else evs))))
          }
        })"

definition proc_flush_pending ::
  "'k os \<Rightarrow> fnmatch \<Rightarrow> RuleSet \<Rightarrow> PendingProcess list \<Rightarrow> ('k world, proc_flush) state" where
  "proc_flush_pending os fnm rs pending =
     (if pending = [] then ret (rs, [], [])
      else do {
        now \<leftarrow> now_instant os;
        foldM (proc_flush_one os fnm now) pending (rs, [], [])
      })"

section \<open>Counting\<close>

definition as_int32 :: "int \<Rightarrow> int" where
  "as_int32 n = sint (word_of_int n :: u32)"

text \<open>Entries of /proc whose name has only digits; -1 when it cannot be read. \<open>as i32\<close> wraps.\<close>

definition count_processes :: "'k os \<Rightarrow> ('k, int) state" where
  "count_processes os = do {
     r \<leftarrow> sys (os_read_dir os ''/proc'');
     ret (case r of None \<Rightarrow> -1
          | Some entries \<Rightarrow> as_int32 (int (length (filter (list_all is_digit) entries))))
   }"

text \<open>The difference of two hash sets, in the order of the directory.\<close>

definition new_tids_for :: "'k os \<Rightarrow> pid \<Rightarrow> ('k world, pid list) state" where
  "new_tids_for os p = do {
     ex \<leftarrow> gets (tracker_get p);
     (case ex of
        None \<Rightarrow> ret []
      | Some s \<Rightarrow>
          (if applied_tids s = {} \<or> \<not> initial_scan_done s then ret []
           else do {
             tids \<leftarrow> on_kern (list_tids os p);
             ret (filter (\<lambda>t. t \<notin> applied_tids s) (remdups tids))
           }))
   }"

definition clone_events :: "pid \<Rightarrow> string \<Rightarrow> pid list \<Rightarrow> ProcessEvent list" where
  "clone_events p pkg tids = map (\<lambda>t. with_pkg pkg (ev_thread_clone p t)) tids"

section \<open>One round\<close>

text \<open>The locals of the loops: the rules, the queue, the processes seen and the events.\<close>

record scan_acc =
  sa_rules :: RuleSet
  sa_pending :: "PendingProcess list"
  sa_current :: "pid set"
  sa_events :: "ProcessEvent list"

definition queue_pending :: "'k os \<Rightarrow> pid \<Rightarrow> scan_acc \<Rightarrow> ('k world, scan_acc) state" where
  "queue_pending os p a = do {
     tracked \<leftarrow> gets (tracker_contains p);
     if length (sa_pending a) < PROC_MAX_PENDING \<and> \<not> tracked \<and>
        \<not> list_ex (\<lambda>q. pp_pid q = p) (sa_pending a)
     then do {
       now \<leftarrow> now_instant os;
       ret (a\<lparr>sa_pending := sa_pending a @ [\<lparr>pp_pid = p, retry_count = 0, next_retry = now\<rparr>]\<rparr>)
     }
     else ret a
   }"

definition full_entry ::
  "'k os \<Rightarrow> fnmatch \<Rightarrow> string \<Rightarrow> scan_acc \<Rightarrow> ('k world, scan_acc) state" where
  "full_entry os fnm name a0 =
     (case parse_i32 name of
        None \<Rightarrow> ret a0
      | Some p \<Rightarrow> do {
          let a = a0\<lparr>sa_current := insert p (sa_current a0)\<rparr>;
          r \<leftarrow> on_kern (read_cmdline os p);
          (case r of
             None \<Rightarrow> queue_pending os p a
           | Some pkg \<Rightarrow>
               (if pkg = [] then queue_pending os p a
                else (case ask fnm pkg (sa_rules a) of (yes, rs') \<Rightarrow>
                  let b = a\<lparr>sa_rules := rs'\<rparr> in
                  if \<not> yes then ret b
                  else do {
                    tracked \<leftarrow> gets (tracker_contains p);
                    tids \<leftarrow> (if tracked then new_tids_for os p else ret []);
                    ret (b\<lparr>sa_events := sa_events b @
                      (if tracked then clone_events p pkg tids
                       else [with_pkg pkg (ev_fork p p)])\<rparr>)
                  })))
        })"

definition incremental_one ::
  "'k os \<Rightarrow> fnmatch \<Rightarrow> pid \<Rightarrow> scan_acc \<Rightarrow> ('k world, scan_acc) state" where
  "incremental_one os fnm p a0 = do {
     alive \<leftarrow> on_kern (is_alive os p);
     if \<not> alive then ret a0
     else do {
       let a = a0\<lparr>sa_current := insert p (sa_current a0)\<rparr>;
       r \<leftarrow> on_kern (read_cmdline os p);
       (case r of
          None \<Rightarrow> ret a
        | Some pkg \<Rightarrow>
            (case ask fnm pkg (sa_rules a) of (yes, rs') \<Rightarrow>
               let b = a\<lparr>sa_rules := rs'\<rparr> in
               if \<not> yes then ret b
               else do {
                 tids \<leftarrow> new_tids_for os p;
                 ret (b\<lparr>sa_events := sa_events b @ clone_events p pkg tids\<rparr>)
               }))
     }
   }"

definition exit_events :: "scan_acc \<Rightarrow> ('k world, scan_acc) state" where
  "exit_events a = do {
     tracked \<leftarrow> gets tracker_pids;
     ret (a\<lparr>sa_events := sa_events a @
       map (\<lambda>p. ev_exit p p) (filter (\<lambda>p. p \<notin> sa_current a) tracked)\<rparr>)
   }"

definition scan_needed :: "int \<Rightarrow> ProcSource \<Rightarrow> bool" where
  "scan_needed proc_total s =
     (scan_all s \<or> (as_int32 (last_proc_total s + FULL_SCAN_THRESHOLD) < proc_total \<and> 0 \<le> last_proc_total s) \<or>
      proc_total = -1)"

text \<open>A directory that cannot be read ends the round without the detection of exits.\<close>

definition scan_round ::
  "'k os \<Rightarrow> fnmatch \<Rightarrow> bool \<Rightarrow> scan_acc \<Rightarrow> ('k world, scan_acc) state" where
  "scan_round os fnm full a =
     (if full
      then do {
        dir \<leftarrow> on_kern (sys (os_read_dir os ''/proc''));
        (case dir of
           None \<Rightarrow> ret a
         | Some entries \<Rightarrow> do { b \<leftarrow> foldM (full_entry os fnm) entries a; exit_events b })
      }
      else do {
        pids \<leftarrow> gets tracker_pids;
        b \<leftarrow> foldM (incremental_one os fnm) pids a;
        exit_events b
      })"

definition collect ::
  "'k os \<Rightarrow> fnmatch \<Rightarrow> ProcSource \<Rightarrow> ('k world, ProcSource \<times> ProcessEvent list) state" where
  "collect os fnm s =
     (case so_rules s of
        None \<Rightarrow> ret (s, [])
      | Some rs \<Rightarrow> do {
          fl \<leftarrow> proc_flush_pending os fnm rs (so_pending s);
          proc_total \<leftarrow> on_kern (count_processes os);
          a \<leftarrow> (case fl of (rs', kept, evs) \<Rightarrow>
            scan_round os fnm (scan_needed proc_total s)
              \<lparr>sa_rules = rs', sa_pending = kept, sa_current = {}, sa_events = evs\<rparr>);
          ret (\<lparr>so_rules = Some (sa_rules a), last_proc_total = proc_total, scan_all = False,
                so_pending = sa_pending a\<rparr>, sa_events a)
        })"

definition proc_poll ::
  "'k os \<Rightarrow> fnmatch \<Rightarrow> instant \<Rightarrow> ProcSource \<Rightarrow> ('k world, ProcSource \<times> ProcessEvent list) state" where
  "proc_poll os fnm deadline s = do {
     r \<leftarrow> collect os fnm s;
     _ \<leftarrow> unless (snd r \<noteq> []) (sleep_until os deadline);
     ret r
   }"

definition proc_on_config_changed :: "RuleSet \<Rightarrow> ProcSource \<Rightarrow> ProcSource" where
  "proc_on_config_changed rs s = s\<lparr>so_rules := Some rs, scan_all := True, last_proc_total := -1\<rparr>"

end
