(* ===== verification/Ebpf_Kernel_Facts.thy ===== *)
theory Ebpf_Kernel_Facts
  imports Ebpf_Kernel
begin

text \<open>
  What the filters of the eBPF program let through: a task whose name has a whitelisted window,
  and of the events of one task at most three in any tenth of a second.
\<close>

section \<open>The whitelist\<close>

lemma comm_scan_iff: "comm_scan k c ps b \<longleftrightarrow> (\<exists>p \<in> set ps. target_has k (comm_key c p) b)"
  by (induction ps) auto

lemma comm_matches_iff: "comm_matches k c b \<longleftrightarrow> (\<exists>p \<le> 8. target_has k (comm_key c p) b)"
proof -
  have "p \<in> set [0..<9] \<longleftrightarrow> p \<le> 8" for p :: nat by auto
  then show ?thesis unfolding comm_matches_def comm_scan_iff by blast
qed

section \<open>The limiter\<close>

text \<open>The instants of one task's events that pass.\<close>

fun admitted :: "'b bpf \<Rightarrow> u32 \<Rightarrow> u64 list \<Rightarrow> 'b \<Rightarrow> u64 list" where
  "admitted k key [] b = []"
| "admitted k key (t # ts) b =
     (case should_dedup k key t b of
        (dropped, b') \<Rightarrow> if dropped then admitted k key ts b' else t # admitted k key ts b')"

text \<open>The same on the entry alone.\<close>

fun passes :: "DedupEntry option \<Rightarrow> u64 list \<Rightarrow> u64 list" where
  "passes e [] = []"
| "passes e (t # ts) =
     (case dedup_entry e t of (dropped, e') \<Rightarrow> if dropped then passes e ts else t # passes (Some e') ts)"

lemma admitted_passes:
  assumes "\<And>e b. dedup_get k key (dedup_insert k key e b) = Some e"
  shows "admitted k key ts b = passes (dedup_get k key b) ts"
  by (induction ts arbitrary: b) (auto simp: should_dedup_def assms split: prod.splits)

lemma within_window:
  assumes "l0 \<le> (t :: u64)"
  shows "t - l0 < DEDUP_WINDOW_NS \<longleftrightarrow> unat t < unat l0 + 100000000"
proof -
  have "unat DEDUP_WINDOW_NS = 100000000" by (simp add: DEDUP_WINDOW_NS_def)
  moreover have "unat l0 \<le> unat t" using assms by (simp add: word_le_nat_alt)
  ultimately show ?thesis
    unfolding word_less_nat_alt unat_sub [OF assms] by linarith
qed

abbreviation dd :: "u64 \<Rightarrow> u32 \<Rightarrow> DedupEntry option" where
  "dd l0 cnt \<equiv> Some \<lparr>last_ns = l0, dd_count = cnt\<rparr>"

lemma entry_step:
  assumes "l0 \<le> t"
  shows "dedup_entry (dd l0 1) t =
      (if unat t < unat l0 + 100000000 then (False, \<lparr>last_ns = l0, dd_count = 2\<rparr>)
       else (False, \<lparr>last_ns = t, dd_count = 1\<rparr>))"
    and "fst (dedup_entry (dd l0 2) t) \<longleftrightarrow> unat t < unat l0 + 100000000"
    and "\<not> unat t < unat l0 + 100000000 \<Longrightarrow>
      dedup_entry (dd l0 2) t = (False, \<lparr>last_ns = t, dd_count = 1\<rparr>)"
  using within_window [OF assms] by (auto simp: dedup_entry_def DEDUP_MAX_COUNT_def)

lemma passes_sub: "set (passes e ts) \<subseteq> set ts"
  by (induction ts arbitrary: e) (auto split: prod.splits)

lemma passes_sorted: "sorted ts \<Longrightarrow> sorted (passes e ts)"
  using passes_sub by (induction ts arbitrary: e) (fastforce split: prod.splits)+

text \<open>With two events counted, the next one that passes starts a new window.\<close>

lemma passes_full:
  assumes "sorted ts" and "\<forall>t \<in> set ts. l0 \<le> t"
  shows "passes (dd l0 2) ts = [] \<or>
    (\<exists>r ts'. passes (dd l0 2) ts = r # passes (dd r 1) ts' \<and> unat l0 + 100000000 \<le> unat r \<and>
       r \<in> set ts \<and> sorted ts' \<and> set ts' \<subseteq> set ts \<and> (\<forall>t \<in> set ts'. r \<le> t))"
  using assms
proof (induction ts)
  case (Cons t ts)
  show ?case
  proof (cases "unat t < unat l0 + 100000000")
    case True
    then have "passes (dd l0 2) (t # ts) = passes (dd l0 2) ts"
      using entry_step(2) [of l0 t] Cons.prems by (auto split: prod.splits)
    moreover have "sorted ts" "\<forall>u \<in> set ts. l0 \<le> u" using Cons.prems by simp_all
    ultimately show ?thesis using Cons.IH by auto
  next
    case False
    then have "passes (dd l0 2) (t # ts) = t # passes (dd t 1) ts"
      using entry_step(3) [of l0 t] Cons.prems by simp
    with False Cons.prems show ?thesis
      by (intro disjI2 exI [of _ t] exI [of _ ts]) auto
  qed
qed simp

text \<open>From one counted event on: the second event after it is a window later.\<close>

lemma passes_one:
  assumes "sorted ts" and "\<forall>t \<in> set ts. l0 \<le> t" and "passes (dd l0 1) ts = a # b # xs"
  shows "unat l0 + 100000000 \<le> unat b"
proof (cases ts)
  case (Cons t us)
  have t: "l0 \<le> t" "sorted us" "\<forall>u \<in> set us. t \<le> u" "\<forall>u \<in> set us. l0 \<le> u"
    using assms(1,2) Cons by auto
  show ?thesis
  proof (cases "unat t < unat l0 + 100000000")
    case True
    then have "passes (dd l0 2) us = b # xs" using assms(3) Cons entry_step(1) [OF t(1)] by simp
    with passes_full [OF t(2,4)] show ?thesis by auto
  next
    case False
    then have p: "passes (dd t 1) us = b # xs" using assms(3) Cons entry_step(1) [OF t(1)] by auto
    have "b \<in> set us" using passes_sub [of "dd t 1" us] p by auto
    with t(3) False show ?thesis by (auto simp: word_le_nat_alt dest!: bspec)
  qed
qed (use assms(3) in simp)

text \<open>From any counted state on, the events that pass are spread: four of them span a window.\<close>

lemma passes_spread:
  assumes "sorted ts" and "\<forall>t \<in> set ts. l0 \<le> t" and "n = 1 \<or> n = 2"
    and "i + 3 < length (passes (dd l0 n) ts)"
  shows "unat (passes (dd l0 n) ts ! i) + 100000000 \<le> unat (passes (dd l0 n) ts ! (i + 3))"
  using assms
proof (induction ts arbitrary: l0 n i)
  case (Cons t ts)
  have t: "l0 \<le> t" "sorted ts" "\<forall>u \<in> set ts. t \<le> u" "\<forall>u \<in> set ts. l0 \<le> u"
    using Cons.prems(1,2) by auto
  obtain d e where de: "dedup_entry (dd l0 n) t = (d, e)" by (cases "dedup_entry (dd l0 n) t")
  show ?case
  proof (cases d)
    case True
    then show ?thesis using Cons.IH [OF t(2,4) Cons.prems(3)] Cons.prems(4) de by simp
  next
    case False
    have e: "(e = \<lparr>last_ns = t, dd_count = 1\<rparr>) \<or> (n = 1 \<and> e = \<lparr>last_ns = l0, dd_count = 2\<rparr>)"
      using Cons.prems(3) de False entry_step [OF t(1)] by (auto split: if_splits)
    then have IH: "unat (passes (Some e) ts ! j) + 100000000 \<le> unat (passes (Some e) ts ! (j + 3))"
      if "j + 3 < length (passes (Some e) ts)" for j
      using Cons.IH [OF t(2,3), of 1 j] Cons.IH [OF t(2,4), of 2 j] that by auto
    have A: "passes (dd l0 n) (t # ts) = t # passes (Some e) ts" using de False by simp
    show ?thesis
    proof (cases i)
      case (Suc j)
      then show ?thesis using IH [of j] Cons.prems(4) unfolding A by (simp add: add.commute)
    next
      case 0
      with Cons.prems(4) obtain a b c xs where P: "passes (Some e) ts = a # b # c # xs"
        by (cases "passes (Some e) ts" rule: remdups_adj.cases; cases "tl (tl (passes (Some e) ts))")
          (auto simp: A simp del: passes.simps)
      have "unat t + 100000000 \<le> unat c"
        using e
      proof
        assume "e = \<lparr>last_ns = t, dd_count = 1\<rparr>"
        then have "unat t + 100000000 \<le> unat b" using passes_one [OF t(2,3)] P by simp
        moreover have "sorted (passes (Some e) ts)" by (rule passes_sorted) (rule t(2))
        then have "b \<le> c" by (simp add: P)
        ultimately show ?thesis by (simp add: word_le_nat_alt)
      next
        assume "n = 1 \<and> e = \<lparr>last_ns = l0, dd_count = 2\<rparr>"
        with passes_full [OF t(2,4)] P obtain us where us: "passes (dd a 1) us = b # c # xs"
          "a \<in> set ts" "sorted us" "\<forall>u \<in> set us. a \<le> u" by auto
        then have "unat a + 100000000 \<le> unat c" using passes_one by blast
        moreover have "t \<le> a" using us(2) t(3) by blast
        ultimately show ?thesis by (simp add: word_le_nat_alt)
      qed
      with 0 show ?thesis unfolding A P by simp
    qed
  qed
qed simp

end
