(* ===== verification/Engine_Facts.thy ===== *)
theory Engine_Facts
  imports Engine Relock
begin

text \<open>
  Invariants of the engine. \<open>engine_inv\<close> is the contract between the engine and the components
  it drives: an invariant that the queries of the rule set and the operations of the tracker
  keep is kept by every event, every relock and every cleanup. \<open>tracker_blind\<close> covers the
  invariants that do not look at the tracker. Both are interpreted on the model: reference
  counts, the bound of the audit log, and the integrity of the rule set behind its cache.
\<close>

section \<open>The contract\<close>

locale engine_inv = world_inv I for I :: "'k world \<Rightarrow> bool" +
  fixes fnm :: fnmatch
  assumes keeps_resolve: "keeps I (on_rules (resolve fnm pkg t))"
    and keeps_interested: "keeps I (on_rules (is_interested fnm pkg))"
    and keeps_thread_rules: "keeps I (on_rules (has_thread_rules fnm pkg))"
    and keeps_enter: "keeps I (tracker_enter os p pkg now)"
    and keeps_remove: "keeps I (tracker_remove os p)"
    and keeps_register: "keeps I (register_dirs p dirs)"
    and keeps_with_proc: "(\<And>s. applied_dirs (f s) = applied_dirs s) \<Longrightarrow> keeps I (with_proc p f)"
begin

lemmas keeps_engine = keeps_kern keeps_resolve keeps_interested keeps_thread_rules keeps_enter
  keeps_remove keeps_register keeps_apply_thread

lemma keeps_marks:
  "keeps I (mark_scanned p now)" "keeps I (add_tid p tid)" "keeps I (remove_tid p tid)"
  "keeps I (take_names p now)" "keeps I (thread_name os p tid now)"
  unfolding mark_scanned_def add_tid_def remove_tid_def take_names_def thread_name_def
  by (intro keeps_intros keeps_with_proc keeps_kern; simp)+

lemma keeps_scan_tid: "keeps I (scan_tid os fnm topo pkg now rt tr tid acc)"
  unfolding scan_tid_def by (intro keeps_intros keeps_engine)

lemma keeps_refresh: "keeps I (refresh_process_rules os fnm topo p pkg now rt)"
  unfolding refresh_process_rules_def
  by (intro keeps_intros keeps_engine keeps_scan_tid keeps_marks keeps_with_proc) simp

lemma keeps_full_scan: "keeps I (full_scan os fnm topo p pkg now rt)"
  unfolding full_scan_def by (intro keeps_intros keeps_refresh keeps_engine keeps_marks)

lemma keeps_apply_single: "keeps I (apply_single_tid os fnm topo p pkg tid now rt)"
  unfolding apply_single_tid_def by (intro keeps_intros keeps_engine keeps_marks)

lemma keeps_handle_event: "keeps I (handle_event os fnm topo now rt ev)"
  unfolding handle_event_def event_pkg_def
  by (intro keeps_intros keeps_engine keeps_marks keeps_full_scan keeps_apply_single)

lemma keeps_handle_events: "keeps I (handle_events os fnm topo now evs)"
  unfolding handle_events_def by (intro keeps_intros keeps_engine keeps_handle_event)

lemma keeps_bump: "keeps I (bump_relock d)"
  unfolding bump_relock_def by (rule keeps_modify) (rule inv_stats)

lemma keeps_relock_one: "keeps I (relock_one os fnm topo now rx de rt p n)"
proof -
  have "keeps I (case d of
      Allow _ \<Rightarrow> do { nd \<leftarrow> refresh_process_rules os fnm topo p pkg now rt;
                      _ \<leftarrow> register_dirs p (snd nd); ret (n + fst nd) }
    | _ \<Rightarrow> ret n)" for d pkg
    by (cases d) (auto intro!: keeps_intros keeps_refresh keeps_engine)
  then show ?thesis
    unfolding relock_one_def by (intro keeps_intros keeps_engine keeps_bump)
qed

lemma keeps_relock_all: "keeps I (relock_all os fnm topo now rx de)"
  unfolding relock_all_def by (intro keeps_intros keeps_engine keeps_relock_one)

lemma keeps_cleanup: "keeps I (cleanup_dead os)"
  unfolding cleanup_dead_def cleanup_one_def by (intro keeps_intros keeps_engine)

lemma keeps_retain: "keeps I (retain_interested os pkgs)"
  unfolding retain_interested_def by (intro keeps_intros keeps_engine)

end

section \<open>Invariants that do not look at the tracker\<close>

locale tracker_blind = world_inv I for I :: "'k world \<Rightarrow> bool" +
  fixes fnm :: fnmatch
  assumes blind: "I w \<Longrightarrow> I (w\<lparr>tracker := t\<rparr>)"
    and blind_resolve: "keeps I (on_rules (resolve fnm pkg th))"
    and blind_interested: "keeps I (on_rules (is_interested fnm pkg))"
    and blind_thread_rules: "keeps I (on_rules (has_thread_rules fnm pkg))"
begin

lemma blind_tracker: "keeps I (modify (\<lambda>w. w\<lparr>tracker := f w\<rparr>))"
  by (rule keeps_modify) (rule blind)

lemma blind_put: "I w \<Longrightarrow> I (put_proc p s w)" "I w \<Longrightarrow> I (drop_proc p w)" "I w \<Longrightarrow> I (set_refs r w)"
  by (simp_all add: put_proc_def drop_proc_def set_refs_def blind)

lemma blind_with_proc: "keeps I (with_proc p f)"
  unfolding with_proc_def by (rule keeps_modify) (auto intro: blind_put split: option.splits)

lemma blind_modify: "keeps I (modify (put_proc p s))" "keeps I (modify (drop_proc p))" "keeps I (modify (set_refs r))"
  by (rule keeps_modify, erule blind_put)+

lemma blind_release: "keeps I (release_dir os d u)"
  unfolding release_dir_def by (intro keeps_intros blind_modify keeps_kern keeps_forget)

lemma blind_release_state: "keeps I (release_state os s)"
  unfolding release_state_def by (intro keeps_intros blind_release)

lemma blind_insert: "keeps I (insert_new os p pkg now)"
  unfolding insert_new_def by (intro keeps_intros blind_modify keeps_kern)

lemma blind_decide: "keeps I (enter_decide os p pkg s)"
  unfolding enter_decide_def by (intro keeps_intros keeps_kern)

lemma blind_enter: "keeps I (tracker_enter os p pkg now)"
proof -
  have "keeps I (case a of FastPath \<Rightarrow> ret () | ExecUpdate \<Rightarrow> with_proc p f
      | PidReuse \<Rightarrow> do { _ \<leftarrow> modify (drop_proc p); _ \<leftarrow> release_state os s; insert_new os p pkg now })" for a s f
    by (cases a) (auto intro!: keeps_intros blind_with_proc blind_modify blind_release_state blind_insert)
  then show ?thesis
    unfolding tracker_enter_def by (intro keeps_intros blind_insert blind_decide)
qed

lemma blind_remove: "keeps I (tracker_remove os p)"
  unfolding tracker_remove_def by (intro keeps_intros blind_modify blind_release_state)

lemma blind_register_dir: "I w \<Longrightarrow> I (register_dir p d w)"
  by (auto simp: register_dir_def Let_def intro: blind_put split: option.splits)

lemma blind_register: "keeps I (register_dirs p dirs)"
proof -
  have "I w \<Longrightarrow> I (fold (register_dir p) dirs w)" for w
    by (induction dirs arbitrary: w) (simp_all add: blind_register_dir)
  then show ?thesis unfolding register_dirs_def by (rule keeps_modify)
qed

end

sublocale tracker_blind \<subseteq> engine_inv I fnm
  by unfold_locales
    (rule blind_resolve blind_interested blind_thread_rules blind_enter blind_remove blind_register
      blind_with_proc)+

section \<open>The invariants of the model\<close>

definition audit_bounded :: "'k world \<Rightarrow> bool" where
  "audit_bounded w \<longleftrightarrow> length (audit_ring w) \<le> AUDIT_LOG_MAX"

text \<open>The rule set is the compiled one but for its cache, and the cache is valid.\<close>

definition same_rules :: "fnmatch \<Rightarrow> RuleSet \<Rightarrow> 'k world \<Rightarrow> bool" where
  "same_rules fnm R w \<longleftrightarrow> cache_ok fnm (cfg_rules w) \<and> ruleset_clone (cfg_rules w) = ruleset_clone R"

lemma keeps_on_rules:
  "(\<And>w. P w \<Longrightarrow> P (w\<lparr>cfg_rules := snd (run_state m (cfg_rules w))\<rparr>)) \<Longrightarrow> keeps P (on_rules m)"
  by (simp add: keeps_def on_rules_def case_prod_beta)

lemma query_clone:
  "ruleset_clone (snd (run_state (collect_pkg_matches fnm p) rs)) = ruleset_clone rs"
  unfolding collect_is_lookup
  by (rule pkg_cache.lookup_frame) (simp add: ruleset_clone_def cache_put_def)

lemma same_rules_query:
  assumes "\<And>rs. snd (run_state m rs) = snd (run_state (collect_pkg_matches fnm p) rs)"
  shows "keeps (same_rules fnm R) (on_rules m)"
  by (rule keeps_on_rules) (simp add: same_rules_def assms collect_ok query_clone)

lemma refs_ok_rules: "refs_ok (w\<lparr>cfg_rules := r\<rparr>) = refs_ok w"
  by (simp add: refs_ok_def)

lemma refs_world: "world_inv refs_ok"
  by unfold_locales (simp_all add: refs_ok_def)

interpretation refs_inv: engine_inv refs_ok fnm for fnm
  by (intro engine_inv.intro refs_world, unfold_locales)
    (simp_all add: keeps_on_rules refs_ok_rules refs_enter refs_remove refs_register
      refs_with_proc)

interpretation audit_inv: tracker_blind audit_bounded fnm for fnm
  by unfold_locales (auto simp: audit_bounded_def ring_push_bound intro!: keeps_on_rules)

lemma same_rules_world: "world_inv (same_rules fnm R)"
  by unfold_locales (simp_all add: same_rules_def)

interpretation rules_inv: tracker_blind "same_rules fnm R" fnm for fnm R
proof (intro tracker_blind.intro same_rules_world, unfold_locales)
  fix w :: "'k world" and t
  show "same_rules fnm R w \<Longrightarrow> same_rules fnm R (w\<lparr>tracker := t\<rparr>)" by (simp add: same_rules_def)
qed (rule same_rules_query, rule query_state)+

end
