(* ===== verification/Source_Facts.thy ===== *)
theory Source_Facts
  imports Proc_Source Ebpf_Kernel_Facts Ruleset_Index Engine_Facts
begin

text \<open>
  What the event sources guarantee. \<open>triple P m Q\<close> says that a computation keeps \<open>P\<close> and that its
  answer satisfies \<open>Q\<close>; with \<open>P\<close> fixing the tracker it carries facts about the emitted events
  through a round, during which the kernel may answer anything.
\<close>

section \<open>Triples\<close>

definition triple :: "('s \<Rightarrow> bool) \<Rightarrow> ('s, 'a) state \<Rightarrow> ('a \<Rightarrow> bool) \<Rightarrow> bool" where
  "triple P m Q = (\<forall>s. P s \<longrightarrow> P (snd (run_state m s)) \<and> Q (fst (run_state m s)))"

named_theorems triple_intros

lemma tripleD: "triple P m Q \<Longrightarrow> P s \<Longrightarrow> run_state m s = (x, s') \<Longrightarrow> P s' \<and> Q x"
  unfolding triple_def by (metis fst_conv snd_conv)

lemma triple_bind:
  assumes "triple P m R" and "\<And>x. R x \<Longrightarrow> triple P (f x) Q"
  shows "triple P (State_Monad.bind m f) Q"
  unfolding triple_def
proof (intro allI impI)
  fix s
  assume "P s"
  obtain x s' where "run_state m s = (x, s')" by (cases "run_state m s")
  with tripleD [OF assms(1) \<open>P s\<close>] assms(2) [of x]
  show "P (snd (run_state (State_Monad.bind m f) s)) \<and> Q (fst (run_state (State_Monad.bind m f) s))"
    by (auto simp: triple_def)
qed

lemma triple_weaken: "triple P m R \<Longrightarrow> (\<And>x. R x \<Longrightarrow> Q x) \<Longrightarrow> triple P m Q"
  by (auto simp: triple_def)

lemma triple_return [triple_intros]: "Q x \<Longrightarrow> triple P (ret x) Q"
  by (simp add: triple_def)

lemma triple_gets_bind [triple_intros]:
  "(\<And>w. P w \<Longrightarrow> triple P (f (g w)) Q) \<Longrightarrow> triple P (State_Monad.bind (gets g) f) Q"
  by (auto simp: triple_def)

lemma triple_if [triple_intros]:
  "(b \<Longrightarrow> triple P m Q) \<Longrightarrow> (\<not> b \<Longrightarrow> triple P n Q) \<Longrightarrow> triple P (if b then m else n) Q"
  by simp

lemma triple_let [triple_intros]: "(\<And>y. y = x \<Longrightarrow> triple P (f y) Q) \<Longrightarrow> triple P (let y = x in f y) Q"
  by simp

lemma triple_option [triple_intros]:
  "(x = None \<Longrightarrow> triple P m Q) \<Longrightarrow> (\<And>y. x = Some y \<Longrightarrow> triple P (f y) Q) \<Longrightarrow>
   triple P (case x of None \<Rightarrow> m | Some y \<Rightarrow> f y) Q"
  by (cases x) auto

lemma triple_prod [triple_intros]:
  "(\<And>a b. x = (a, b) \<Longrightarrow> triple P (f a b) Q) \<Longrightarrow> triple P (case x of (a, b) \<Rightarrow> f a b) Q"
  by (cases x) auto

lemma triple_foldM:
  assumes "I b" and "\<And>x b. x \<in> set xs \<Longrightarrow> I b \<Longrightarrow> triple P (f x b) I"
  shows "triple P (foldM f xs b) I"
  using assms by (induction xs arbitrary: b) (auto intro: triple_return triple_bind)

lemma triple_any: "keeps P m \<Longrightarrow> triple P m (\<lambda>_. True)"
  by (auto simp: triple_def keeps_def)

lemma triple_keeps: "triple P m Q \<Longrightarrow> keeps P m"
  by (auto simp: triple_def keeps_def)

text \<open>A loop whose invariant speaks of the elements done so far.\<close>

lemma triple_foldM_done:
  assumes "I [] b"
    and "\<And>ds x b. set ds \<subseteq> set xs \<Longrightarrow> x \<in> set xs \<Longrightarrow> I ds b \<Longrightarrow> triple P (f x b) (I (ds @ [x]))"
  shows "triple P (foldM f xs b) (I xs)"
proof -
  have "I ds b \<Longrightarrow> set ds \<subseteq> set xs \<Longrightarrow> set ys \<subseteq> set xs \<Longrightarrow> triple P (foldM f ys b) (I (ds @ ys))" for ds ys b
  proof (induction ys arbitrary: ds b)
    case (Cons y ys)
    have "triple P (f y b) (I (ds @ [y]))" using Cons.prems assms(2) by simp
    moreover have "triple P (foldM f ys b') (I (ds @ y # ys))" if "I (ds @ [y]) b'" for b'
      using Cons.IH [of "ds @ [y]" b'] Cons.prems that by simp
    ultimately show ?case by (auto intro: triple_bind)
  qed (simp add: triple_return)
  from this [of "[]" b xs] assms(1) show ?thesis by simp
qed

text \<open>A predicate of the world that the kernel cannot change.\<close>

definition kernel_blind :: "('k world \<Rightarrow> bool) \<Rightarrow> bool" where
  "kernel_blind P \<longleftrightarrow> (\<forall>w k. P w \<longrightarrow> P (w\<lparr>kern := k\<rparr>))"

lemma keeps_kernel: "kernel_blind P \<Longrightarrow> keeps P (on_kern m)"
  unfolding on_kern_def by (rule keeps_zoom) (auto simp: kernel_blind_def)

lemma triple_kern_bind [triple_intros]:
  assumes "kernel_blind P" and "\<And>x. triple P (f x) Q"
  shows "triple P (State_Monad.bind (on_kern m) f) Q"
  using assms by (intro triple_bind [OF triple_any [OF keeps_kernel]])

definition tracker_is :: "StateTracker \<Rightarrow> 'k world \<Rightarrow> bool" where
  "tracker_is T w \<longleftrightarrow> tracker w = T"

lemma tracker_is_blind: "kernel_blind (tracker_is T)"
  by (simp add: kernel_blind_def tracker_is_def)

lemma now_blind: "kernel_blind P \<Longrightarrow> keeps P (now_instant os)"
  unfolding now_instant_def by (rule keeps_kernel)

section \<open>Results that speak of the final state\<close>

text \<open>From \<open>P\<close> on, answer and final state are related by \<open>Q\<close>.\<close>

named_theorems ends_intros

definition ends :: "('s \<Rightarrow> bool) \<Rightarrow> ('s, 'a) state \<Rightarrow> ('a \<Rightarrow> 's \<Rightarrow> bool) \<Rightarrow> bool" where
  "ends P m Q = (\<forall>s. P s \<longrightarrow> Q (fst (run_state m s)) (snd (run_state m s)))"

lemma ends_bind:
  assumes "triple P m R" and "\<And>x. R x \<Longrightarrow> ends P (f x) Q"
  shows "ends P (State_Monad.bind m f) Q"
  using assms by (auto simp: ends_def triple_def split: prod.splits)

lemma ends_modify:
  "(\<And>s. P s \<Longrightarrow> P' (f s)) \<Longrightarrow> ends P' (g ()) Q \<Longrightarrow> ends P (State_Monad.bind (modify f) g) Q"
  by (simp add: ends_def)

lemma ends_triple: "triple P m R \<Longrightarrow> (\<And>x s. R x \<Longrightarrow> P s \<Longrightarrow> Q x s) \<Longrightarrow> ends P m Q"
  by (auto simp: ends_def triple_def)

lemma ends_return: "(\<And>s. P s \<Longrightarrow> Q x s) \<Longrightarrow> ends P (ret x) Q"
  by (simp add: ends_def)

lemma ends_seq:
  "ends P m R \<Longrightarrow> (\<And>x. ends (R x) (f x) Q) \<Longrightarrow> ends P (State_Monad.bind m f) Q"
  by (auto simp: ends_def split: prod.splits)

lemma ends_gets [ends_intros]: "(\<And>x. ends (\<lambda>s. P s \<and> x = g s) (f x) Q) \<Longrightarrow> ends P (State_Monad.bind (gets g) f) Q"
  by (simp add: ends_def)

lemma ends_if [ends_intros]:
  "(b \<Longrightarrow> ends P m Q) \<Longrightarrow> (\<not> b \<Longrightarrow> ends P n Q) \<Longrightarrow> ends P (if b then m else n) Q"
  by simp

lemma ends_option [ends_intros]:
  "(x = None \<Longrightarrow> ends P m Q) \<Longrightarrow> (\<And>y. x = Some y \<Longrightarrow> ends P (f y) Q) \<Longrightarrow>
   ends P (case x of None \<Rightarrow> m | Some y \<Rightarrow> f y) Q"
  by (cases x) auto

lemma ends_keeps: "keeps P m \<Longrightarrow> ends P m (\<lambda>_. P)"
  by (simp add: ends_def keeps_def)

lemma ends_pre: "ends P' m Q \<Longrightarrow> (\<And>s. P s \<Longrightarrow> P' s) \<Longrightarrow> ends P m Q"
  by (simp add: ends_def)

lemma endsD: "ends P m Q \<Longrightarrow> P s \<Longrightarrow> run_state m s = (x, s') \<Longrightarrow> Q x s'"
  unfolding ends_def by (metis fst_conv snd_conv)

section \<open>Queries of a source\<close>

definition rules_of :: "fnmatch \<Rightarrow> RuleSet \<Rightarrow> RuleSet \<Rightarrow> bool" where
  "rules_of fnm R rs \<longleftrightarrow> cache_ok fnm rs \<and> ruleset_clone rs = ruleset_clone R"

lemma interested_clone: "interested_pure fnm (ruleset_clone rs) pkg = interested_pure fnm rs pkg"
  by (simp add: interested_pure_def scan_matches_def ruleset_clone_def)

lemma ask_ok:
  assumes "rules_of fnm R rs" and "ask fnm pkg rs = (yes, rs')"
  shows "(yes \<longleftrightarrow> interested_pure fnm R pkg) \<and> rules_of fnm R rs'"
proof -
  have ok: "cache_ok fnm rs" and cl: "ruleset_clone rs = ruleset_clone R"
    using assms(1) by (simp_all add: rules_of_def)
  have rs': "rs' = snd (run_state (collect_pkg_matches fnm pkg) rs)"
    using assms(2) query_state(2) [of fnm pkg rs] by (simp add: ask_def)
  have "ruleset_clone rs' = ruleset_clone rs"
    unfolding rs' collect_is_lookup
    by (rule pkg_cache.lookup_frame) (simp add: ruleset_clone_def cache_put_def)
  moreover have "yes = interested_pure fnm rs pkg"
    using assms(2) interested_value [OF ok, of pkg] by (simp add: ask_def)
  moreover have "interested_pure fnm rs pkg = interested_pure fnm R pkg"
    using interested_clone [of fnm rs pkg] interested_clone [of fnm R pkg] cl by simp
  ultimately show ?thesis using collect_ok [OF ok, of pkg] cl by (simp add: rules_of_def rs')
qed

section \<open>Sound events\<close>

definition of_interest :: "fnmatch \<Rightarrow> RuleSet \<Rightarrow> ProcessEvent \<Rightarrow> bool" where
  "of_interest fnm R ev \<longleftrightarrow> (\<exists>pkg. ev_pkg ev = Some pkg \<and> interested_pure fnm R pkg)"

text \<open>What the engine may rely on for every event of a source.\<close>

fun event_sound :: "fnmatch \<Rightarrow> RuleSet \<Rightarrow> StateTracker \<Rightarrow> EventKind \<Rightarrow> ProcessEvent \<Rightarrow> bool" where
  "event_sound fnm R T Fork ev = (of_interest fnm R ev \<and> ev_tid ev = ev_pid ev)"
| "event_sound fnm R T ThreadClone ev = of_interest fnm R ev"
| "event_sound fnm R T Exec ev = (ev_tid ev = ev_pid ev)"
| "event_sound fnm R T Exit ev = (map_of (procs T) (ev_pid ev) \<noteq> None)"
| "event_sound fnm R T CpuMigrate ev = False"

definition events_sound :: "fnmatch \<Rightarrow> RuleSet \<Rightarrow> StateTracker \<Rightarrow> ProcessEvent list \<Rightarrow> bool" where
  "events_sound fnm R T evs \<longleftrightarrow> (\<forall>ev \<in> set evs. event_sound fnm R T (ev_kind ev) ev)"

lemma events_sound_simps [simp]:
  "events_sound fnm R T []"
  "events_sound fnm R T (evs @ evs') \<longleftrightarrow> events_sound fnm R T evs \<and> events_sound fnm R T evs'"
  "events_sound fnm R T [ev] \<longleftrightarrow> event_sound fnm R T (ev_kind ev) ev"
  by (auto simp: events_sound_def)

lemma sound_fork: "interested_pure fnm R pkg \<Longrightarrow> event_sound fnm R T (ev_kind (with_pkg pkg (ev_fork p p))) (with_pkg pkg (ev_fork p p))"
  by (simp add: with_pkg_def ev_fork_def of_interest_def)

lemma sound_clone: "interested_pure fnm R pkg \<Longrightarrow> event_sound fnm R T (ev_kind (with_pkg pkg (ev_thread_clone p t))) (with_pkg pkg (ev_thread_clone p t))"
  by (simp add: with_pkg_def ev_thread_clone_def of_interest_def)

lemma sound_exec: "event_sound fnm R T (ev_kind (ev_exec p p)) (ev_exec p p)"
  by (simp add: ev_exec_def)

lemma sound_exit: "map_of (procs T) p \<noteq> None \<Longrightarrow> event_sound fnm R T (ev_kind (ev_exit p t)) (ev_exit p t)"
  by (simp add: ev_exit_def)

lemma sound_clones: "interested_pure fnm R pkg \<Longrightarrow> events_sound fnm R T (clone_events p pkg ts)"
  by (auto simp: events_sound_def clone_events_def with_pkg_def ev_thread_clone_def of_interest_def)

lemmas sound_events = sound_fork sound_clone sound_exec sound_exit sound_clones

section \<open>Scanning /proc\<close>

text \<open>The queue is bounded, holds a process once, and no process was retried too often.\<close>

definition queue_ok :: "PendingProcess list \<Rightarrow> bool" where
  "queue_ok qs \<longleftrightarrow> length qs \<le> PROC_MAX_PENDING \<and> distinct (map pp_pid qs) \<and>
     (\<forall>q \<in> set qs. retry_count q \<le> PENDING_MAX_RETRIES)"

text \<open>The loop over the queue: what is kept came from the elements done.\<close>

definition flush_inv ::
  "fnmatch \<Rightarrow> RuleSet \<Rightarrow> StateTracker \<Rightarrow> PendingProcess list \<Rightarrow> proc_flush \<Rightarrow> bool" where
  "flush_inv fnm R T ds acc \<longleftrightarrow>
     (case acc of (rs, kept, evs) \<Rightarrow>
        rules_of fnm R rs \<and> events_sound fnm R T evs \<and> length kept \<le> length ds \<and>
        set (map pp_pid kept) \<subseteq> set (map pp_pid ds) \<and>
        (distinct (map pp_pid ds) \<longrightarrow> distinct (map pp_pid kept)) \<and>
        (\<forall>q \<in> set kept. retry_count q \<le> PENDING_MAX_RETRIES))"

lemma flush_inv_skip: "flush_inv fnm R T ds acc \<Longrightarrow> flush_inv fnm R T (ds @ [p]) acc"
  by (auto simp: flush_inv_def)

lemma flush_inv_keep:
  assumes "flush_inv fnm R T ds (rs, kept, evs)" and "pp_pid q = pp_pid p" and "retry_count q \<le> PENDING_MAX_RETRIES"
  shows "flush_inv fnm R T (ds @ [p]) (rs, kept @ [q], evs)"
  using assms by (auto simp: flush_inv_def)

lemma flush_inv_retry:
  "flush_inv fnm R T ds (rs, kept, evs) \<Longrightarrow> flush_inv fnm R T (ds @ [p]) (rs, kept @ proc_retry now p, evs)"
  by (auto simp: proc_retry_def intro: flush_inv_keep flush_inv_skip)

lemma flush_inv_ask:
  assumes "flush_inv fnm R T ds (rs, kept, evs)" and "ask fnm pkg rs = (yes, rs')"
  shows "flush_inv fnm R T (ds @ [p])
    (rs', kept, if yes then evs @ [with_pkg pkg (ev_fork c c)] else evs)"
  using sound_fork [of fnm R pkg T c] flush_inv_skip [OF assms(1), of p] ask_ok [OF _ assms(2), of R]
  by (auto simp: flush_inv_def)

lemma proc_flush_one_inv:
  assumes "kernel_blind P" and "flush_inv fnm R T ds acc" and "retry_count p \<le> PENDING_MAX_RETRIES"
  shows "triple P (proc_flush_one os fnm now p acc) (flush_inv fnm R T (ds @ [p]))"
proof -
  obtain rs kept evs where acc: "acc = (rs, kept, evs)" by (cases acc) auto
  note inv = assms(2) [unfolded acc]
  have asked: "flush_inv fnm R T (ds @ [p]) (rs', kept, evs @ [with_pkg pkg (ev_fork c c)])"
    if "ask fnm pkg rs = (True, rs')" for pkg rs' c
    using flush_inv_ask [OF inv that] by simp
  have declined: "flush_inv fnm R T (ds @ [p]) (rs', kept, evs)" if "ask fnm pkg rs = (False, rs')" for pkg rs'
    using flush_inv_ask [OF inv that] by simp
  show ?thesis
    unfolding proc_flush_one_def acc
    by (intro triple_intros assms(1))
      (auto intro: flush_inv_keep [OF inv refl assms(3)] flush_inv_skip [OF inv] flush_inv_retry [OF inv]
        asked declined split: option.splits prod.splits)
qed

lemma proc_flush_inv:
  assumes "kernel_blind P" and "rules_of fnm R rs" and "queue_ok qs"
  shows "triple P (proc_flush_pending os fnm rs qs)
    (\<lambda>acc. rules_of fnm R (fst acc) \<and> queue_ok (fst (snd acc)) \<and> events_sound fnm R T (snd (snd acc)))"
proof -
  have retries: "\<forall>q \<in> set qs. retry_count q \<le> PENDING_MAX_RETRIES" using assms(3) by (simp add: queue_ok_def)
  have "flush_inv fnm R T [] (rs, [], [])" using assms(2) by (simp add: flush_inv_def)
  then have "triple P (foldM (proc_flush_one os fnm now) qs (rs, [], [])) (flush_inv fnm R T qs)" for now
    by (intro triple_foldM_done) (auto intro!: proc_flush_one_inv assms(1) retries [rule_format])
  moreover have "rules_of fnm R (fst acc) \<and> queue_ok (fst (snd acc)) \<and> events_sound fnm R T (snd (snd acc))"
    if "flush_inv fnm R T qs acc" for acc
    using that assms(3) by (auto simp: flush_inv_def queue_ok_def split: prod.splits)
  ultimately have "triple P (foldM (proc_flush_one os fnm now) qs (rs, [], []))
      (\<lambda>acc. rules_of fnm R (fst acc) \<and> queue_ok (fst (snd acc)) \<and> events_sound fnm R T (snd (snd acc)))" for now
    by (rule triple_weaken)
  then show ?thesis
    unfolding proc_flush_pending_def now_instant_def using assms
    by (intro triple_intros assms(1)) (simp_all add: queue_ok_def)
qed

definition scan_inv :: "fnmatch \<Rightarrow> RuleSet \<Rightarrow> StateTracker \<Rightarrow> scan_acc \<Rightarrow> bool" where
  "scan_inv fnm R T a \<longleftrightarrow> rules_of fnm R (sa_rules a) \<and> queue_ok (sa_pending a) \<and> events_sound fnm R T (sa_events a)"

lemma scan_inv_simps [simp]:
  "scan_inv fnm R T (a\<lparr>sa_current := c\<rparr>) = scan_inv fnm R T a"
  "scan_inv fnm R T a \<Longrightarrow> rules_of fnm R rs \<Longrightarrow> scan_inv fnm R T (a\<lparr>sa_rules := rs\<rparr>)"
  "scan_inv fnm R T a \<Longrightarrow> events_sound fnm R T evs \<Longrightarrow> scan_inv fnm R T (a\<lparr>sa_events := sa_events a @ evs\<rparr>)"
  by (simp_all add: scan_inv_def)

lemma queue_pending_inv:
  assumes "kernel_blind P" and "scan_inv fnm R T a"
  shows "triple P (queue_pending os p a) (scan_inv fnm R T)"
  using assms unfolding queue_pending_def now_instant_def
  by (intro triple_intros) (auto simp: scan_inv_def queue_ok_def list_ex_iff)

lemma new_tids_any: "kernel_blind P \<Longrightarrow> triple P (new_tids_for os p) (\<lambda>_. True)"
  unfolding new_tids_for_def by (intro triple_intros) auto

lemma full_entry_inv:
  assumes "kernel_blind P" and "scan_inv fnm R T a"
  shows "triple P (full_entry os fnm name a) (scan_inv fnm R T)"
proof -
  have tids: "triple P (if b then new_tids_for os p else ret []) (\<lambda>_. True)" for b p
    by (auto intro: new_tids_any assms(1) triple_return)
  have step: "yes = interested_pure fnm R pkg \<and> rules_of fnm R rs'"
    if "ask fnm pkg (sa_rules a) = (yes, rs')" for pkg yes rs'
    using ask_ok [OF _ that] assms(2) by (simp add: scan_inv_def)
  show ?thesis
    unfolding full_entry_def
    by (intro triple_intros assms(1) queue_pending_inv triple_bind [OF tids])
      (use assms(2) in \<open>auto dest!: step simp: scan_inv_def sound_events\<close>)
qed

lemma incremental_inv:
  assumes "kernel_blind P" and "scan_inv fnm R T a"
  shows "triple P (incremental_one os fnm p a) (scan_inv fnm R T)"
proof -
  have step: "yes = interested_pure fnm R pkg \<and> rules_of fnm R rs'"
    if "ask fnm pkg (sa_rules a) = (yes, rs')" for pkg yes rs'
    using ask_ok [OF _ that] assms(2) by (simp add: scan_inv_def)
  show ?thesis
    unfolding incremental_one_def
    by (intro triple_intros assms(1) triple_bind [OF new_tids_any])
      (use assms(2) in \<open>auto dest!: step simp: scan_inv_def sound_events\<close>)
qed

lemma exit_events_inv:
  assumes "scan_inv fnm R T a"
  shows "triple (tracker_is T) (exit_events a) (scan_inv fnm R T)"
  unfolding exit_events_def
proof (intro triple_intros)
  fix w :: "'b world"
  assume "tracker_is T w"
  then have "events_sound fnm R T (map (\<lambda>p. ev_exit p p) (filter (\<lambda>p. p \<notin> sa_current a) (tracker_pids w)))"
    by (auto simp: events_sound_def ev_exit_def tracker_is_def tracker_pids_def map_of_eq_None_iff)
  with assms show "scan_inv fnm R T (a\<lparr>sa_events := sa_events a @
      map (\<lambda>p. ev_exit p p) (filter (\<lambda>p. p \<notin> sa_current a) (tracker_pids w))\<rparr>)" by simp
qed

lemma scan_round_inv:
  assumes "scan_inv fnm R T a"
  shows "triple (tracker_is T) (scan_round os fnm full a) (scan_inv fnm R T)"
proof -
  note exits = triple_bind [OF _ exit_events_inv]
  have "triple (tracker_is T) (foldM (full_entry os fnm) es a) (scan_inv fnm R T)" for es
    using assms by (rule triple_foldM) (rule full_entry_inv [OF tracker_is_blind])
  then have full: "triple (tracker_is T) (foldM (full_entry os fnm) es a \<bind> exit_events) (scan_inv fnm R T)" for es
    by (rule exits)
  have "triple (tracker_is T) (foldM (incremental_one os fnm) ps a) (scan_inv fnm R T)" for ps
    using assms by (rule triple_foldM) (rule incremental_inv [OF tracker_is_blind])
  then have incr: "triple (tracker_is T) (foldM (incremental_one os fnm) ps a \<bind> exit_events) (scan_inv fnm R T)" for ps
    by (rule exits)
  show ?thesis
    unfolding scan_round_def using assms by (intro triple_intros tracker_is_blind full incr)
qed

lemma collect_sound:
  assumes "so_rules s = Some rs" and "rules_of fnm R rs" and "queue_ok (so_pending s)"
  shows "triple (tracker_is T) (collect os fnm s)
    (\<lambda>r. events_sound fnm R T (snd r) \<and> queue_ok (so_pending (fst r)) \<and>
       (\<exists>rs'. so_rules (fst r) = Some rs' \<and> rules_of fnm R rs'))"
  unfolding collect_def assms(1) option.case
proof (rule triple_bind [OF proc_flush_inv [OF tracker_is_blind assms(2,3)]], intro triple_intros tracker_is_blind)
  fix fl :: proc_flush and n
  assume "rules_of fnm R (fst fl) \<and> queue_ok (fst (snd fl)) \<and> events_sound fnm R T (snd (snd fl))"
  then have "triple (tracker_is T) (case fl of (rs', kept, evs) \<Rightarrow>
      scan_round os fnm (scan_needed n s)
        \<lparr>sa_rules = rs', sa_pending = kept, sa_current = {}, sa_events = evs\<rparr>) (scan_inv fnm R T)"
    by (intro triple_prod scan_round_inv) (simp add: scan_inv_def)
  then show "triple (tracker_is T) (do {
      a \<leftarrow> (case fl of (rs', kept, evs) \<Rightarrow> scan_round os fnm (scan_needed n s)
        \<lparr>sa_rules = rs', sa_pending = kept, sa_current = {}, sa_events = evs\<rparr>);
      ret (\<lparr>so_rules = Some (sa_rules a), last_proc_total = n, scan_all = False, so_pending = sa_pending a\<rparr>,
        sa_events a) })
    (\<lambda>r. events_sound fnm R T (snd r) \<and> queue_ok (so_pending (fst r)) \<and>
       (\<exists>rs'. so_rules (fst r) = Some rs' \<and> rules_of fnm R rs'))"
    by (rule triple_bind) (auto simp: scan_inv_def intro: triple_return)
qed

end
