(* ===== verification/Engine_Spec.thy ===== *)
theory Engine_Spec
  imports Source_Facts
begin

text \<open>
  What the engine promises, on an abstract view of the tracker: which threads of a process count as
  handled and when it was last scanned. \<open>event_spec\<close> says what an event does to this view, and
  \<open>handle_event\<close> refines it whatever the kernel answers; the sweeps over the tracker (dead
  processes, packages out of the configuration) are filters.
\<close>

section \<open>The abstract view\<close>

datatype view = View (handled: "pid set") (scan_done: bool) (scan_time: int)

type_synonym track = "pid \<rightharpoonup> view"

definition view_of :: "ProcessState \<Rightarrow> view" where
  "view_of s = View (applied_tids s) (initial_scan_done s) (last_scan_time s)"

definition fresh :: view where
  "fresh = View {} False 0"

definition track_of :: "StateTracker \<Rightarrow> track" where
  "track_of T p = map_option view_of (map_of (procs T) p)"

definition tracked :: "'k world \<Rightarrow> track" where
  "tracked w = track_of (tracker w)"

text \<open>A process whose identifier was reused starts over; otherwise the thread is added or not.\<close>

definition with_tids :: "(pid set \<Rightarrow> pid set) \<Rightarrow> view \<Rightarrow> view" where
  "with_tids f v = View (f (handled v)) (scan_done v) (scan_time v)"

definition single_result :: "pid \<Rightarrow> view \<Rightarrow> view \<Rightarrow> bool" where
  "single_result tid v v' \<longleftrightarrow> v' \<in> {v, fresh, with_tids (insert tid) v, with_tids (insert tid) fresh}"

text \<open>
  The package an event is about: the one it carries, or else what the kernel answers, in some state,
  for the command line of the process (nothing when it cannot be read).
\<close>

definition event_named :: "'k os \<Rightarrow> ProcessEvent \<Rightarrow> string \<Rightarrow> bool" where
  "event_named os ev pkg \<longleftrightarrow>
     (case ev_pkg ev of
        Some q \<Rightarrow> pkg = q
      | None \<Rightarrow> \<exists>k. pkg = (case fst (run_state (read_cmdline os (ev_pid ev)) k) of None \<Rightarrow> [] | Some s \<Rightarrow> s))"

abbreviation asks_for :: "'k os \<Rightarrow> ProcessEvent \<Rightarrow> string \<Rightarrow> bool" where
  "asks_for os ev pkg \<equiv> event_named os ev pkg \<and> pkg \<noteq> []"

inductive event_spec :: "'k os \<Rightarrow> fnmatch \<Rightarrow> RuleSet \<Rightarrow> int \<Rightarrow> ProcessEvent \<Rightarrow> track \<Rightarrow> track \<Rightarrow> bool"
  for os fnm R now ev m where
  process_exit: "ev_kind ev = Exit \<Longrightarrow> ev_tid ev = ev_pid ev \<Longrightarrow>
    event_spec os fnm R now ev m (m(ev_pid ev := None))"
| thread_exit: "ev_kind ev = Exit \<Longrightarrow> ev_tid ev \<noteq> ev_pid ev \<Longrightarrow>
    event_spec os fnm R now ev m (m(ev_pid ev := map_option (with_tids (\<lambda>ts. ts - {ev_tid ev})) (m (ev_pid ev))))"
| migration: "ev_kind ev = CpuMigrate \<Longrightarrow> event_spec os fnm R now ev m m"
| nameless: "ev_kind ev \<in> {Fork, Exec, ThreadClone} \<Longrightarrow> event_named os ev [] \<Longrightarrow>
    event_spec os fnm R now ev m m"
| stranger: "ev_kind ev \<in> {Fork, Exec, ThreadClone} \<Longrightarrow> asks_for os ev pkg \<Longrightarrow>
    \<not> interested_pure fnm R pkg \<Longrightarrow> event_spec os fnm R now ev m (m(ev_pid ev := None))"
| scanned: "ev_kind ev \<in> {Fork, Exec, ThreadClone} \<Longrightarrow> asks_for os ev pkg \<Longrightarrow>
    interested_pure fnm R pkg \<Longrightarrow>
    ev_kind ev = ThreadClone \<longrightarrow> (\<forall>v. m (ev_pid ev) = Some v \<longrightarrow> scan_done v \<longrightarrow> 2 \<le> now - scan_time v) \<Longrightarrow>
    event_spec os fnm R now ev m (m(ev_pid ev \<mapsto> View (set tids) True now))"
| single: "ev_kind ev = ThreadClone \<Longrightarrow> asks_for os ev pkg \<Longrightarrow>
    interested_pure fnm R pkg \<Longrightarrow> m (ev_pid ev) = Some v \<Longrightarrow> scan_done v \<Longrightarrow> now - scan_time v < 2 \<Longrightarrow>
    single_result (ev_tid ev) v v' \<Longrightarrow> event_spec os fnm R now ev m (m(ev_pid ev \<mapsto> v'))"

section \<open>The tracker under the engine's steps\<close>

lemma tracker_fixed: "world_inv (tracker_is T)"
  by unfold_locales (simp_all add: tracker_is_def)

interpretation fixed_inv: world_inv "tracker_is T" for T
  by (rule tracker_fixed)

lemma keeps_rules: "keeps (tracker_is T) (on_rules m)"
  by (rule keeps_on_rules) (simp add: tracker_is_def)

lemma keeps_scan: "keeps (tracker_is T) (scan_tid os fnm topo pkg now rt tr tid acc)"
  unfolding scan_tid_def by (intro keeps_intros keeps_rules fixed_inv.keeps_kern fixed_inv.keeps_apply_thread)

text \<open>Any property of the view is carried where the tracker is.\<close>

definition view_is :: "(track \<Rightarrow> bool) \<Rightarrow> 'k world \<Rightarrow> bool" where
  "view_is Q w \<longleftrightarrow> Q (tracked w)"

lemma view_blind:
  assumes "\<And>T. keeps (tracker_is T) m"
  shows "keeps (view_is Q) m"
  using assms by (simp add: keeps_def tracker_is_def view_is_def tracked_def)

lemma tracked_get: "tracked w p = map_option view_of (tracker_get p w)"
  by (simp add: tracked_def track_of_def tracker_get_def)

lemma tracked_put: "tracked (put_proc p s w) = (tracked w)(p \<mapsto> view_of s)"
  by (rule ext) (simp add: tracked_get update_get)

lemma tracked_drop: "tracked (drop_proc p w) = (tracked w)(p := None)"
  by (rule ext) (simp add: tracked_get drop_get)

lemma tracked_remove: "tracked (snd (run_state (tracker_remove os p) w)) = (tracked w)(p := None)"
  by (rule ext) (simp add: tracked_get remove_get)

lemma tracked_release: "tracked (snd (run_state (release_state os s) w)) = tracked w"
  by (rule ext) (simp add: tracked_get release_get)

lemma tracked_with:
  "tracked (snd (run_state (with_proc p f) w)) =
     (tracked w)(p := map_option (\<lambda>s. view_of (f s)) (tracker_get p w))"
  by (rule ext) (auto simp: with_proc_def tracked_get update_get split: option.splits)

lemma tracked_same_put: "tracker_get p w = Some s \<Longrightarrow> view_of s' = view_of s \<Longrightarrow> tracked (put_proc p s' w) = tracked w"
  by (rule ext) (simp add: tracked_put tracked_get)

lemma tracked_refs: "tracked (set_refs r w) = tracked w"
  by (simp add: tracked_def track_of_def set_refs_def fun_eq_iff)

lemma tracked_register: "tracked (fold (register_dir p) dirs w) = tracked w"
proof (induction dirs arbitrary: w)
  case (Cons d ds)
  have "tracked (register_dir p d w) = tracked w"
    by (auto simp: register_dir_def Let_def tracked_refs view_of_def intro!: tracked_same_put split: option.splits)
  with Cons show ?case by simp
qed simp

lemma tracked_kern: "tracked (w\<lparr>kern := k\<rparr>) = tracked w"
  by (simp add: tracked_def)

text \<open>Entering: the process is there afterwards, as before, renamed or anew.\<close>

lemma tracked_insert: "tracked (snd (run_state (insert_new os p pkg now) w)) = (tracked w)(p \<mapsto> fresh)"
  by (simp add: insert_new_def on_kern_def tracked_put tracked_kern view_of_def process_new_def fresh_def split: prod.splits)

definition entered :: "pid \<Rightarrow> track \<Rightarrow> track \<Rightarrow> bool" where
  "entered p m m' \<longleftrightarrow> (\<exists>v. (m p = Some v \<or> v = fresh) \<and> m' = m(p \<mapsto> v))"

lemma enteredI: "m p = Some v \<Longrightarrow> entered p m m" "entered p m (m(p \<mapsto> fresh))"
proof -
  show "m p = Some v \<Longrightarrow> entered p m m"
    unfolding entered_def by (rule exI [of _ v]) (simp add: fun_upd_idem)
  show "entered p m (m(p \<mapsto> fresh))"
    unfolding entered_def by (rule exI [of _ "fresh"]) simp
qed

lemma tracked_enter: "entered p (tracked w) (tracked (snd (run_state (tracker_enter os p pkg now) w)))"
proof (cases "tracker_get p w")
  case None
  then show ?thesis by (simp add: tracker_enter_def tracked_insert enteredI)
next
  case (Some s)
  obtain a w1 where a: "run_state (enter_decide os p pkg s) w = (a, w1)"
    by (cases "run_state (enter_decide os p pkg s) w")
  then have w1: "tracker w1 = tracker w"
    by (auto simp: enter_decide_def on_kern_def split: if_splits prod.splits)
  then have get: "tracked w1 = tracked w" "tracker_get p w1 = Some s" "tracked w p = Some (view_of s)"
    using Some by (simp_all add: tracked_def tracker_get_def track_of_def)
  show ?thesis
  proof (cases a)
    case FastPath
    with a Some get show ?thesis
      by (simp add: tracker_enter_def enteredI)
  next
    case ExecUpdate
    with a Some get show ?thesis
      by (simp add: tracker_enter_def tracked_with enteredI fun_upd_idem view_of_def)
  next
    case PidReuse
    with a Some get show ?thesis
      by (simp add: tracker_enter_def tracked_insert tracked_release tracked_drop case_prod_beta enteredI)
  qed
qed

section \<open>A full scan\<close>

text \<open>\<open>only p m\<close>: the process \<open>p\<close> is tracked and the others are as in \<open>m\<close>.\<close>

definition only :: "pid \<Rightarrow> track \<Rightarrow> 'k world \<Rightarrow> bool" where
  "only p m = view_is (\<lambda>m'. \<exists>v. m' = m(p \<mapsto> v))"

definition at_view :: "track \<Rightarrow> 'k world \<Rightarrow> bool" where
  "at_view m = view_is (\<lambda>m'. m' = m)"

lemma at_view_iff: "at_view m w \<longleftrightarrow> tracked w = m"
  by (simp add: at_view_def view_is_def)

lemma only_iff: "only p m w \<longleftrightarrow> (\<exists>v. tracked w = m(p \<mapsto> v))"
  by (simp add: only_def view_is_def)

lemma view_kern: "keeps (view_is Q) (on_kern m)" "keeps (view_is Q) (on_rules n)"
  by (rule view_blind, rule fixed_inv.keeps_kern, rule view_blind, rule keeps_rules)

lemma view_scan: "keeps (view_is Q) (scan_tid os fnm topo pkg now rt tr tid acc)"
  by (rule view_blind) (rule keeps_scan)

lemma only_enter: "keeps (only p m) (tracker_enter os p pkg now)"
proof -
  have "only p m (snd (run_state (tracker_enter os p pkg now) w))" if "only p m w" for w
    using that tracked_enter [of p w os pkg now] by (fastforce simp: only_iff entered_def)
  then show ?thesis by (simp add: keeps_def)
qed

text \<open>A change of a process that is there.\<close>

lemma with_view:
  assumes "tracked w = m(p \<mapsto> v)"
  shows "\<exists>s. view_of s = v \<and> tracked (snd (run_state (with_proc p f) w)) = m(p \<mapsto> view_of (f s))"
proof -
  have "map_option view_of (tracker_get p w) = Some v"
    using assms tracked_get [of w p] by simp
  then obtain s where "tracker_get p w = Some s" "view_of s = v" by auto
  with assms show ?thesis by (intro exI [of _ s]) (simp add: tracked_with)
qed

lemma only_with: "keeps (only p m) (with_proc p f :: ('k world, unit) state)"
proof -
  have "only p m (snd (run_state (with_proc p f) w))" if "only p m w" for w :: "'k world"
    using that with_view [of w m p _ f] by (auto simp: only_iff)
  then show ?thesis by (simp add: keeps_def)
qed

lemma only_take: "keeps (only p m) (take_names p now)"
  unfolding take_names_def by (intro keeps_intros only_with)

lemma enter_only: "ends (at_view m) (tracker_enter os p pkg now) (\<lambda>_. only p m)"
proof -
  have "only p m (snd (run_state (tracker_enter os p pkg now) w))" if "tracked w = m" for w
    using tracked_enter [of p w os pkg now] that by (auto simp: only_iff entered_def)
  then show ?thesis by (simp add: ends_def at_view_iff)
qed

definition scanned_view :: "pid \<Rightarrow> track \<Rightarrow> 'k world \<Rightarrow> bool" where
  "scanned_view p m w \<longleftrightarrow> (\<exists>tids d t. tracked w = m(p \<mapsto> View (set tids) d t))"

lemma last_with:
  "ends (only p m) (with_proc p (\<lambda>s. s\<lparr>tid_names := c s, applied_tids := set tids\<rparr>) :: ('k world, unit) state)
     (\<lambda>_. scanned_view p m)"
proof -
  have "scanned_view p m (snd (run_state (with_proc p (\<lambda>s. s\<lparr>tid_names := c s, applied_tids := set tids\<rparr>)) w))"
    if "only p m w" for w :: "'k world"
    using that with_view [of w m p _ "\<lambda>s. s\<lparr>tid_names := c s, applied_tids := set tids\<rparr>"]
    by (auto simp: only_iff scanned_view_def view_of_def) blast
  then show ?thesis by (simp add: ends_def)
qed

lemma at_kern: "keeps (at_view m) (on_kern k)" "keeps (at_view m) (on_rules r)"
  unfolding at_view_def by (rule view_kern)+

lemma refresh_view:
  "ends (at_view m) (refresh_process_rules os fnm topo p pkg now rt) (\<lambda>_. scanned_view p m)"
proof -
  have loop: "keeps (only p m) (foldM (scan_tid os fnm topo pkg now rt tr) tids acc)" for tids tr acc
    unfolding only_def by (intro keeps_foldM view_scan)
  show ?thesis
    unfolding refresh_process_rules_def
    by (rule ends_seq [OF ends_keeps [OF at_kern(1)]], rule ends_seq [OF ends_keeps [OF at_kern(2)]],
        rule ends_seq [OF enter_only], rule ends_seq [OF ends_keeps [OF only_take]],
        rule ends_seq [OF ends_keeps [OF loop]], rule ends_seq [OF ends_keeps [OF only_enter]],
        rule ends_seq [OF last_with], rule ends_return)
qed

lemma scanned_register: "keeps (scanned_view p m) (register_dirs p dirs)"
  unfolding register_dirs_def by (rule keeps_modify) (simp add: scanned_view_def tracked_register)

definition done_view :: "pid \<Rightarrow> int \<Rightarrow> track \<Rightarrow> 'k world \<Rightarrow> bool" where
  "done_view p now m w \<longleftrightarrow> (\<exists>tids. tracked w = m(p \<mapsto> View (set tids) True now))"

lemma mark_view: "ends (scanned_view p m) (mark_scanned p now :: ('k world, unit) state) (\<lambda>_. done_view p now m)"
proof -
  have "done_view p now m (snd (run_state (mark_scanned p now) w))" if "scanned_view p m w" for w :: "'k world"
  proof -
    from that obtain tids d t where "tracked w = m(p \<mapsto> View (set tids) d t)" by (auto simp: scanned_view_def)
    from with_view [OF this, of "\<lambda>s. s\<lparr>initial_scan_done := True, last_scan_time := now\<rparr>"]
    show ?thesis by (auto simp: mark_scanned_def view_of_def done_view_def)
  qed
  then show ?thesis by (simp add: ends_def)
qed

lemma full_scan_view: "ends (at_view m) (full_scan os fnm topo p pkg now rt) (\<lambda>_. done_view p now m)"
  unfolding full_scan_def
  by (rule ends_seq [OF refresh_view], rule ends_seq [OF ends_keeps [OF scanned_register]],
      rule ends_seq [OF mark_view], rule ends_return)

section \<open>A single thread\<close>

lemma single_refl: "single_result tid v v" "single_result tid v fresh"
  by (simp_all add: single_result_def)

definition single_view :: "pid \<Rightarrow> pid \<Rightarrow> view \<Rightarrow> track \<Rightarrow> 'k world \<Rightarrow> bool" where
  "single_view p tid v m w \<longleftrightarrow> (\<exists>v'. single_result tid v v' \<and> tracked w = m(p \<mapsto> v'))"

definition base_view :: "pid \<Rightarrow> view \<Rightarrow> track \<Rightarrow> 'k world \<Rightarrow> bool" where
  "base_view p v m = view_is (\<lambda>m'. m' = m(p \<mapsto> v) \<or> m' = m(p \<mapsto> fresh))"

lemma base_view_iff: "base_view p v m w \<longleftrightarrow> tracked w = m(p \<mapsto> v) \<or> tracked w = m(p \<mapsto> fresh)"
  by (simp add: base_view_def view_is_def)

lemma base_single: "base_view p v m w \<Longrightarrow> single_view p tid v m w"
  using single_refl by (fastforce simp: base_view_iff single_view_def)

lemma enter_base:
  assumes "m p = Some v"
  shows "ends (at_view m) (tracker_enter os p pkg now) (\<lambda>_. base_view p v m)"
proof -
  have "base_view p v m (snd (run_state (tracker_enter os p pkg now) w))" if "tracked w = m" for w
    using tracked_enter [of p w os pkg now] that assms by (auto simp: base_view_iff entered_def)
  then show ?thesis by (simp add: ends_def at_view_iff)
qed

lemma add_single: "ends (base_view p v m) (add_tid p tid :: ('k world, unit) state) (\<lambda>_. single_view p tid v m)"
proof -
  have step: "tracked (snd (run_state (add_tid p tid) w)) = m(p \<mapsto> with_tids (insert tid) u)"
    if "tracked w = m(p \<mapsto> u)" for u and w :: "'k world"
    using with_view [OF that, of "\<lambda>s. s\<lparr>applied_tids := insert tid (applied_tids s)\<rparr>"]
    by (auto simp: add_tid_def view_of_def with_tids_def)
  have "single_view p tid v m (snd (run_state (add_tid p tid) w))" if "base_view p v m w" for w :: "'k world"
    using that step [of w v] step [of w fresh]
    unfolding base_view_iff single_view_def single_result_def by blast
  then show ?thesis by (simp add: ends_def)
qed

lemma single_register: "keeps (single_view p tid v m) (register_dirs p dirs)"
  unfolding register_dirs_def by (rule keeps_modify) (simp add: single_view_def tracked_register)

lemma base_name: "keeps (base_view p v m) (thread_name os p tid now :: ('k world, string) state)"
proof -
  have "base_view p v m (snd (run_state (with_proc p (\<lambda>s. s\<lparr>tid_names := c\<rparr>)) w))" if "base_view p v m w"
    for c and w :: "'k world"
  proof -
    have "tracked (snd (run_state (with_proc p (\<lambda>s. s\<lparr>tid_names := c\<rparr>)) w)) = m(p \<mapsto> u)"
      if "tracked w = m(p \<mapsto> u)" for u
      using with_view [OF that, of "\<lambda>s. s\<lparr>tid_names := c\<rparr>"] by (auto simp: view_of_def)
    with that show ?thesis by (auto simp: base_view_iff)
  qed
  then have "keeps (base_view p v m) (with_proc p (\<lambda>s. s\<lparr>tid_names := c\<rparr>) :: ('k world, unit) state)" for c
    by (simp add: keeps_def)
  then show ?thesis
    unfolding thread_name_def base_view_def by (intro keeps_intros view_kern)
qed

lemma apply_single_view:
  assumes "m p = Some v"
  shows "ends (at_view m) (apply_single_tid (os :: 'k os) fnm topo p pkg tid now rt) (\<lambda>_. single_view p tid v m)"
proof -
  have stay: "ends (base_view p v m) (ret n :: ('k world, nat) state) (\<lambda>_. single_view p tid v m)" for n
    by (rule ends_return) (rule base_single)
  have add: "ends (base_view p v m) (do { _ \<leftarrow> add_tid p tid; ret n } :: ('k world, nat) state) (\<lambda>_. single_view p tid v m)" for n
    by (rule ends_seq [OF add_single], rule ends_return)
  have reg: "ends (base_view p v m) (do { _ \<leftarrow> add_tid p tid; _ \<leftarrow> register_dirs p ds; ret n } :: ('k world, nat) state)
      (\<lambda>_. single_view p tid v m)" for n ds
    by (rule ends_seq [OF add_single], rule ends_seq [OF ends_keeps [OF single_register]], rule ends_return)
  have kern: "keeps (base_view p v m) (on_rules r)" "keeps (base_view p v m) (apply_thread os tid pkg pol topo rt)" for r pol
    unfolding base_view_def by (rule view_kern, rule view_blind, rule fixed_inv.keeps_apply_thread)
  have name: "keeps (base_view p v m) (if b then thread_name os p tid now else ret [])" for b
    by (intro keeps_intros base_name)
  have rest: "ends (base_view p v m) (case r of
        None \<Rightarrow> do { _ \<leftarrow> add_tid p tid; ret (0::nat) }
      | Some policy \<Rightarrow> do {
          outcome \<leftarrow> apply_thread os tid pkg policy topo rt;
          if outcome = Exited then ret 0
          else if outcome = SkippedNoCpus then do { _ \<leftarrow> add_tid p tid; ret 0 }
          else do { _ \<leftarrow> add_tid p tid; _ \<leftarrow> register_dirs p [cpuset_dir policy]; ret 1 }
        }) (\<lambda>_. single_view p tid v m)" for r
    by (intro ends_option add ends_seq [OF ends_keeps [OF kern(2)]] ends_if stay reg)
  show ?thesis
    unfolding apply_single_tid_def
    by (rule ends_seq [OF enter_base [of m p v, OF assms]], rule ends_gets, rule ends_if, rule ends_pre [OF stay], simp,
        rule ends_pre [where P' = "base_view p v m"], rule ends_seq [OF ends_keeps [OF kern(1)]],
        rule ends_seq [OF ends_keeps [OF name]], rule ends_seq [OF ends_keeps [OF kern(1)]], rule rest, simp)
qed

section \<open>Handling an event\<close>

text \<open>The rules stay what they are, whatever the view.\<close>

definition at_rules :: "fnmatch \<Rightarrow> RuleSet \<Rightarrow> track \<Rightarrow> 'k world \<Rightarrow> bool" where
  "at_rules fnm R m w \<longleftrightarrow> same_rules fnm R w \<and> at_view m w"

lemma at_rules_kern: "keeps (at_rules fnm R m) (on_kern k)"
  using at_kern(1) [of m k] rules_inv.keeps_kern [of fnm R k] by (simp add: keeps_def at_rules_def)

text \<open>The answer of the query is the one of the rules, and the view stays.\<close>

lemma interested_answer:
  "ends (at_rules fnm R m :: 'k world \<Rightarrow> bool) (on_rules (is_interested fnm pkg)) (\<lambda>yes w. at_view m w \<and> yes = interested_pure fnm R pkg)"
proof -
  have "at_view m (snd (run_state (on_rules (is_interested fnm pkg)) w)) \<and>
      fst (run_state (on_rules (is_interested fnm pkg)) w) = interested_pure fnm R pkg"
    if "at_rules fnm R m w" for w :: "'k world"
  proof
    from that show "at_view m (snd (run_state (on_rules (is_interested fnm pkg)) w))"
      unfolding at_rules_def by (blast intro: keepsD [OF at_kern(2)])
    from that show "fst (run_state (on_rules (is_interested fnm pkg)) w) = interested_pure fnm R pkg"
      using interested_value [of fnm "cfg_rules w" pkg] interested_clone [of fnm "cfg_rules w" pkg] interested_clone [of fnm R pkg]
      by (auto simp: at_rules_def same_rules_def on_rules_def split: prod.splits)
  qed
  then show ?thesis by (simp add: ends_def case_prod_beta)
qed

text \<open>One event from the view \<open>m\<close> on.\<close>

definition refined :: "'k os \<Rightarrow> fnmatch \<Rightarrow> RuleSet \<Rightarrow> int \<Rightarrow> ProcessEvent \<Rightarrow> track \<Rightarrow> 'k world \<Rightarrow> bool" where
  "refined os fnm R now ev m w \<longleftrightarrow> event_spec os fnm R now ev m (tracked w)"

lemma remove_ends: "ends (at_view m) (do { _ \<leftarrow> tracker_remove os p; ret n }) (\<lambda>_ w. tracked w = m(p := None))"
  by (simp add: ends_def at_view_iff tracked_remove case_prod_beta)

lemma stranger_ends:
  assumes "ev_kind ev \<in> {Fork, Exec, ThreadClone}" and "asks_for os ev pkg"
    and "\<not> interested_pure fnm R pkg"
  shows "ends (at_view m) (do {
      tracked \<leftarrow> gets (tracker_contains (ev_pid ev));
      _ \<leftarrow> (if tracked then tracker_remove os (ev_pid ev) else ret False);
      ret 0 }) (\<lambda>_. refined os fnm R now ev m)"
proof -
  have "tracked w = (tracked w)(ev_pid ev := None)" if "\<not> tracker_contains (ev_pid ev) w" for w :: "'a world"
    using that by (simp add: tracker_contains_def tracked_get fun_upd_idem)
  moreover have "event_spec os fnm R now ev m (m(ev_pid ev := None))"
    by (rule event_spec.stranger) (fact assms)+
  ultimately show ?thesis
    by (auto simp: ends_def at_view_iff refined_def tracked_remove case_prod_beta)
qed

lemma scanned_ends:
  assumes "ev_kind ev \<in> {Fork, Exec, ThreadClone}" and "asks_for os ev pkg"
    and "interested_pure fnm R pkg"
    and "ev_kind ev = ThreadClone \<longrightarrow> (\<forall>v. m (ev_pid ev) = Some v \<longrightarrow> scan_done v \<longrightarrow> 2 \<le> now - scan_time v)"
  shows "ends (at_view m) (full_scan os fnm topo (ev_pid ev) pkg now rt) (\<lambda>_. refined os fnm R now ev m)"
proof -
  have "event_spec os fnm R now ev m (m(ev_pid ev \<mapsto> View (set tids) True now))" for tids
    by (rule event_spec.scanned) (fact assms)+
  with full_scan_view [of m os fnm topo "ev_pid ev" pkg now rt] show ?thesis
    by (auto simp: ends_def refined_def done_view_def)
qed

lemma exec_ends:
  assumes "ev_kind ev = Exec" and "asks_for os ev pkg" and "interested_pure fnm R pkg"
  shows "ends (at_view m) (do {
      _ \<leftarrow> tracker_remove os (ev_pid ev);
      full_scan os fnm topo (ev_pid ev) pkg now rt }) (\<lambda>_. refined os fnm R now ev m)"
proof -
  have "ends (at_view m) (tracker_remove os (ev_pid ev)) (\<lambda>_. at_view (m(ev_pid ev := None)))"
    by (simp add: ends_def at_view_iff tracked_remove)
  from ends_seq [OF this full_scan_view] have "ends (at_view m) (do {
      _ \<leftarrow> tracker_remove os (ev_pid ev);
      full_scan os fnm topo (ev_pid ev) pkg now rt }) (\<lambda>_. done_view (ev_pid ev) now (m(ev_pid ev := None)))" .
  moreover have "event_spec os fnm R now ev m (m(ev_pid ev \<mapsto> View (set tids) True now))" for tids
    by (rule event_spec.scanned [of ev os pkg]) (use assms in simp_all)
  ultimately show ?thesis
    by (auto simp: ends_def refined_def done_view_def)
qed

lemma clone_ends:
  assumes "ev_kind ev = ThreadClone" and "asks_for os ev pkg" and "interested_pure fnm R pkg"
  shows "ends (at_view m) (do {
      ex \<leftarrow> gets (tracker_get (ev_pid ev));
      if need_full ex now then full_scan os fnm topo (ev_pid ev) pkg now rt
      else apply_single_tid os fnm topo (ev_pid ev) pkg (ev_tid ev) now rt }) (\<lambda>_. refined os fnm R now ev m)"
proof (rule ends_gets, rule ends_if)
  fix ex :: "ProcessState option"
  let ?P = "\<lambda>w. at_view m w \<and> ex = tracker_get (ev_pid ev) w"
  have view: "m (ev_pid ev) = map_option view_of ex" if "?P w" for w :: "'a world"
    using that by (auto simp: at_view_iff tracked_get)
  show "ends ?P (full_scan os fnm topo (ev_pid ev) pkg now rt) (\<lambda>_. refined os fnm R now ev m)" if "need_full ex now"
  proof (cases "m (ev_pid ev) = map_option view_of ex")
    case True
    with that have "\<forall>v. m (ev_pid ev) = Some v \<longrightarrow> scan_done v \<longrightarrow> 2 \<le> now - scan_time v"
      by (auto simp: need_full_def view_of_def THREAD_SCAN_TTL_SECS_def split: option.splits)
    then show ?thesis
      by (intro ends_pre [OF scanned_ends [OF _ assms(2,3)]]) (simp_all add: assms(1))
  qed (use view in \<open>auto simp: ends_def\<close>)
  show "ends ?P (apply_single_tid os fnm topo (ev_pid ev) pkg (ev_tid ev) now rt) (\<lambda>_. refined os fnm R now ev m)"
    if "\<not> need_full ex now"
  proof (cases "m (ev_pid ev) = map_option view_of ex")
    case True
    with that obtain s where s: "m (ev_pid ev) = Some (view_of s)" "initial_scan_done s" "now - last_scan_time s < 2"
      by (auto simp: need_full_def THREAD_SCAN_TTL_SECS_def split: option.splits)
    have "event_spec os fnm R now ev m (m(ev_pid ev \<mapsto> v'))" if "single_result (ev_tid ev) (view_of s) v'" for v'
      by (rule event_spec.single [of ev os pkg fnm R m "view_of s"]) (use assms s that in \<open>simp_all add: view_of_def\<close>)
    with apply_single_view [of m "ev_pid ev" "view_of s", OF s(1), of os fnm topo pkg "ev_tid ev" now rt] show ?thesis
      by (auto simp: ends_def refined_def single_view_def)
  qed (use view in \<open>auto simp: ends_def\<close>)
qed

lemma event_pkg_ends:
  "ends (at_rules fnm R m) (event_pkg os ev)
     (\<lambda>pkg w. at_rules fnm R m w \<and> event_named os ev pkg)"
proof (cases "ev_pkg ev")
  case None
  have "keeps (at_rules fnm R m) (event_pkg os ev)"
    unfolding event_pkg_def None by (auto intro!: keeps_intros at_rules_kern)
  moreover have "event_named os ev (fst (run_state (event_pkg os ev) w))" for w
    by (auto simp: event_named_def event_pkg_def on_kern_def None split: prod.split) (metis fst_conv)
  ultimately show ?thesis by (simp add: ends_def keeps_def)
next
  case (Some pkg)
  then show ?thesis by (simp add: ends_def event_pkg_def event_named_def)
qed

lemma asked_ends:
  assumes kind: "ev_kind ev \<in> {Fork, Exec, ThreadClone}"
    and step: "\<And>pkg. asks_for os ev pkg \<Longrightarrow>
      ends (at_view m) (f pkg (interested_pure fnm R pkg)) (\<lambda>_. refined os fnm R now ev m)"
  shows "ends (at_rules fnm R m) (do {
      pkg \<leftarrow> event_pkg os ev;
      if pkg = [] then ret 0
      else do {
        interested \<leftarrow> on_rules (is_interested fnm pkg);
        f pkg interested
      }}) (\<lambda>_. refined os fnm R now ev m)"
proof (rule ends_seq [OF event_pkg_ends], rule ends_if)
  fix pkg :: string
  show "ends (\<lambda>w. at_rules fnm R m w \<and> event_named os ev pkg) (ret 0)
      (\<lambda>_. refined os fnm R now ev m)" if "pkg = []"
    using event_spec.nameless [OF kind, of os fnm R now m] that
    by (auto simp: ends_def at_rules_def at_view_iff refined_def)
  show "ends (\<lambda>w. at_rules fnm R m w \<and> event_named os ev pkg)
      (do { interested \<leftarrow> on_rules (is_interested fnm pkg); f pkg interested }) (\<lambda>_. refined os fnm R now ev m)" if "pkg \<noteq> []"
  proof (cases "asks_for os ev pkg")
    case True
    show ?thesis
    proof (rule ends_pre, rule ends_seq [OF interested_answer])
      show "ends (\<lambda>w. at_view m w \<and> yes = interested_pure fnm R pkg) (f pkg yes) (\<lambda>_. refined os fnm R now ev m)" for yes
        using step [OF True] by (auto simp: ends_def)
    qed simp
  qed (use that in \<open>auto simp: ends_def\<close>)
qed

lemma asked_event:
  assumes kind: "ev_kind ev \<in> {Fork, Exec, ThreadClone}"
  shows "ends (at_rules fnm R m) (handle_event os fnm topo now rt ev) (\<lambda>_. refined os fnm R now ev m)"
proof -
  have off: "(ev_kind ev = Exit) = False" "(ev_kind ev = CpuMigrate) = False"
    using kind by auto
  show ?thesis
    unfolding handle_event_def off if_False
  proof (rule asked_ends [OF kind], goal_cases)
    case (1 pkg)
    show ?case
    proof (rule ends_if)
      assume "\<not> interested_pure fnm R pkg"
      from stranger_ends [OF kind 1 this]
      show "ends (at_view m) (do {
          tracked \<leftarrow> gets (tracker_contains (ev_pid ev));
          _ \<leftarrow> (if tracked then tracker_remove os (ev_pid ev) else ret False);
          ret 0 }) (\<lambda>_. refined os fnm R now ev m)" .
    next
      assume "\<not> \<not> interested_pure fnm R pkg"
      then have yes: "interested_pure fnm R pkg" by simp
      show "ends (at_view m) (if ev_kind ev = Exec then do {
            _ \<leftarrow> tracker_remove os (ev_pid ev);
            full_scan os fnm topo (ev_pid ev) pkg now rt }
          else if ev_kind ev = Fork then full_scan os fnm topo (ev_pid ev) pkg now rt
          else do {
            ex \<leftarrow> gets (tracker_get (ev_pid ev));
            if need_full ex now then full_scan os fnm topo (ev_pid ev) pkg now rt
            else apply_single_tid os fnm topo (ev_pid ev) pkg (ev_tid ev) now rt })
          (\<lambda>_. refined os fnm R now ev m)"
      proof (cases "ev_kind ev")
        case Exec
        from exec_ends [OF this 1 yes] Exec show ?thesis by simp
      next
        case Fork
        with scanned_ends [OF kind 1 yes] show ?thesis by simp
      next
        case ThreadClone
        from clone_ends [OF this 1 yes] ThreadClone show ?thesis by simp
      qed (use kind in simp_all)
    qed
  qed
qed

lemma event_refines: "ends (at_rules fnm R m) (handle_event os fnm topo now rt ev) (\<lambda>_. refined os fnm R now ev m)"
proof (cases "ev_kind ev")
  case Exit
  have "tracked w = m \<Longrightarrow> event_spec os fnm R now ev m (tracked (snd (run_state (remove_tid (ev_pid ev) (ev_tid ev)) w)))"
    if "ev_tid ev \<noteq> ev_pid ev" for w :: "'a world"
  proof -
    assume "tracked w = m"
    then have "tracked (snd (run_state (remove_tid (ev_pid ev) (ev_tid ev)) w)) =
        m(ev_pid ev := map_option (with_tids (\<lambda>ts. ts - {ev_tid ev})) (m (ev_pid ev)))"
      unfolding remove_tid_def tracked_with
      by (auto simp: tracked_get option.map_comp comp_def view_of_def with_tids_def)
    with event_spec.thread_exit [OF Exit that] show ?thesis by simp
  qed
  with event_spec.process_exit [OF Exit] Exit show ?thesis
    by (auto simp: handle_event_def ends_def at_rules_def at_view_iff refined_def tracked_remove case_prod_beta)
next
  case CpuMigrate
  with event_spec.migration [OF CpuMigrate] show ?thesis
    by (auto simp: handle_event_def ends_def at_rules_def at_view_iff refined_def)
next
  case Exec
  then show ?thesis by (intro asked_event) simp
next
  case Fork
  then show ?thesis by (intro asked_event) simp
next
  case ThreadClone
  then show ?thesis by (intro asked_event) simp
qed

end
