(* ===== verification/Engine_Properties.thy ===== *)
theory Engine_Properties
  imports Engine_Spec Apply_Properties
begin

text \<open>
  The properties of the engine on its tracker: events refine \<open>event_spec\<close>, a refused relock touches
  no process, and the sweeps over the tracker are filters.
\<close>

section \<open>Events\<close>

text \<open>The runs of the specification over a list of events.\<close>

primrec events_spec :: "'k os \<Rightarrow> fnmatch \<Rightarrow> RuleSet \<Rightarrow> int \<Rightarrow> ProcessEvent list \<Rightarrow> track \<Rightarrow> track \<Rightarrow> bool" where
  "events_spec os fnm R now [] m m' = (m' = m)"
| "events_spec os fnm R now (ev # evs) m m' = (\<exists>m1. event_spec os fnm R now ev m m1 \<and> events_spec os fnm R now evs m1 m')"

lemma same_rules_self: "cache_ok fnm (cfg_rules w) \<Longrightarrow> same_rules fnm (cfg_rules w) w"
  by (simp add: same_rules_def)

lemma fold_refines:
  "same_rules fnm R w \<Longrightarrow> events_spec os fnm R now evs (tracked w)
     (tracked (snd (run_state (foldM (\<lambda>ev n. do { k \<leftarrow> handle_event os fnm topo now rt ev; ret (n + k) }) evs n) w)))"
proof (induction evs arbitrary: w n)
  case (Cons ev evs)
  have "same_rules fnm R (snd (run_state (handle_event os fnm topo now rt ev) w))"
    using keepsD [OF rules_inv.keeps_handle_event Cons.prems] .
  moreover have "event_spec os fnm R now ev (tracked w) (tracked (snd (run_state (handle_event os fnm topo now rt ev) w)))"
    using event_refines [of fnm R "tracked w" os topo now rt ev] Cons.prems
    by (simp add: ends_def at_rules_def at_view_iff refined_def)
  ultimately show ?case using Cons.IH by (auto simp: case_prod_beta)
qed simp

lemma handle_refines:
  assumes "same_rules fnm R w"
  shows "events_spec os fnm R now evs (tracked w) (tracked (snd (run_state (handle_events os fnm topo now evs) w)))"
proof -
  have w: "tracked (snd (run_state (on_kern (can_rt_sched os)) w)) = tracked w"
    by (simp add: on_kern_def tracked_kern split: prod.splits)
  from fold_refines [OF keepsD [OF rules_inv.keeps_kern assms, of "can_rt_sched os"], of os now evs]
  show ?thesis unfolding handle_events_def by (simp add: w case_prod_beta)
qed

text \<open>
  C10. Handling events refines the specification \<open>event_spec\<close>, whatever the kernel answers: the exit of
  a process or a package of no interest forgets the process, the exit of a thread only the
  thread; a fork, an exec and a thread of a process that is new, unscanned or last scanned at
  least two seconds ago scan the process now; another thread is handled alone; and no event
  touches another process than its own.
\<close>

theorem events_refine_spec:
  assumes "cache_ok fnm (cfg_rules w)"
  shows "events_spec os fnm (cfg_rules w) now evs (tracked w)
    (tracked (snd (run_state (handle_events os fnm topo now evs) w)))"
  by (rule handle_refines [OF same_rules_self [OF assms]])

theorem events_refine_spec_witness:
  "tracked (snd (run_state (handle_events demo_os (=) topo_default 5 [ev_exit 7 7])
     (demo_world\<lparr>cfg_rules := build_ruleset [], tracker := \<lparr>procs = [(7, process_new 7 1 ''a'' 3)], cpuset_refs = Map.empty\<rparr>\<rparr>))) 7 = None"
  using events_refine_spec [of "(=)" "demo_world\<lparr>cfg_rules := build_ruleset [],
      tracker := \<lparr>procs = [(7, process_new 7 1 ''a'' 3)], cpuset_refs = Map.empty\<rparr>\<rparr>" demo_os 5 "[ev_exit 7 7]" topo_default] build_cache_ok [of "(=)" "[]"]
  by (auto simp: ev_exit_def elim!: event_spec.cases)

section \<open>Relocking\<close>

text \<open>A process the kernel reports dead, in some state.\<close>

definition seen_dead :: "'k os \<Rightarrow> pid \<Rightarrow> bool" where
  "seen_dead os p \<longleftrightarrow> (\<exists>k. \<not> fst (run_state (is_alive os p) k))"

text \<open>
  What a relock leaves when nothing is applied: the log, the rules and every tracked process, but one
  the kernel reports dead can be forgotten.
\<close>

definition untouched :: "'k os \<Rightarrow> 'k world \<Rightarrow> 'k world \<Rightarrow> bool" where
  "untouched os w v \<longleftrightarrow> audit_ring v = audit_ring w \<and> cfg_rules v = cfg_rules w \<and>
     (\<forall>p. tracker_get p v = tracker_get p w \<or> tracker_get p v = None \<and> seen_dead os p)"

lemma untouched_trans: "untouched os w v \<Longrightarrow> untouched os v u \<Longrightarrow> untouched os w u"
  by (auto simp: untouched_def) metis+

lemma release_steady:
  "audit_ring (snd (run_state (release_state os s) w)) = audit_ring w \<and>
   cfg_rules (snd (run_state (release_state os s) w)) = cfg_rules w"
proof -
  have "keeps (\<lambda>v. audit_ring v = audit_ring w \<and> cfg_rules v = cfg_rules w) (release_state os s)"
    unfolding release_state_def release_dir_def forget_cpuset_dir_def on_kern_def
    by (intro keeps_intros keeps_modify keeps_zoom) (simp_all add: set_refs_def)
  from keepsD [OF this, of w] show ?thesis by simp
qed

lemma remove_untouched:
  assumes "seen_dead os p"
  shows "untouched os w (snd (run_state (tracker_remove os p) w))"
proof -
  have "audit_ring (drop_proc p w) = audit_ring w" "cfg_rules (drop_proc p w) = cfg_rules w"
    by (simp_all add: drop_proc_def)
  then have "audit_ring (snd (run_state (tracker_remove os p) w)) = audit_ring w \<and>
      cfg_rules (snd (run_state (tracker_remove os p) w)) = cfg_rules w"
    using release_steady [of os _ "drop_proc p w"]
    by (simp add: tracker_remove_def case_prod_beta split: option.split)
  then show ?thesis using assms by (simp add: untouched_def remove_get)
qed

lemma kern_untouched: "untouched os w (snd (run_state (on_kern k) w))"
  by (simp add: untouched_def on_kern_def tracker_get_def split: prod.splits)

lemma keeps_untouched:
  "keeps (untouched os w) (on_kern k)" "seen_dead os p \<Longrightarrow> keeps (untouched os w) (tracker_remove os p)"
  "keeps (untouched os w) (bump_relock d)"
proof -
  show "keeps (untouched os w) (on_kern k)" "seen_dead os p \<Longrightarrow> keeps (untouched os w) (tracker_remove os p)"
    unfolding keeps_def by (blast intro: untouched_trans kern_untouched remove_untouched)+
  show "keeps (untouched os w) (bump_relock d)"
    by (simp add: keeps_def bump_relock_def untouched_def tracker_get_def)
qed

text \<open>The answer of \<open>is_alive\<close> is the kernel's.\<close>

lemma asked_alive:
  "triple (untouched os w) (on_kern (is_alive os p)) (\<lambda>alive. alive \<or> seen_dead os p)"
proof -
  have "fst (run_state (on_kern (is_alive os p)) v) \<or> seen_dead os p" for v
    by (auto simp: on_kern_def seen_dead_def split: prod.split) (metis fst_conv)
  with keeps_untouched(1) [of os w "is_alive os p"] show ?thesis by (simp add: triple_def keeps_def)
qed

lemma refused_step:
  assumes "\<And>oom r. decide_ctx de (relock_context rx oom) \<noteq> Allow r"
  shows "ends (untouched os w) (relock_one os fnm topo now rx de rt p n) (\<lambda>k v. k = n \<and> untouched os w v)"
proof -
  have refused: "(case decide_ctx de (relock_context rx oom) of Allow _ \<Rightarrow> m | _ \<Rightarrow> ret n) = ret n" for oom m
    using assms [of oom] by (auto split: Decision.split)
  have result: "ends (untouched os w) (ret n) (\<lambda>k v. k = n \<and> untouched os w v)"
    by (rule ends_return) simp
  have "ends (untouched os w) (case ex of
        None \<Rightarrow> ret n
      | Some s \<Rightarrow> do {
          alive \<leftarrow> on_kern (is_alive os p);
          if \<not> alive then do { _ \<leftarrow> tracker_remove os p; ret n }
          else do {
            oom \<leftarrow> on_kern (read_oom_adj os p);
            _ \<leftarrow> bump_relock (decide_ctx de (relock_context rx oom));
            ret n
          }
        }) (\<lambda>k v. k = n \<and> untouched os w v)" for ex :: "ProcessState option"
  proof (rule ends_option, rule result)
    fix s
    have dead: "ends (untouched os w) (do { _ \<leftarrow> tracker_remove os p; ret n }) (\<lambda>k v. k = n \<and> untouched os w v)"
      if "seen_dead os p"
      using that by (intro ends_seq [OF ends_keeps] keeps_untouched result)
    have asked: "ends (untouched os w) (do { oom \<leftarrow> on_kern (read_oom_adj os p);
        _ \<leftarrow> bump_relock (decide_ctx de (relock_context rx oom)); ret n }) (\<lambda>k v. k = n \<and> untouched os w v)"
      by (intro ends_seq [OF ends_keeps] keeps_untouched result)
    have "ends (untouched os w) (if \<not> alive then do { _ \<leftarrow> tracker_remove os p; ret n }
        else do { oom \<leftarrow> on_kern (read_oom_adj os p);
          _ \<leftarrow> bump_relock (decide_ctx de (relock_context rx oom)); ret n }) (\<lambda>k v. k = n \<and> untouched os w v)"
      if "alive \<or> seen_dead os p" for alive
      using that dead asked by (intro ends_if) simp_all
    then show "ends (untouched os w) (do {
          alive \<leftarrow> on_kern (is_alive os p);
          if \<not> alive then do { _ \<leftarrow> tracker_remove os p; ret n }
          else do {
            oom \<leftarrow> on_kern (read_oom_adj os p);
            _ \<leftarrow> bump_relock (decide_ctx de (relock_context rx oom));
            ret n
          }
        }) (\<lambda>k v. k = n \<and> untouched os w v)"
      by (rule ends_bind [OF asked_alive])
  qed
  then show ?thesis
    unfolding relock_one_def Let_def refused
    by (intro ends_gets) (auto simp: ends_def)
qed

lemma refused_fold:
  assumes "\<And>oom r. decide_ctx de (relock_context rx oom) \<noteq> Allow r"
  shows "ends (untouched os w) (foldM (relock_one os fnm topo now rx de rt) ps n) (\<lambda>k v. k = n \<and> untouched os w v)"
proof (induction ps)
  case Nil
  then show ?case by (simp add: ends_def)
next
  case (Cons p ps)
  show ?case unfolding foldM.simps
    by (rule ends_seq [OF refused_step [OF assms]]) (use Cons.IH in \<open>auto simp: ends_def\<close>)
qed

text \<open>
  C13. A relock that the gate refuses for every process applies nothing: it reports zero threads,
  writes no audit record and leaves the rules and every tracked process as they are; only a
  process the kernel reports dead can be forgotten.
\<close>

theorem refused_relock_is_idle:
  assumes "\<And>oom r. decide_ctx de (relock_context rx oom) \<noteq> Allow r"
    and "run_state (relock_all os fnm topo now rx de) w = (n, v)"
  shows "n = 0 \<and> untouched os w v"
proof -
  have w: "untouched os w w" by (simp add: untouched_def)
  have "ends (untouched os w) (relock_all os fnm topo now rx de) (\<lambda>k v. k = 0 \<and> untouched os w v)"
    unfolding relock_all_def
    by (rule ends_seq [OF ends_keeps [OF keeps_untouched(1)]], rule ends_gets,
        rule ends_pre [OF refused_fold [OF assms(1)]]) simp_all
  from endsD [OF this w assms(2)] show ?thesis .
qed

definition hot :: RelockContext where
  "hot = \<lparr>rx_pressure = Normal, rx_thermal_pressure = Fin 1, rx_freq_throttle = Fin 1, rx_audit_failure_rate = Fin 0\<rparr>"

lemma hot_refused: "decide_ctx engine_default (relock_context hot oom) \<noteq> Allow r"
  by (simp add: decide_ctx_def relock_context_def hot_def engine_default_def Let_def effective_thermal_def f_max_def f_sub_def)

text \<open>A hot device: process 7, which is alive, stays as it is.\<close>

definition seven_world :: "nat world" where
  "seven_world = demo_world\<lparr>tracker := \<lparr>procs = [(7, process_new 7 1 ''a'' 3)], cpuset_refs = Map.empty\<rparr>\<rparr>"

theorem refused_relock_is_idle_witness:
  "\<exists>v. run_state (relock_all demo_os (=) topo_default 5 hot engine_default) seven_world = (0, v) \<and>
     tracker_get 7 v = Some (process_new 7 1 ''a'' 3)"
proof -
  obtain n v where r: "run_state (relock_all demo_os (=) topo_default 5 hot engine_default) seven_world = (n, v)"
    by (metis prod.exhaust)
  have "\<not> seen_dead demo_os p" for p by (simp add: seen_dead_def is_alive_def demo_os_def)
  moreover have "tracker_get 7 seven_world = Some (process_new 7 1 ''a'' 3)" by (simp add: seven_world_def tracker_get_def)
  ultimately show ?thesis
    using refused_relock_is_idle [OF hot_refused r] r by (auto simp: untouched_def)
qed

section \<open>Sweeps\<close>

lemma on_kern_get: "tracker_get p (snd (run_state (on_kern k) w)) = tracker_get p w"
  "fst (run_state (on_kern k) w) = fst (run_state k (kern w))"
  by (simp_all add: on_kern_def tracker_get_def split: prod.splits)

lemma cleanup_step:
  assumes "\<And>p k. fst (run_state (is_alive os p) k) = alive p"
  shows "fst (run_state (cleanup_one os p n) w) = (if \<not> alive p \<and> tracker_contains p w then n + 1 else n) \<and>
    tracker_get q (snd (run_state (cleanup_one os p n) w)) =
      (if q = p \<and> \<not> alive p then None else tracker_get q w)"
  by (auto simp: cleanup_one_def case_prod_beta remove_get remove_result tracker_contains_def on_kern_get assms)

lemma cleanup_fold:
  assumes alive: "\<And>p k. fst (run_state (is_alive os p) k) = alive p" and "distinct ps"
  shows "fst (run_state (foldM (cleanup_one os) ps n) w) =
      n + length (filter (\<lambda>p. \<not> alive p \<and> tracker_contains p w) ps) \<and>
    tracker_get q (snd (run_state (foldM (cleanup_one os) ps n) w)) =
      (if q \<in> set ps \<and> \<not> alive q then None else tracker_get q w)"
  using assms(2)
proof (induction ps arbitrary: n w)
  case (Cons p ps)
  let ?w = "snd (run_state (cleanup_one os p n) w)"
  have same: "filter (\<lambda>q. \<not> alive q \<and> tracker_contains q ?w) ps = filter (\<lambda>q. \<not> alive q \<and> tracker_contains q w) ps"
    using Cons.prems cleanup_step [OF alive, of p n w] by (intro filter_cong) (auto simp: tracker_contains_def)
  from Cons.IH [of "fst (run_state (cleanup_one os p n) w)" ?w] Cons.prems cleanup_step [OF alive, of p n w q] same
  show ?case by (auto simp: case_prod_beta cleanup_step [OF alive])
qed simp

lemma tracked_pid: "p \<in> set (tracker_pids w) \<longleftrightarrow> tracker_contains p w"
  by (auto simp: tracker_pids_def tracker_contains_def tracker_get_def map_of_eq_None_iff)

text \<open>
  While no process dies or comes up during it, a cleanup is a filter: it removes exactly the
  tracked processes that are dead, and returns how many these were.
\<close>

theorem cleanup_is_a_filter:
  assumes "\<And>p k. fst (run_state (is_alive os p) k) = alive p" and "distinct (tracker_pids w)"
    and "run_state (cleanup_dead os) w = (n, v)"
  shows "n = card {p. tracker_contains p w \<and> \<not> alive p} \<and>
    tracker_get q v = (if alive q then tracker_get q w else None)"
proof -
  have "{p. tracker_contains p w \<and> \<not> alive p} = set (filter (\<lambda>p. \<not> alive p \<and> tracker_contains p w) (tracker_pids w))"
    by (auto simp: tracked_pid)
  then have "card {p. tracker_contains p w \<and> \<not> alive p} = length (filter (\<lambda>p. \<not> alive p \<and> tracker_contains p w) (tracker_pids w))"
    by (simp only: distinct_card [OF distinct_filter [OF assms(2)]])
  with cleanup_fold [OF assms(1,2), of 0 w q] assms(3) tracked_pid [of q w] show ?thesis
    by (auto simp: cleanup_dead_def tracker_contains_def)
qed

theorem cleanup_is_a_filter_witness:
  "\<exists>v. run_state (cleanup_dead (demo_os\<lparr>os_kill0 := \<lambda>_ k. (Some ESRCH, k)\<rparr>))
     (demo_world\<lparr>tracker := \<lparr>procs = [(7, process_new 7 1 ''a'' 3)], cpuset_refs = Map.empty\<rparr>\<rparr>) = (1, v) \<and> tracker_get 7 v = None"
proof -
  let ?os = "demo_os\<lparr>os_kill0 := \<lambda>_ k. (Some ESRCH, k)\<rparr>"
  let ?w = "demo_world\<lparr>tracker := \<lparr>procs = [(7, process_new 7 1 ''a'' 3)], cpuset_refs = Map.empty\<rparr>\<rparr>"
  have dead: "fst (run_state (is_alive ?os p) k) = False" for p k
    by (simp add: is_alive_def)
  have one: "{p. tracker_contains p ?w \<and> \<not> False} = {7}"
    by (auto simp: tracker_contains_def tracker_get_def)
  obtain n v where r: "run_state (cleanup_dead ?os) ?w = (n, v)" by (metis prod.exhaust)
  from cleanup_is_a_filter [OF dead _ r, of 7] one r show ?thesis
    by (simp add: tracker_pids_def)
qed

text \<open>
  After the configuration changes, the processes of packages that are in it stay as they are
  and all others are forgotten.
\<close>

theorem retain_is_a_filter:
  assumes "distinct (tracker_pids w)"
  shows "tracker_get q (snd (run_state (retain_interested os pkgs) w)) =
    (case tracker_get q w of None \<Rightarrow> None | Some s \<Rightarrow> if ps_pkg s \<in> pkgs then Some s else None)"
  using assms by (rule retain_get)

theorem retain_is_a_filter_witness:
  "tracker_get 7 (snd (run_state (retain_interested demo_os {''b''})
     (demo_world\<lparr>tracker := \<lparr>procs = [(7, process_new 7 1 ''a'' 3)], cpuset_refs = Map.empty\<rparr>\<rparr>))) = None"
  by (subst retain_is_a_filter) (simp_all add: tracker_pids_def tracker_get_def process_new_def)

end
