(* ===== verification/Utf8.thy ===== *)
theory Utf8
  imports Prelude
begin

text \<open>
  Text from outside: the characters of a byte string that is read as UTF-8, whether it is valid (what
  \<open>read_line\<close> asks), and trimming and splitting at the white space of Unicode, as
  \<open>str::trim\<close> and \<open>str::split_whitespace\<close> do it.
\<close>

section \<open>Characters\<close>

text \<open>How many bytes the first byte announces.\<close>

definition lead_len :: "char \<Rightarrow> nat" where
  "lead_len c =
     (if char_code c < 0xC2 then 1 else if char_code c < 0xE0 then 2 else if char_code c < 0xF0 then 3 else 4)"

function utf8_chars :: "string \<Rightarrow> string list" where
  "utf8_chars [] = []"
| "utf8_chars (c # cs) = (c # take (lead_len c - 1) cs) # utf8_chars (drop (lead_len c - 1) cs)"
  by pat_completeness auto
termination by (relation "measure length") auto

definition continues :: "char \<Rightarrow> bool" where
  "continues c \<longleftrightarrow> 0x80 \<le> char_code c \<and> char_code c \<le> 0xBF"

text \<open>The well-formed sequences of bytes (Table 3-7 of the Unicode standard).\<close>

fun char_ok :: "string \<Rightarrow> bool" where
  "char_ok [a] = (char_code a < 0x80)"
| "char_ok [a, b] = (0xC2 \<le> char_code a \<and> char_code a < 0xE0 \<and> continues b)"
| "char_ok [a, b, c] = (0xE0 \<le> char_code a \<and> char_code a < 0xF0 \<and> continues b \<and> continues c \<and>
     (char_code a = 0xE0 \<longrightarrow> 0xA0 \<le> char_code b) \<and> (char_code a = 0xED \<longrightarrow> char_code b < 0xA0))"
| "char_ok [a, b, c, d] = (0xF0 \<le> char_code a \<and> char_code a < 0xF5 \<and> continues b \<and> continues c \<and> continues d \<and>
     (char_code a = 0xF0 \<longrightarrow> 0x90 \<le> char_code b) \<and> (char_code a = 0xF4 \<longrightarrow> char_code b < 0x90))"
| "char_ok _ = False"

definition valid_utf8 :: "string \<Rightarrow> bool" where
  "valid_utf8 s = list_all char_ok (utf8_chars s)"

section \<open>White space\<close>

text \<open>
  \<open>char::is_whitespace\<close>: beside the six of ASCII, U+0085, U+00A0, U+1680, U+2000 to U+200A, U+2028,
  U+2029, U+202F, U+205F and U+3000.
\<close>

definition blank_codes :: "nat list \<Rightarrow> bool" where
  "blank_codes cs \<longleftrightarrow>
     cs \<in> {[0xC2, 0x85], [0xC2, 0xA0], [0xE1, 0x9A, 0x80], [0xE2, 0x80, 0xA8], [0xE2, 0x80, 0xA9],
            [0xE2, 0x80, 0xAF], [0xE2, 0x81, 0x9F], [0xE3, 0x80, 0x80]} \<or>
     (length cs = 3 \<and> take 2 cs = [0xE2, 0x80] \<and> 0x80 \<le> last cs \<and> last cs \<le> 0x8A)"

definition blank :: "string \<Rightarrow> bool" where
  "blank ch \<longleftrightarrow> (case ch of [c] \<Rightarrow> is_ws c | _ \<Rightarrow> blank_codes (map char_code ch))"

definition utf8_trim :: "string \<Rightarrow> string" where
  "utf8_trim s = concat (rev (dropWhile blank (rev (dropWhile blank (utf8_chars s)))))"

text \<open>Every blank becomes a space.\<close>

definition plain_blanks :: "string \<Rightarrow> string" where
  "plain_blanks s = concat (map (\<lambda>ch. if blank ch then '' '' else ch) (utf8_chars s))"

definition utf8_words :: "string \<Rightarrow> string list" where
  "utf8_words s = split_whitespace (plain_blanks s)"

section \<open>Lemmas\<close>

lemma concat_chars: "concat (utf8_chars s) = s"
  by (induction s rule: utf8_chars.induct) simp_all

lemma char_ok_lead: "char_ok (c # cs) \<Longrightarrow> length cs = lead_len c - 1"
  by (cases "c # cs" rule: char_ok.cases) (auto simp: lead_len_def continues_def)

lemma chars_append: "valid_utf8 s \<Longrightarrow> utf8_chars (s @ t) = utf8_chars s @ utf8_chars t"
proof (induction s rule: utf8_chars.induct)
  case (2 c cs)
  from 2(2) have ok: "char_ok (c # take (lead_len c - 1) cs)" "valid_utf8 (drop (lead_len c - 1) cs)"
    by (simp_all add: valid_utf8_def)
  from char_ok_lead [OF ok(1)] have "lead_len c - 1 \<le> length cs" by simp
  with 2(1) [OF ok(2)] show ?case by simp
qed simp

lemma valid_append: "valid_utf8 s \<Longrightarrow> valid_utf8 t \<Longrightarrow> valid_utf8 (s @ t)"
  by (simp add: valid_utf8_def chars_append)

lemma chars_ascii: "\<forall>c \<in> set s. char_code c < 0x80 \<Longrightarrow> utf8_chars s = map (\<lambda>c. [c]) s"
  by (induction s rule: utf8_chars.induct) (simp_all add: lead_len_def)

lemma valid_ascii: "\<forall>c \<in> set s. char_code c < 0x80 \<Longrightarrow> valid_utf8 s"
  by (simp add: valid_utf8_def chars_ascii list_all_iff)

lemma chars_nonempty: "s \<noteq> [] \<Longrightarrow> utf8_chars s \<noteq> []"
  by (cases s) simp_all

lemma plain_append: "valid_utf8 s \<Longrightarrow> plain_blanks (s @ t) = plain_blanks s @ plain_blanks t"
  by (simp add: plain_blanks_def chars_append)

lemma plain_same: "\<forall>ch \<in> set (utf8_chars s). \<not> blank ch \<Longrightarrow> plain_blanks s = s"
proof -
  assume "\<forall>ch \<in> set (utf8_chars s). \<not> blank ch"
  then have "map (\<lambda>ch. if blank ch then '' '' else ch) (utf8_chars s) = utf8_chars s" by (intro map_idI) simp
  then show ?thesis by (simp only: plain_blanks_def concat_chars)
qed

text \<open>A text of characters that are not blank has no byte of ASCII white space.\<close>

lemma no_blank_no_ws:
  assumes "valid_utf8 s" and "\<forall>ch \<in> set (utf8_chars s). \<not> blank ch" and "c \<in> set s"
  shows "\<not> is_ws c"
proof -
  have "c \<in> set (concat (utf8_chars s))" using assms(3) by (simp only: concat_chars)
  then obtain ch where ch: "ch \<in> set (utf8_chars s)" "c \<in> set ch" by auto
  with assms have "char_ok ch" "\<not> blank ch" by (auto simp: valid_utf8_def list_all_iff)
  with ch(2) show ?thesis
    by (cases ch rule: char_ok.cases) (auto simp: blank_def is_ws_def continues_def)
qed

lemma trim_newline:
  assumes "valid_utf8 s" and "s \<noteq> []" and "\<not> blank (hd (utf8_chars s))" and "\<not> blank (last (utf8_chars s))"
    and "is_ws c" and "char_code c < 0x80"
  shows "utf8_trim (s @ [c]) = s"
proof -
  have cs: "utf8_chars (s @ [c]) = utf8_chars s @ [[c]]" using assms(1) by (simp add: chars_append)
  have ne: "utf8_chars s \<noteq> []" using assms(2) by (rule chars_nonempty)
  then have "dropWhile blank (utf8_chars s @ [[c]]) = utf8_chars s @ [[c]]"
    using assms(3) by (cases "utf8_chars s") simp_all
  moreover have "dropWhile blank (rev (utf8_chars s)) = rev (utf8_chars s)"
    using ne assms(4) by (cases "utf8_chars s" rule: rev_cases) simp_all
  moreover have "blank [c]" using assms(5) by (simp add: blank_def)
  ultimately show ?thesis by (simp add: utf8_trim_def cs concat_chars)
qed

end
