(* ===== verification/Ipc.thy ===== *)
theory Ipc
  imports Utf8
begin

text \<open>
  The control socket (crates/daemon/src/ipc.rs): the requests and the parsing of the line a
  client sends. The socket, the thread and the channel to the main loop are the standard
  library's; what the thread reads from a client is the argument of \<open>client_request\<close>.
\<close>

datatype IpcRequest =
  Status | Dump int | Reload | Apply int | Snapshot "int option" | ApplyScene string | TuneSys string string

definition next_word :: "string list \<Rightarrow> string" where
  "next_word ps = (case ps of [] \<Rightarrow> [] | w # _ \<Rightarrow> w)"

definition next_pid :: "string list \<Rightarrow> int option" where
  "next_pid ps = (case ps of [] \<Rightarrow> None | w # _ \<Rightarrow> parse_i32 w)"

definition parse_request :: "string \<Rightarrow> IpcRequest" where
  "parse_request line =
     (case utf8_words line of
        [] \<Rightarrow> Status
      | c # ps \<Rightarrow>
          (if c = ''status'' then Status
           else if c = ''dump'' then (case next_pid ps of None \<Rightarrow> Status | Some p \<Rightarrow> Dump p)
           else if c = ''reload'' then Reload
           else if c = ''apply'' then (case next_pid ps of None \<Rightarrow> Status | Some p \<Rightarrow> Apply p)
           else if c = ''snapshot'' then Snapshot (next_pid ps)
           else if c = ''apply-scene'' then ApplyScene (next_word ps)
           else if c = ''tune'' then TuneSys (next_word ps) (next_word (drop 1 ps))
           else Status))"

definition LINE_MAX :: nat where "LINE_MAX = 4096"

text \<open>
  One connection: a line of at most 4096 bytes; a connection without a byte is dropped, as is a
  line that is not UTF-8 (\<open>read_line\<close> fails).
\<close>

definition first_line :: "string \<Rightarrow> string" where
  "first_line s = (let l = takeWhile (\<lambda>c. \<not> is_newline c) s in take (length l + 1) s)"

definition client_request :: "string \<Rightarrow> IpcRequest option" where
  "client_request sent =
     (let line = first_line (take LINE_MAX sent)
      in if line = [] \<or> \<not> valid_utf8 line then None else Some (parse_request (utf8_trim line)))"

section \<open>Lemmas\<close>

definition ipc_commands :: "string set" where
  "ipc_commands = {''status'', ''dump'', ''reload'', ''apply'', ''snapshot'', ''apply-scene'', ''tune''}"

text \<open>A request that changes anything starts with one of four words.\<close>

lemma parse_request_effect:
  "parse_request line \<noteq> Status \<Longrightarrow>
     \<exists>c ps. utf8_words line = c # ps \<and> c \<in> ipc_commands - {''status''}"
  by (auto simp: parse_request_def ipc_commands_def split: list.splits if_splits option.splits)

end
