(* ===== verification/Tune.thy ===== *)
theory Tune
  imports Topology Kdl_Config
begin

text \<open>
  System tuning (crates/core/src/tune.rs): writing a CPU governor or an IO scheduler to every
  device that offers it; and the capability report (crates/core/src/capability.rs) with the
  foreground cache (crates/core/src/foreground.rs).
\<close>

section \<open>Governor and IO scheduler\<close>

datatype tune_error =
  NoCpuDir | GovernorUnavailable string string | GovernorWriteFailed string | NoGovernor |
  NoBlockDir | SchedulerWriteFailed string | NoScheduler

definition is_cpu_dir :: "string \<Rightarrow> bool" where
  "is_cpu_dir name = (starts_with ''cpu'' name \<and> list_all is_digit (drop 3 name))"

definition word_in :: "string \<Rightarrow> string \<Rightarrow> bool" where
  "word_in w content = (w \<in> set (split_whitespace content))"

fun governor_loop ::
  "'k os \<Rightarrow> string \<Rightarrow> string list \<Rightarrow> nat \<Rightarrow> ('k, tune_error + nat) state" where
  "governor_loop os gov [] applied = ret (Inr applied)"
| "governor_loop os gov (name # es) applied =
     (if \<not> is_cpu_dir name then governor_loop os gov es applied
      else do {
        let base = SYS_CPU @ ''/'' @ name @ ''/cpufreq'';
        there \<leftarrow> sys (os_exists os (base @ ''/scaling_governor''));
        if \<not> there then governor_loop os gov es applied
        else do {
          r \<leftarrow> read_to_string os (base @ ''/scaling_available_governors'');
          let available = (case r of None \<Rightarrow> [] | Some s \<Rightarrow> s);
          if \<not> word_in gov available then ret (Inl (GovernorUnavailable gov available))
          else do {
            ok \<leftarrow> sys (os_write_file os (base @ ''/scaling_governor'') gov);
            if ok then governor_loop os gov es (applied + 1)
            else ret (Inl (GovernorWriteFailed (base @ ''/scaling_governor'')))
          }
        }
      })"

definition apply_governor :: "'k os \<Rightarrow> string \<Rightarrow> ('k, tune_error + nat) state" where
  "apply_governor os gov = do {
     entries \<leftarrow> sys (os_read_dir os SYS_CPU);
     (case entries of
        None \<Rightarrow> ret (Inl NoCpuDir)
      | Some es \<Rightarrow> do {
          r \<leftarrow> governor_loop os gov es 0;
          ret (case r of Inl e \<Rightarrow> Inl e | Inr n \<Rightarrow> if n = 0 then Inl NoGovernor else Inr n)
        })
   }"

definition SYS_BLOCK :: string where "SYS_BLOCK = ''/sys/block''"

fun scheduler_loop ::
  "'k os \<Rightarrow> string \<Rightarrow> string list \<Rightarrow> nat \<Rightarrow> ('k, tune_error + nat) state" where
  "scheduler_loop os sc [] applied = ret (Inr applied)"
| "scheduler_loop os sc (name # es) applied = do {
     let path = SYS_BLOCK @ ''/'' @ name @ ''/queue/scheduler'';
     there \<leftarrow> sys (os_exists os path);
     if \<not> there then scheduler_loop os sc es applied
     else do {
       r \<leftarrow> read_to_string os path;
       if \<not> word_in sc (case r of None \<Rightarrow> [] | Some s \<Rightarrow> s) then scheduler_loop os sc es applied
       else do {
         ok \<leftarrow> sys (os_write_file os path sc);
         if ok then scheduler_loop os sc es (applied + 1) else ret (Inl (SchedulerWriteFailed path))
       }
     }
   }"

definition apply_io_scheduler :: "'k os \<Rightarrow> string \<Rightarrow> ('k, tune_error + nat) state" where
  "apply_io_scheduler os sc = do {
     entries \<leftarrow> sys (os_read_dir os SYS_BLOCK);
     (case entries of
        None \<Rightarrow> ret (Inl NoBlockDir)
      | Some es \<Rightarrow> do {
          r \<leftarrow> scheduler_loop os sc es 0;
          ret (case r of Inl e \<Rightarrow> Inl e | Inr n \<Rightarrow> if n = 0 then Inl NoScheduler else Inr n)
        })
   }"

text \<open>"mq-deadline [none] bfq": the word in brackets.\<close>

definition is_bracketed :: "string \<Rightarrow> bool" where
  "is_bracketed w = (starts_with ''['' w \<and> ends_with '']'' w)"

definition active_scheduler :: "string \<Rightarrow> string option" where
  "active_scheduler s =
     (let cur = (case List.find is_bracketed (split_whitespace s) of
                   None \<Rightarrow> [] | Some w \<Rightarrow> take (length w - 1 - 1) (drop 1 w))
      in if cur = [] then None else Some cur)"

definition detect_current :: "'k os \<Rightarrow> ('k, string option \<times> string option) state" where
  "detect_current os = do {
     g \<leftarrow> read_to_string os ''/sys/devices/system/cpu/cpu0/cpufreq/scaling_governor'';
     m \<leftarrow> read_to_string os ''/sys/block/mmcblk0/queue/scheduler'';
     io \<leftarrow> (case m of Some s \<Rightarrow> ret (Some s)
           | None \<Rightarrow> read_to_string os ''/sys/block/sda/queue/scheduler'');
     ret (map_option trim g, case io of None \<Rightarrow> None | Some s \<Rightarrow> active_scheduler s)
   }"

section \<open>Capabilities (crates/core/src/capability.rs)\<close>

record CapabilitySet =
  cap_uclamp :: bool
  cap_schedtune :: bool
  cap_cpuset :: bool

definition check_uclamp :: "'k os \<Rightarrow> ('k, bool) state" where
  "check_uclamp os = do {
     r \<leftarrow> read_to_string os ''/proc/sys/kernel/sched_util_clamp_max'';
     (case (case r of None \<Rightarrow> None | Some v \<Rightarrow> parse_u32 (trim v)) of
        Some val \<Rightarrow> ret (0 < val)
      | None \<Rightarrow> sys (os_exists os ''/sys/fs/cgroup/cpu.uclamp.max''))
   }"

definition check_cpuset :: "'k os \<Rightarrow> ('k, bool) state" where
  "check_cpuset os = do {
     a \<leftarrow> sys (os_exists os ''/dev/cpuset'');
     if a then ret True else sys (os_exists os ''/sys/fs/cgroup/cpuset'')
   }"

definition detect_capabilities :: "'k os \<Rightarrow> ('k, CapabilitySet) state" where
  "detect_capabilities os = do {
     u \<leftarrow> check_uclamp os;
     s \<leftarrow> sys (os_exists os ''/dev/stune'');
     c \<leftarrow> check_cpuset os;
     ret \<lparr>cap_uclamp = u, cap_schedtune = s, cap_cpuset = c\<rparr>
   }"

definition preferred_order :: "CapabilitySet \<Rightarrow> string list" where
  "preferred_order c =
     (if cap_uclamp c then [''uclamp'', ''cpuset'', ''affinity'']
      else if cap_schedtune c then [''schedtune'', ''cpuset'', ''affinity'']
      else [''cpuset'', ''affinity''])"

definition capability_summary :: "CapabilitySet \<Rightarrow> string" where
  "capability_summary c =
     (let v = (if cap_uclamp c then [''uclamp''] else []) @
              (if cap_schedtune c then [''schedtune''] else []) @
              (if cap_cpuset c then [''cpuset''] else [])
      in ''Capability: ['' @ join '', '' v @ ''], order: ['' @ join '' > '' (preferred_order c) @ '']'')"

section \<open>Foreground users (crates/core/src/foreground.rs)\<close>

fun uid_of_lines :: "string list \<Rightarrow> nat option" where
  "uid_of_lines [] = None"
| "uid_of_lines (l # ls) =
     (case strip_prefix ''Uid:'' l of
        None \<Rightarrow> uid_of_lines ls
      | Some v \<Rightarrow> (case split_whitespace v of [] \<Rightarrow> None | w # _ \<Rightarrow> parse_u32 w))"

definition pid_uid :: "'k os \<Rightarrow> pid \<Rightarrow> ('k, nat option) state" where
  "pid_uid os p = do {
     r \<leftarrow> read_to_string os (proc_path p ''status'');
     ret (case r of None \<Rightarrow> None | Some content \<Rightarrow> uid_of_lines (str_lines content))
   }"

definition foreground_line :: "'k os \<Rightarrow> string \<Rightarrow> nat set \<Rightarrow> ('k, nat set) state" where
  "foreground_line os l uids =
     (case parse_i32 (trim l) of
        None \<Rightarrow> ret uids
      | Some p \<Rightarrow> do {
          u \<leftarrow> pid_uid os p;
          ret (case u of None \<Rightarrow> uids | Some uid \<Rightarrow> insert uid uids)
        })"

definition foreground_file :: "'k os \<Rightarrow> string \<Rightarrow> nat set \<Rightarrow> ('k, nat set) state" where
  "foreground_file os path uids = do {
     r \<leftarrow> read_to_string os path;
     (case r of None \<Rightarrow> ret uids
      | Some content \<Rightarrow> foldM (foreground_line os) (str_lines content) uids)
   }"

text \<open>The new contents of the cache; the source replaces the global set by it.\<close>

definition refresh_foreground_uids :: "'k os \<Rightarrow> ('k, nat set) state" where
  "refresh_foreground_uids os =
     foldM (foreground_file os) [''/dev/cpuset/top-app/tasks'', ''/dev/cpuset/foreground/tasks''] {}"

definition is_foreground_uid :: "nat \<Rightarrow> nat set \<Rightarrow> bool" where
  "is_foreground_uid uid cache = (uid \<in> cache)"

definition foreground_uid_count :: "nat set \<Rightarrow> nat" where
  "foreground_uid_count cache = card cache"

section \<open>Lemmas\<close>

lemma finite_foreground: "gives finite (refresh_foreground_uids os)"
proof -
  have line: "finite uids \<Longrightarrow> gives finite (foreground_line os l uids)" for l uids
    unfolding foreground_line_def by (intro gives_intros) (auto split: option.splits)
  have per_file: "finite uids \<Longrightarrow> gives finite (foreground_file os p uids)" for p uids
    unfolding foreground_file_def
    by (rule gives_bind_any, rule gives_option)
      (auto intro: gives_return gives_foldM [where I = finite] line)
  show ?thesis
    unfolding refresh_foreground_uids_def by (rule gives_foldM [where I = finite]) (simp_all add: per_file)
qed

lemma apply_governor_positive:
  "gives (\<lambda>r. case r of Inr n \<Rightarrow> 0 < n | Inl _ \<Rightarrow> True) (apply_governor os gov)"
  unfolding apply_governor_def
  by (rule gives_bind_any, rule gives_option, rule gives_return, simp, rule gives_bind_any,
      rule gives_return) (auto split: sum.splits)

end
