(* ===== verification/Daemon.thy ===== *)
theory Daemon
  imports Proc_Source Relock Ipc Scene Store Observe Tune
begin

text \<open>
  The daemon (crates/daemon/src/main.rs), first half: the event source behind its trait, the
  reload of the configuration and the handling of control requests. The replies are the values
  the code formats, theory Replies their text. The loop holds the snapshot it fetched at the top of the iteration, whose
  rules are \<open>cfg_rules\<close> of the world; a reload works on the store's newer snapshot.
\<close>

section \<open>The environment\<close>

text \<open>
  The foreign code: system calls, BPF maps and loader, the C library's pattern matcher, the KDL
  grammar, the iteration order of hash sets, the built-in template, and the startup calls whose
  results only decide what is printed (creating parent directories, binding the socket), with
  the state of a new inotify watch.
\<close>

record 'k env =
  en_os :: "'k os"
  en_bpf :: "'k ebpf_os"
  en_loader :: "'k ebpf_loader"
  en_fnm :: fnmatch
  en_kdl :: kdl_parser
  en_order :: "pid set \<Rightarrow> pid list"
  en_template :: string
  en_mkdirs :: "string \<Rightarrow> 'k \<Rightarrow> unit \<times> 'k"
  en_bind :: "string \<Rightarrow> 'k \<Rightarrow> bool \<times> 'k"
  en_watch :: "string \<Rightarrow> 'k \<Rightarrow> (bool \<times> int) \<times> 'k"

section \<open>The event source\<close>

datatype event_source = SrcEbpf EbpfSource | SrcProc ProcSource

fun source_poll ::
  "'k env \<Rightarrow> instant \<Rightarrow> event_source \<Rightarrow> ('k world, event_source \<times> ProcessEvent list) state" where
  "source_poll env deadline (SrcEbpf s) = do {
     r \<leftarrow> ebpf_poll (en_os env) (en_bpf env) (en_fnm env) deadline s;
     ret (SrcEbpf (fst r), snd r)
   }"
| "source_poll env deadline (SrcProc s) = do {
     r \<leftarrow> proc_poll (en_os env) (en_fnm env) deadline s;
     ret (SrcProc (fst r), snd r)
   }"

fun source_config_changed :: "'k env \<Rightarrow> RuleSet \<Rightarrow> event_source \<Rightarrow> ('k world, event_source) state" where
  "source_config_changed env rs (SrcEbpf s) = do {
     s' \<leftarrow> ebpf_on_config_changed (en_bpf env) rs s;
     ret (SrcEbpf s')
   }"
| "source_config_changed env rs (SrcProc s) = ret (SrcProc (proc_on_config_changed rs s))"

section \<open>Helpers\<close>

definition count_pkgs :: "ProcessEvent list \<Rightarrow> nat" where
  "count_pkgs evs = card (set (List.map_filter ev_pkg evs))"

definition mono_secs :: "'k os \<Rightarrow> ('k world, int) state" where
  "mono_secs os = on_kern (sys (os_mono_secs os))"

definition pkg_set :: "ConfigSnapshot \<Rightarrow> string set" where
  "pkg_set cfg = set (pkg_list (rules cfg))"

definition build_relock_ctx :: "'k os \<Rightarrow> SystemContext option \<Rightarrow> ('k world, RelockContext) state" where
  "build_relock_ctx os last_sys = do {
     lg \<leftarrow> gets audit_ring;
     s \<leftarrow> on_kern (summary_windowed os 60 lg);
     ret (case last_sys of
        Some c \<Rightarrow> \<lparr>rx_pressure = memory_pressure c, rx_thermal_pressure = sc_thermal_pressure c,
           rx_freq_throttle = sc_freq_throttle c, rx_audit_failure_rate = failure_rate s\<rparr>
      | None \<Rightarrow> \<lparr>rx_pressure = Normal, rx_thermal_pressure = Fin 0, rx_freq_throttle = Fin 1,
           rx_audit_failure_rate = failure_rate s\<rparr>)
   }"

text \<open>Work on another snapshot than the loop's; its cache is not kept.\<close>

definition with_rules :: "RuleSet \<Rightarrow> ('k world, 'a) state \<Rightarrow> ('k world, 'a) state" where
  "with_rules rs m = do {
     old \<leftarrow> gets cfg_rules;
     _ \<leftarrow> modify (\<lambda>w. w\<lparr>cfg_rules := rs\<rparr>);
     x \<leftarrow> m;
     _ \<leftarrow> modify (\<lambda>w. w\<lparr>cfg_rules := old\<rparr>);
     ret x
   }"

definition do_reload ::
  "'k env \<Rightarrow> CpuTopology \<Rightarrow> DecisionEngine \<Rightarrow> RelockContext \<Rightarrow> ConfigStore \<Rightarrow> event_source \<Rightarrow>
   ('k world, event_source \<times> nat) state" where
  "do_reload env topo de rx st src = do {
     let cfg = current st;
     src' \<leftarrow> source_config_changed env (rules cfg) src;
     _ \<leftarrow> retain_interested (en_os env) (pkg_set cfg);
     now \<leftarrow> mono_secs (en_os env);
     n \<leftarrow> with_rules (rules cfg) (relock_all (en_os env) (en_fnm env) topo now rx de);
     ret (src', n)
   }"

section \<open>Control requests\<close>

datatype IpcReply =
  StatusReply u64 nat "(pid \<times> string \<times> nat) list" AuditSummary RelockStats
| DumpReply pid string nat "string option" "string option" bool
| DumpUnknown pid
| ReloadedReply u64 nat
| ReloadFailed load_error
| AppliedReply pid nat
| SceneUnreadable
| SceneUnwritable
| SceneReply string u64 nat
| SceneReloadFailed load_error
| SceneRefused scene_error
| TunedReply string string nat
| TuneRefused tune_error
| TuneUsage
| SnapshotReply "(ThreadStats \<times> (nat option \<times> string) option) list"

definition ipc_status :: "'k os \<Rightarrow> ConfigSnapshot \<Rightarrow> ('k world, IpcReply) state" where
  "ipc_status os cfg = do {
     tracked \<leftarrow> gets tracked_summary;
     lg \<leftarrow> gets audit_ring;
     a \<leftarrow> on_kern (summary_windowed os 60 lg);
     r \<leftarrow> gets relock_stats;
     ret (StatusReply (version cfg) (length (rs_pkgs (rules cfg))) tracked a r)
   }"

definition ipc_dump :: "'k os \<Rightarrow> pid \<Rightarrow> ('k world, IpcReply) state" where
  "ipc_dump os p = do {
     ex \<leftarrow> gets (tracker_get p);
     (case ex of
        None \<Rightarrow> ret (DumpUnknown p)
      | Some s \<Rightarrow> do {
          m \<leftarrow> on_kern (read_allowed_mask os p);
          owner \<leftarrow> on_kern (read_cpuset_owner os p);
          alive \<leftarrow> on_kern (is_alive os p);
          ret (DumpReply p (ps_pkg s) (card (applied_tids s)) (map_option to_range_string m) owner alive)
        })
   }"

text \<open>The rows shown: of the threads of the given process, or of all.\<close>

definition snapshot_rows ::
  "int option \<Rightarrow> SnapshotWindow \<Rightarrow> 'k world \<Rightarrow> (ThreadStats \<times> (nat option \<times> string) option) list" where
  "snapshot_rows flt win w =
     (let owned = (\<lambda>t. case flt of None \<Rightarrow> True
            | Some p \<Rightarrow> (case tracker_get p w of None \<Rightarrow> False | Some s \<Rightarrow> t \<in> applied_tids s))
      in map (\<lambda>st. (st, recent_sample (ts_tid st) win)) (filter (\<lambda>st. owned (ts_tid st)) (stats_sorted win)))"

definition ipc_tune :: "'k os \<Rightarrow> string \<Rightarrow> string \<Rightarrow> ('k world, IpcReply) state" where
  "ipc_tune os knd value =
     (let reply = (\<lambda>r. case r of Inl e \<Rightarrow> TuneRefused e | Inr n \<Rightarrow> TunedReply knd value n) in
      if knd = ''governor'' \<and> value \<noteq> []
      then do { r \<leftarrow> on_kern (apply_governor os value); ret (reply r) }
      else if knd = ''iosched'' \<and> value \<noteq> []
      then do { r \<leftarrow> on_kern (apply_io_scheduler os value); ret (reply r) }
      else ret TuneUsage)"

type_synonym ipc_result = "IpcReply \<times> ConfigStore \<times> event_source"

text \<open>\<open>reload\<close>, and what both commands that reload do with its answer.\<close>

definition ipc_reload ::
  "'k env \<Rightarrow> CpuTopology \<Rightarrow> DecisionEngine \<Rightarrow> RelockContext \<Rightarrow> (u64 \<Rightarrow> nat \<Rightarrow> IpcReply) \<Rightarrow>
   (load_error \<Rightarrow> IpcReply) \<Rightarrow> ConfigStore \<Rightarrow> event_source \<Rightarrow> ('k world, ipc_result) state" where
  "ipc_reload env topo de rx good bad st src = do {
     r \<leftarrow> on_kern (reload (en_os env) (en_kdl env) st);
     (case fst r of
        Inl e \<Rightarrow> ret (bad e, snd r, src)
      | Inr v \<Rightarrow> do {
          x \<leftarrow> do_reload env topo de rx (snd r) src;
          ret (good v (snd x), snd r, fst x)
        })
   }"

definition ipc_scene ::
  "'k env \<Rightarrow> CpuTopology \<Rightarrow> DecisionEngine \<Rightarrow> RelockContext \<Rightarrow> ConfigSnapshot \<Rightarrow> string \<Rightarrow>
   ConfigStore \<Rightarrow> event_source \<Rightarrow> ('k world, ipc_result) state" where
  "ipc_scene env topo de rx cfg name st src = do {
     c \<leftarrow> on_kern (read_to_string (en_os env) (config_file cfg));
     (case c of
        None \<Rightarrow> ret (SceneUnreadable, st, src)
      | Some content \<Rightarrow>
          (case apply_scene_to_config content name of
             Inl e \<Rightarrow> ret (SceneRefused e, st, src)
           | Inr new_content \<Rightarrow> do {
               ok \<leftarrow> on_kern (sys (os_write_file (en_os env) (config_file cfg) new_content));
               if \<not> ok then ret (SceneUnwritable, st, src)
               else ipc_reload env topo de rx (SceneReply name) SceneReloadFailed st src
             }))
   }"

definition handle_ipc ::
  "'k env \<Rightarrow> CpuTopology \<Rightarrow> DecisionEngine \<Rightarrow> ConfigSnapshot \<Rightarrow> SnapshotWindow \<Rightarrow> RelockContext \<Rightarrow>
   IpcRequest \<Rightarrow> ConfigStore \<Rightarrow> event_source \<Rightarrow> ('k world, ipc_result) state" where
  "handle_ipc env topo de cfg win rx req st src =
     (let os = en_os env; keep = (\<lambda>m. do { reply \<leftarrow> m; ret (reply, st, src) }) in
      case req of
        Status \<Rightarrow> keep (ipc_status os cfg)
      | Dump p \<Rightarrow> keep (ipc_dump os p)
      | Reload \<Rightarrow> ipc_reload env topo de rx ReloadedReply ReloadFailed st src
      | Apply p \<Rightarrow> keep (do {
          now \<leftarrow> mono_secs os;
          n \<leftarrow> relock_all os (en_fnm env) topo now rx de;
          ret (AppliedReply p n)
        })
      | ApplyScene name \<Rightarrow> ipc_scene env topo de rx cfg name st src
      | TuneSys knd value \<Rightarrow> keep (ipc_tune os knd value)
      | Snapshot flt \<Rightarrow> keep (do { rows \<leftarrow> gets (snapshot_rows flt win); ret (SnapshotReply rows) }))"

end
