(* ===== verification/Daemon_Loop.thy ===== *)
theory Daemon_Loop
  imports Daemon
begin

text \<open>
  The daemon (crates/daemon/src/main.rs), second half: the startup and the main loop. The loop is
  cut into its phases, in the order of the code; one step of the main thread is one phase, or one
  message of a queue. The other threads (clients of the socket, the hot reload of store.rs, the
  signal handler, the kernel) step between the phases. A reload is one step here;
  the code takes the lock of the store twice, and theory Reload_Race has the reloads of several
  threads that overlap there.
\<close>

section \<open>State\<close>

datatype phase =
  PTop | PRequests | PReloads | PCoverage | PPeriodic | PObserve | PCleanup | PPoll | PContext |
  PForeground | PAudit | PStopped | PPanicked

text \<open>
  The locals of \<open>main\<close>, the channels into the loop, and the state of the reload thread. The
  foreground cache is the global of foreground.rs.
\<close>

record loop =
  lp_topo :: CpuTopology
  lp_scan :: u64
  lp_decision :: DecisionEngine
  lp_store :: ConfigStore
  lp_cfg :: ConfigSnapshot
  lp_source :: event_source
  lp_now :: int
  lp_last_lock :: int
  lp_last_cleanup :: int
  lp_last_fg :: int
  lp_last_coverage :: int
  lp_last_observe :: int
  lp_last_audit :: int
  lp_adaptive :: AdaptiveRelock
  lp_guard :: RelockGuard
  lp_sampler :: Sampler
  lp_window :: SnapshotWindow
  lp_poller :: AdaptivePoller
  lp_sys :: "SystemContext option"
  lp_foreground :: "nat set"
  lp_requests :: "IpcRequest list"
  lp_replies :: "(IpcRequest \<times> IpcReply) list"
  lp_reloads :: "u64 list"
  lp_inotify :: bool
  lp_mtime :: int
  lp_shutdown :: bool
  lp_pc :: phase

section \<open>The phases\<close>

definition as_i64 :: "u64 \<Rightarrow> int" where
  "as_i64 w = sint w"

definition top_phase :: "'k env \<Rightarrow> loop \<Rightarrow> ('k world, loop) state" where
  "top_phase env lp =
     (if lp_shutdown lp then ret (lp\<lparr>lp_pc := PStopped\<rparr>)
      else do {
        now \<leftarrow> mono_secs (en_os env);
        let cfg = current (lp_store lp);
        _ \<leftarrow> modify (\<lambda>w. w\<lparr>cfg_rules := rules cfg\<rparr>);
        ret (lp\<lparr>lp_now := now, lp_cfg := cfg, lp_pc := PRequests\<rparr>)
      })"

definition request_phase :: "'k env \<Rightarrow> loop \<Rightarrow> ('k world, loop) state" where
  "request_phase env lp =
     (case lp_requests lp of
        [] \<Rightarrow> ret (lp\<lparr>lp_pc := PReloads\<rparr>)
      | req # reqs \<Rightarrow> do {
          rx \<leftarrow> build_relock_ctx (en_os env) (lp_sys lp);
          r \<leftarrow> handle_ipc env (lp_topo lp) (lp_decision lp) (lp_cfg lp) (lp_window lp) rx req
                 (lp_store lp) (lp_source lp);
          ret (case r of (reply, st, src) \<Rightarrow>
            lp\<lparr>lp_requests := reqs, lp_replies := lp_replies lp @ [(req, reply)], lp_store := st,
               lp_source := src\<rparr>)
        })"

definition reload_phase :: "'k env \<Rightarrow> loop \<Rightarrow> ('k world, loop) state" where
  "reload_phase env lp =
     (case lp_reloads lp of
        [] \<Rightarrow> ret (lp\<lparr>lp_pc := PCoverage\<rparr>)
      | v # vs \<Rightarrow> do {
          rx \<leftarrow> build_relock_ctx (en_os env) (lp_sys lp);
          r \<leftarrow> do_reload env (lp_topo lp) (lp_decision lp) rx (lp_store lp) (lp_source lp);
          ret (lp\<lparr>lp_reloads := vs, lp_source := fst r\<rparr>)
        })"

definition relock_now :: "'k env \<Rightarrow> loop \<Rightarrow> ('k world, nat) state" where
  "relock_now env lp = do {
     rx \<leftarrow> build_relock_ctx (en_os env) (lp_sys lp);
     relock_all (en_os env) (en_fnm env) (lp_topo lp) (lp_now lp) rx (lp_decision lp)
   }"

text \<open>\<open>relock_guard.try_lock(Instant::now())\<close> and, when it is granted, the relock.\<close>

definition guarded_relock :: "'k env \<Rightarrow> loop \<Rightarrow> ('k world, loop) state" where
  "guarded_relock env lp = do {
     t \<leftarrow> now_instant (en_os env);
     (case try_lock t (lp_guard lp) of (granted, g) \<Rightarrow>
        if granted then do {
          _ \<leftarrow> relock_now env lp;
          ret (lp\<lparr>lp_guard := g, lp_last_lock := lp_now lp\<rparr>)
        }
        else ret (lp\<lparr>lp_guard := g\<rparr>))
   }"

definition coverage_phase :: "'k env \<Rightarrow> loop \<Rightarrow> ('k world, loop) state" where
  "coverage_phase env lp0 =
     (let lp = lp0\<lparr>lp_pc := PPeriodic\<rparr> in
      if 0 < lock_interval (engine (lp_cfg lp)) \<and>
         int SAMPLE_INTERVAL_SECS \<le> lp_now lp - lp_last_coverage lp
      then do {
        ratio \<leftarrow> sample_coverage (en_os env) BASE_CPUSET;
        let lp' = lp\<lparr>lp_last_coverage := lp_now lp, lp_adaptive := observe_ratio ratio (lp_adaptive lp)\<rparr>;
        if f_lt (Fin 0) ratio then guarded_relock env lp' else ret lp'
      }
      else ret lp)"

definition periodic_phase :: "'k env \<Rightarrow> loop \<Rightarrow> ('k world, loop) state" where
  "periodic_phase env lp0 =
     (let lp = lp0\<lparr>lp_pc := PObserve\<rparr> in
      if 0 < lock_interval (engine (lp_cfg lp)) \<and>
         int (interval_secs (lp_adaptive lp)) \<le> lp_now lp - lp_last_lock lp
      then guarded_relock env lp
      else ret lp)"

definition observe_phase :: "'k env \<Rightarrow> loop \<Rightarrow> ('k world, loop) state" where
  "observe_phase env lp0 =
     (let lp = lp0\<lparr>lp_pc := PCleanup\<rparr> in
      if 5 \<le> lp_now lp - lp_last_observe lp
      then do {
        r \<leftarrow> sampler_sample (en_os env) (en_order env) (lp_sampler lp);
        ret (lp\<lparr>lp_last_observe := lp_now lp, lp_sampler := fst r,
                lp_window := push_batch (snd r) (lp_window lp)\<rparr>)
      }
      else ret lp)"

text \<open>The threads of the tracked processes.\<close>

definition tracked_threads :: "'k world \<Rightarrow> pid set" where
  "tracked_threads w = (\<Union>s \<in> snd ` set (procs (tracker w)). applied_tids s)"

definition cleanup_phase :: "'k env \<Rightarrow> loop \<Rightarrow> ('k world, loop) state" where
  "cleanup_phase env lp0 =
     (let lp = lp0\<lparr>lp_pc := PPoll\<rparr> in
      if as_i64 (max (dead_cleanup_interval (engine (lp_cfg lp))) 1) \<le> lp_now lp - lp_last_cleanup lp
      then do {
        _ \<leftarrow> cleanup_dead (en_os env);
        alive \<leftarrow> gets tracked_threads;
        ret (lp\<lparr>lp_last_cleanup := lp_now lp, lp_window := window_retain alive (lp_window lp)\<rparr>)
      }
      else ret lp)"

text \<open>
  \<open>Instant + Duration::from_secs(n)\<close> panics when the seconds leave the 64-bit range of the clock.
\<close>

definition deadline_after :: "instant \<Rightarrow> u64 \<Rightarrow> instant option" where
  "deadline_after t n =
     (if t div 1000000000 + int (unat n) < 2 ^ 63 then Some (t + int (from_secs (unat n))) else None)"

definition poll_phase :: "'k env \<Rightarrow> loop \<Rightarrow> ('k world, loop) state" where
  "poll_phase env lp = do {
     t \<leftarrow> now_instant (en_os env);
     (case deadline_after t (max (lp_scan lp) (scan_interval (engine (lp_cfg lp)))) of
        None \<Rightarrow> ret (lp\<lparr>lp_pc := PPanicked\<rparr>)
      | Some deadline \<Rightarrow> do {
          r \<leftarrow> source_poll env deadline (lp_source lp);
          t2 \<leftarrow> now_instant (en_os env);
          let remain = duration_since deadline t2;
          _ \<leftarrow> unless (remain = 0) (on_kern (sys (os_sleep (en_os env) (min remain (from_millis 100)))));
          _ \<leftarrow> (if snd r \<noteq> []
               then handle_events (en_os env) (en_fnm env) (lp_topo lp) (lp_now lp) (snd r)
               else ret 0);
          ret (lp\<lparr>lp_source := fst r, lp_pc := PContext\<rparr>)
        })
   }"

definition context_phase :: "'k env \<Rightarrow> loop \<Rightarrow> ('k world, loop) state" where
  "context_phase env lp0 = do {
     let lp = lp0\<lparr>lp_pc := PForeground\<rparr>;
     t \<leftarrow> now_instant (en_os env);
     if should_sample (lp_poller lp) t
     then do {
       ctx \<leftarrow> on_kern (sample (en_os env));
       t2 \<leftarrow> now_instant (en_os env);
       ret (lp\<lparr>lp_poller := sampled (lp_poller lp) ctx t2, lp_sys := Some ctx\<rparr>)
     }
     else ret lp
   }"

definition foreground_phase :: "'k env \<Rightarrow> loop \<Rightarrow> ('k world, loop) state" where
  "foreground_phase env lp0 =
     (let lp = lp0\<lparr>lp_pc := PAudit\<rparr> in
      if 30 \<le> lp_now lp - lp_last_fg lp
      then do {
        uids \<leftarrow> on_kern (refresh_foreground_uids (en_os env));
        ret (lp\<lparr>lp_foreground := uids, lp_last_fg := lp_now lp\<rparr>)
      }
      else ret lp)"

text \<open>The last phase only prints (when debugging).\<close>

definition audit_phase :: "loop \<Rightarrow> loop" where
  "audit_phase lp0 =
     (let lp = lp0\<lparr>lp_pc := PTop\<rparr> in
      if 60 \<le> lp_now lp - lp_last_audit lp then lp\<lparr>lp_last_audit := lp_now lp\<rparr> else lp)"

fun phase_run :: "'k env \<Rightarrow> phase \<Rightarrow> loop \<Rightarrow> ('k world, loop) state" where
  "phase_run env PTop lp = top_phase env lp"
| "phase_run env PRequests lp = request_phase env lp"
| "phase_run env PReloads lp = reload_phase env lp"
| "phase_run env PCoverage lp = coverage_phase env lp"
| "phase_run env PPeriodic lp = periodic_phase env lp"
| "phase_run env PObserve lp = observe_phase env lp"
| "phase_run env PCleanup lp = cleanup_phase env lp"
| "phase_run env PPoll lp = poll_phase env lp"
| "phase_run env PContext lp = context_phase env lp"
| "phase_run env PForeground lp = foreground_phase env lp"
| "phase_run env PAudit lp = ret (audit_phase lp)"
| "phase_run env PStopped lp = ret lp"
| "phase_run env PPanicked lp = ret lp"

definition main_step :: "'k env \<Rightarrow> loop \<times> 'k world \<Rightarrow> loop \<times> 'k world" where
  "main_step env c = run_state (phase_run env (lp_pc (fst c)) (fst c)) (snd c)"

section \<open>Startup\<close>

record options =
  opt_config :: string
  opt_scan :: u64
  opt_dry :: bool
  opt_debug :: bool

definition options_default :: options where
  "options_default = \<lparr>opt_config = ''./threadctl.kdl'', opt_scan = 2, opt_dry = False, opt_debug = False\<rparr>"

definition cli_commands :: "string set" where
  "cli_commands = {''status'', ''dump'', ''reload'', ''apply'', ''snapshot'', ''apply-scene'', ''tune''}"

text \<open>The left result is the exit code.\<close>

fun parse_args :: "string list \<Rightarrow> options \<Rightarrow> int + options" where
  "parse_args [] o' = Inr o'"
| "parse_args (a # as) o' =
     (if a = ''-c''
      then (case as of [] \<Rightarrow> Inl 1 | v # vs \<Rightarrow> parse_args vs (o'\<lparr>opt_config := v\<rparr>))
      else if a = ''-s''
      then (case as of
              [] \<Rightarrow> Inl 1
            | v # vs \<Rightarrow>
                (case parse_u64 v of
                   None \<Rightarrow> Inl 1
                 | Some n \<Rightarrow> if 1 \<le> n then parse_args vs (o'\<lparr>opt_scan := of_nat n\<rparr>) else Inl 1))
      else if a = ''-t'' \<or> a = ''--dry-run'' then parse_args as (o'\<lparr>opt_dry := True\<rparr>)
      else if a = ''-v'' then Inl 0
      else if a = ''--debug'' then parse_args as (o'\<lparr>opt_debug := True\<rparr>)
      else if a = ''-h'' then Inl 0
      else Inl 1)"

datatype startup = StartExit int | StartCli string | StartLoop loop

definition world_new :: "'k \<Rightarrow> 'k world" where
  "world_new k = \<lparr>kern = k, audit_ring = [], warned_einval = {}, warned_blocked = {},
     warned_eperm = {}, warned_cpuset = {}, short_circuit_total = 0, uclamp_support = None,
     ensured_dirs = {}, relock_stats = \<lparr>rst_allow = 0, rst_skip = 0, rst_degrade = 0\<rparr>,
     tracker = tracker_new, cfg_rules = ruleset_default\<rparr>"

definition decision_of :: "EngineConfig \<Rightarrow> DecisionEngine" where
  "decision_of e = \<lparr>force_affinity_enabled = (ec_migrate_action e = MForce),
     de_pressure_sensitive = ec_pressure_sensitive e\<rparr>"

definition choose_source :: "'k env \<Rightarrow> RuleSet \<Rightarrow> ('k world, event_source) state" where
  "choose_source env rs = do {
     r \<leftarrow> on_kern (ebpf_try_new (en_os env) (en_loader env) rs);
     source_config_changed env rs (case r of Inr s \<Rightarrow> SrcEbpf s | Inl _ \<Rightarrow> SrcProc proc_new)
   }"

text \<open>The \<open>system\<close> section of the configuration; errors are printed.\<close>

definition tune_at_start :: "'k env \<Rightarrow> string \<Rightarrow> ('k world, unit) state" where
  "tune_at_start env path = do {
     c \<leftarrow> on_kern (read_to_string (en_os env) path);
     (case c of
        None \<Rightarrow> ret ()
      | Some content \<Rightarrow>
          (case parse_system (en_kdl env) content of
             Inl _ \<Rightarrow> ret ()
           | Inr t \<Rightarrow> do {
               _ \<leftarrow> (case governor t of None \<Rightarrow> ret (Inr 0)
                    | Some g \<Rightarrow> on_kern (apply_governor (en_os env) g));
               _ \<leftarrow> (case io_scheduler t of None \<Rightarrow> ret (Inr 0)
                    | Some i \<Rightarrow> on_kern (apply_io_scheduler (en_os env) i));
               ret ()
             }))
   }"

definition boot_loop :: "'k env \<Rightarrow> options \<Rightarrow> CpuTopology \<Rightarrow> ConfigStore \<Rightarrow> ('k world, loop) state" where
  "boot_loop env o' topo st = do {
     let os = en_os env;
     let cfg = current st;
     _ \<leftarrow> on_kern (can_rt_sched os);
     _ \<leftarrow> on_kern (detect_capabilities os);
     src \<leftarrow> choose_source env (rules cfg);
     watch \<leftarrow> on_kern (sys (en_watch env (store_file st)));
     last_lock \<leftarrow> mono_secs os;
     last_cleanup \<leftarrow> mono_secs os;
     last_fg \<leftarrow> mono_secs os;
     t \<leftarrow> now_instant os;
     last_coverage \<leftarrow> mono_secs os;
     last_observe \<leftarrow> mono_secs os;
     _ \<leftarrow> tune_at_start env (opt_config o');
     _ \<leftarrow> on_kern (sys (en_mkdirs env (ipc_socket (daemon cfg))));
     _ \<leftarrow> on_kern (sys (en_mkdirs env (pid_file (daemon cfg))));
     _ \<leftarrow> on_kern (sys (en_bind env (ipc_socket (daemon cfg))));
     last_audit \<leftarrow> mono_secs os;
     t2 \<leftarrow> now_instant os;
     ret \<lparr>lp_topo = topo, lp_scan = opt_scan o', lp_decision = decision_of (engine cfg),
       lp_store = st, lp_cfg = cfg, lp_source = src, lp_now = 0, lp_last_lock = last_lock,
       lp_last_cleanup = last_cleanup, lp_last_fg = last_fg, lp_last_coverage = last_coverage,
       lp_last_observe = last_observe, lp_last_audit = last_audit,
       lp_adaptive = from_initial (max (lock_interval (engine cfg)) 1),
       lp_guard = set_cooldown 1000 (guard_new t), lp_sampler = sampler_new 2,
       lp_window = window_new, lp_poller = poller_new t2, lp_sys = None, lp_foreground = {},
       lp_requests = [], lp_replies = [], lp_reloads = [], lp_inotify = fst watch,
       lp_mtime = snd watch, lp_shutdown = False, lp_pc = PTop\<rparr>
   }"

definition start_loaded ::
  "'k env \<Rightarrow> options \<Rightarrow> CpuTopology \<Rightarrow> load_error + ConfigStore \<Rightarrow> ('k world, startup) state" where
  "start_loaded env o' topo r =
     (case r of
        Inl _ \<Rightarrow> ret (StartExit 1)
      | Inr st \<Rightarrow>
          (if opt_dry o' then ret (StartExit 0)
           else do {
             _ \<leftarrow> modify (\<lambda>w. w\<lparr>cfg_rules := rules (current st)\<rparr>);
             lp \<leftarrow> boot_loop env o' topo st;
             ret (StartLoop lp)
           }))"

definition start_options :: "'k env \<Rightarrow> options \<Rightarrow> ('k world, startup) state" where
  "start_options env o' = do {
     there \<leftarrow> on_kern (sys (os_exists (en_os env) (opt_config o')));
     _ \<leftarrow> (if there then ret True
          else on_kern (sys (os_write_file (en_os env) (opt_config o') (en_template env))));
     topo \<leftarrow> on_kern (init_cpu_topo (en_os env));
     r \<leftarrow> on_kern (store_new (en_os env) (en_kdl env) (opt_config o') topo);
     start_loaded env o' topo r
   }"

definition daemon_start :: "'k env \<Rightarrow> string list \<Rightarrow> ('k world, startup) state" where
  "daemon_start env args =
     (if args \<noteq> [] \<and> hd args \<in> cli_commands then ret (StartCli (join '' '' args))
      else (case parse_args args options_default of
        Inl c \<Rightarrow> ret (StartExit c) | Inr o' \<Rightarrow> start_options env o'))"

section \<open>All threads\<close>

definition hot_of :: "loop \<Rightarrow> hot_state" where
  "hot_of lp = \<lparr>inotify_active = lp_inotify lp, last_mtime = lp_mtime lp, hot_store = lp_store lp\<rparr>"

definition hot_put :: "hot_state \<times> u64 option \<Rightarrow> loop \<Rightarrow> loop" where
  "hot_put r lp = lp\<lparr>lp_inotify := inotify_active (fst r), lp_mtime := last_mtime (fst r),
     lp_store := hot_store (fst r),
     lp_reloads := lp_reloads lp @ (case snd r of None \<Rightarrow> [] | Some v \<Rightarrow> [v])\<rparr>"

definition hot_run :: "'k env \<Rightarrow> wait_result \<Rightarrow> int \<Rightarrow> loop \<Rightarrow> ('k world, loop) state" where
  "hot_run env waited mtime lp = do {
     r \<leftarrow> on_kern (hot_step (en_os env) (en_kdl env) waited mtime (hot_of lp));
     ret (hot_put r lp)
   }"

inductive daemon_step :: "'k env \<Rightarrow> loop \<times> 'k world \<Rightarrow> loop \<times> 'k world \<Rightarrow> bool" for env where
  main: "lp_pc lp \<notin> {PStopped, PPanicked} \<Longrightarrow> daemon_step env (lp, w) (main_step env (lp, w))"
| client: "client_request sent = Some r \<Longrightarrow>
    daemon_step env (lp, w) (lp\<lparr>lp_requests := lp_requests lp @ [r]\<rparr>, w)"
| hot: "daemon_step env (lp, w) (run_state (hot_run env waited mtime lp) w)"
| signal: "daemon_step env (lp, w) (lp\<lparr>lp_shutdown := True\<rparr>, w)"
| kernel: "daemon_step env (lp, w) (lp, w\<lparr>kern := k\<rparr>)"

inductive reachable :: "'k env \<Rightarrow> loop \<times> 'k world \<Rightarrow> bool" for env where
  started: "run_state (daemon_start env args) (world_new k) = (StartLoop lp, w) \<Longrightarrow> reachable env (lp, w)"
| stepped: "reachable env c \<Longrightarrow> daemon_step env c c' \<Longrightarrow> reachable env c'"

inductive_cases daemon_stepE: "daemon_step env (lp, w) c'"
inductive_simps step_from: "daemon_step env (lp, w) (lp', w')"

end
