(* ===== verification/Ebpf_Source_Facts.thy ===== *)
theory Ebpf_Source_Facts
  imports Source_Facts
begin

text \<open>
  What the eBPF source guarantees: its whitelist lets every package name through the filter of
  the eBPF program and fits the map, its queue of forks is bounded and retries a fork at most
  three times, and its events are sound.
\<close>

section \<open>The whitelist\<close>

lemma set_target_entries: "set (target_entries pkgs) = (\<Union>p \<in> set pkgs. set (pkg_keys p))"
  by (simp add: target_entries_def)

lemma target_entries_sorted: "sorted (target_entries pkgs) \<and> distinct (target_entries pkgs)"
proof -
  have "sorted xs \<Longrightarrow> sorted (remdups_adj xs) \<and> distinct (remdups_adj xs)" for xs :: "string list"
    by (induction xs rule: remdups_adj.induct) (auto simp: order_le_less)
  then show ?thesis by (simp add: target_entries_def)
qed

lemma pkg_keys_length: "length (pkg_keys p) \<le> 2"
  by (simp add: pkg_keys_def)

lemma target_entries_length: "length (target_entries pkgs) \<le> 2 * length pkgs"
proof -
  have "length (concat (map pkg_keys pkgs)) \<le> 2 * length pkgs"
  proof (induction pkgs)
    case (Cons p pkgs)
    then show ?case using pkg_keys_length [of p] by simp
  qed simp
  moreover have "length (target_entries pkgs) \<le> length (concat (map pkg_keys pkgs))"
    using remdups_adj_length [of "sort (concat (map pkg_keys pkgs))"] by (simp add: target_entries_def)
  ultimately show ?thesis by simp
qed

lemma key_length: "k \<in> set (pkg_keys p) \<Longrightarrow> length k = 8"
  by (auto simp: pkg_keys_def prefix_key_def Let_def split: if_splits)

text \<open>The name of a task: at most 15 bytes of a text, padded with NUL to 16.\<close>

definition comm_of :: "string \<Rightarrow> string" where
  "comm_of s = take 15 s @ replicate (16 - min 15 (length s)) nul"

lemma comm_of_prefix: "comm_key (comm_of p) 0 = prefix_key p"
proof (cases "8 \<le> length p")
  case True
  then show ?thesis by (simp add: comm_key_def comm_of_def prefix_key_def Let_def min_def)
next
  case False
  then show ?thesis by (simp add: comm_key_def comm_of_def prefix_key_def Let_def min_def)
qed

lemma comm_key_tail:
  assumes "8 < length s" and "length s \<le> 15"
  shows "comm_key (comm_of s) (length s - 8) = drop (length s - 8) s"
  using assms by (simp add: comm_key_def comm_of_def)

lemma comm_of_suffix:
  assumes "8 < length p"
  shows "\<exists>pos \<le> 8. comm_key (comm_of (drop (length p - 15) p)) pos = drop (length p - 8) p"
proof -
  let ?s = "drop (length p - 15) p"
  have len: "8 < length ?s \<and> length ?s \<le> 15" using assms by auto
  have "comm_key (comm_of ?s) (length ?s - 8) = drop (length ?s - 8) ?s"
    using len by (intro comm_key_tail) simp_all
  also have "\<dots> = drop (length p - 8) p" proof -
    have "length ?s - 8 + (length p - 15) = length p - 8" using assms by auto
    then show ?thesis by (simp only: drop_drop)
  qed
  finally show ?thesis using len by (intro exI [of _ "length ?s - 8"]) auto
qed

lemma whitelisted_matches:
  assumes "p \<in> set pkgs" and "p \<noteq> []" and "\<forall>key \<in> set (target_entries pkgs). target_has k key b"
    and "c = comm_of p \<or> c = comm_of (drop (length p - 15) p)"
  shows "comm_matches k c b"
proof -
  have keys: "key \<in> set (pkg_keys p) \<Longrightarrow> target_has k key b" for key
    using assms(1,3) by (auto simp: set_target_entries)
  show ?thesis
  proof (cases "c = comm_of p \<or> length p \<le> 15")
    case True
    with assms(4) have "c = comm_of p" by auto
    then have "target_has k (comm_key c 0) b"
      using keys assms(2) by (simp add: comm_of_prefix pkg_keys_def)
    then show ?thesis unfolding comm_matches_iff by blast
  next
    case False
    with assms(4) have c: "c = comm_of (drop (length p - 15) p)" by blast
    with False comm_of_suffix [of p] obtain pos where "pos \<le> 8" "comm_key c pos = drop (length p - 8) p"
      by auto
    moreover have "target_has k (drop (length p - 8) p) b"
      using False assms(2) by (intro keys) (auto simp: pkg_keys_def)
    ultimately show ?thesis unfolding comm_matches_iff by metis
  qed
qed

lemma next_power_ge:
  assumes "n \<le> 2 ^ 31"
  shows "n \<le> next_power_of_two n"
proof (cases "n \<le> 1")
  case False
  have "n - 1 < 2 ^ floorlog 2 (n - 1)" using False floorlog_bounds [of "n - 1" 2] by simp
  moreover have "floorlog 2 (n - 1) \<le> 31"
    using assms False by (intro floorlog_leI) simp_all
  then have "(2 :: nat) ^ floorlog 2 (n - 1) \<le> 2 ^ 31" by (rule power_increasing) simp
  ultimately show ?thesis by (simp add: next_power_of_two_def)
qed (simp add: next_power_of_two_def floorlog_def)

lemma capacity_suffices:
  assumes "length pkgs \<le> 2 ^ 30"
  shows "length (target_entries pkgs) \<le> map_capacity (length pkgs)"
proof -
  have "length pkgs * 2 mod 2 ^ 32 = length pkgs * 2" using assms by simp
  moreover have "length pkgs * 2 \<le> next_power_of_two (length pkgs * 2)" using assms by (intro next_power_ge) simp
  ultimately show ?thesis using target_entries_length [of pkgs] by (simp add: map_capacity_def)
qed

section \<open>The layout of an event\<close>

lemma pid_word_back: "- (2 ^ 31) \<le> p \<Longrightarrow> p < 2 ^ 31 \<Longrightarrow> sint (pid_word p) = p"
  by (simp add: pid_word_def signed_of_int signed_take_bit_int_eq_self)

lemma decode_wire:
  assumes "length (comm ev) = 16" and "\<forall>p \<in> {pe_pid ev, pe_tid ev, child_pid ev}. - (2 ^ 31) \<le> p \<and> p < 2 ^ 31"
  shows "decode_event (wire ev @ junk) = Some ev"
proof -
  have "read32 0 (wire ev @ junk) = pid_word (pe_pid ev)"
    using read32_at [of "[]" 0] by (simp add: wire_def)
  moreover have "read32 4 (wire ev @ junk) = pid_word (pe_tid ev)"
    using read32_at [of "le32 (pid_word (pe_pid ev))" 4] by (simp add: wire_def)
  moreover have "read32 8 (wire ev @ junk) = pid_word (child_pid ev)"
    using read32_at [of "le32 (pid_word (pe_pid ev)) @ le32 (pid_word (pe_tid ev))" 8] by (simp add: wire_def)
  moreover have "read32 28 (wire ev @ junk) = event_type ev"
    using read32_at [of "le32 (pid_word (pe_pid ev)) @ le32 (pid_word (pe_tid ev)) @ le32 (pid_word (child_pid ev)) @ comm ev" 28]
      assms(1) by (simp add: wire_def)
  moreover have "take 16 (drop 12 (wire ev @ junk)) = comm ev"
    using assms(1) by (simp add: wire_def)
  moreover have "EVENT_SIZE \<le> length (wire ev @ junk)"
    using assms(1) by (simp add: wire_def EVENT_SIZE_def)
  ultimately show ?thesis
    using assms(2) by (simp add: decode_event_def pid_word_back)
qed

section \<open>The queue of forks\<close>

definition forks_ok :: "PendingFork list \<Rightarrow> bool" where
  "forks_ok qs \<longleftrightarrow> length qs \<le> PENDING_MAX_PENDING \<and> distinct (map pf_child qs) \<and>
     (\<forall>q \<in> set qs. pf_retry q \<le> PENDING_MAX_RETRIES)"

text \<open>Where an element of the queue comes from after a flush at \<open>now\<close>.\<close>

definition retried :: "instant \<Rightarrow> PendingFork \<Rightarrow> PendingFork \<Rightarrow> bool" where
  "retried now p q \<longleftrightarrow>
     (if now < pf_next p then q = p
      else pf_child q = pf_child p \<and> pf_retry q = pf_retry p + 1 \<and> pf_retry q \<le> PENDING_MAX_RETRIES)"

definition forks_inv ::
  "fnmatch \<Rightarrow> RuleSet \<Rightarrow> StateTracker \<Rightarrow> instant \<Rightarrow> PendingFork list \<Rightarrow> flush_acc \<Rightarrow> bool" where
  "forks_inv fnm R T now ds acc \<longleftrightarrow>
     (case acc of (rs, kept, evs) \<Rightarrow>
        rules_of fnm R rs \<and> events_sound fnm R T evs \<and> length kept \<le> length ds \<and>
        set (map pf_child kept) \<subseteq> set (map pf_child ds) \<and>
        (distinct (map pf_child ds) \<longrightarrow> distinct (map pf_child kept)) \<and>
        (\<forall>q \<in> set kept. \<exists>p \<in> set ds. retried now p q))"

lemma forks_inv_skip: "forks_inv fnm R T now ds acc \<Longrightarrow> forks_inv fnm R T now (ds @ [p]) acc"
  by (auto simp: forks_inv_def)

lemma forks_inv_keep:
  assumes "forks_inv fnm R T now ds (rs, kept, evs)" and "retried now p q"
  shows "forks_inv fnm R T now (ds @ [p]) (rs, kept @ [q], evs)"
proof -
  have "pf_child q = pf_child p" using assms(2) by (simp add: retried_def split: if_splits)
  with assms show ?thesis by (auto simp: forks_inv_def)
qed

lemma forks_inv_event:
  assumes "forks_inv fnm R T now ds (rs, kept, evs)" and "ask fnm pkg rs = (yes, rs')"
    and "yes \<Longrightarrow> interested_pure fnm R pkg \<Longrightarrow> event_sound fnm R T (ev_kind ev) ev"
  shows "forks_inv fnm R T now (ds @ [p]) (rs', kept, if yes then evs @ [ev] else evs)"
  using forks_inv_skip [OF assms(1), of p] ask_ok [OF _ assms(2), of R] assms(3)
  by (auto simp: forks_inv_def)

lemma keeps_tracked: "kernel_blind P \<Longrightarrow> keeps P (tracked_insert eb t)" "kernel_blind P \<Longrightarrow> keeps P (tracked_remove eb t)"
  unfolding tracked_insert_def tracked_remove_def by (intro keeps_intros keeps_kernel; assumption)+

lemma retry_or_drop_inv:
  assumes "kernel_blind P" and "forks_inv fnm R T now ds (rs, kept, evs)" and "\<not> now < pf_next p"
  shows "triple P (retry_or_drop os p kept) (\<lambda>kept'. forks_inv fnm R T now (ds @ [p]) (rs, kept', evs))"
  unfolding retry_or_drop_def now_instant_def
  by (intro triple_intros assms(1) forks_inv_keep [OF assms(2)] forks_inv_skip [OF assms(2)])
    (use assms(3) in \<open>simp add: retried_def\<close>)

lemma split_fork_inv:
  assumes "kernel_blind P" and "forks_inv fnm R T now ds (rs, kept, evs)"
  shows "triple P (split_fork os eb fnm c pkg (rs, kept, evs)) (forks_inv fnm R T now (ds @ [p]))"
proof -
  have yes: "forks_inv fnm R T now (ds @ [p]) (rs', kept, evs @ [ev])"
    if "ask fnm n rs = (True, rs')" "interested_pure fnm R n \<Longrightarrow> event_sound fnm R T (ev_kind ev) ev" for n rs' ev
    using forks_inv_event [OF assms(2) that(1), where ev = ev and p = p] that(2) by simp
  have no: "forks_inv fnm R T now (ds @ [p]) (rs', kept, evs)" if "ask fnm n rs = (False, rs')" for n rs'
    using forks_inv_event [OF assms(2) that, where p = p] by simp
  show ?thesis
    unfolding split_fork_def prod.case
    by (intro triple_intros assms(1) triple_bind [OF triple_any [OF keeps_tracked(1)]])
      (auto intro: yes no sound_events forks_inv_skip [OF assms(2)])
qed

lemma flush_one_inv:
  assumes "kernel_blind P" and "forks_inv fnm R T now ds acc"
  shows "triple P (flush_one os eb fnm now p acc) (forks_inv fnm R T now (ds @ [p]))"
proof -
  obtain rs kept evs where acc: "acc = (rs, kept, evs)" by (cases acc) auto
  note inv = assms(2) [unfolded acc]
  have keep: "now < pf_next p \<Longrightarrow> forks_inv fnm R T now (ds @ [p]) (rs, kept @ [p], evs)"
    by (rule forks_inv_keep [OF inv]) (simp add: retried_def)
  have retry: "triple P (do { kept' \<leftarrow> retry_or_drop os p kept; ret (rs, kept', evs) })
      (forks_inv fnm R T now (ds @ [p]))" if "\<not> now < pf_next p"
    by (rule triple_bind [OF retry_or_drop_inv [OF assms(1) inv that]]) (rule triple_return)
  show ?thesis
    unfolding flush_one_def acc prod.case
    by (intro triple_intros assms(1) keep retry split_fork_inv [OF assms(1) inv] forks_inv_skip [OF inv])
qed

lemma flush_forks_inv:
  assumes "kernel_blind P" and "rules_of fnm R rs" and "events_sound fnm R T evs"
  shows "triple P (foldM (flush_one os eb fnm now) qs (rs, [], evs)) (forks_inv fnm R T now qs)"
proof (rule triple_foldM_done)
  show "forks_inv fnm R T now [] (rs, [], evs)" using assms(2,3) by (simp add: forks_inv_def)
qed (rule flush_one_inv [OF assms(1)])

lemma forks_inv_ok:
  assumes "forks_inv fnm R T now qs (rs, kept, evs)" and "forks_ok qs"
  shows "forks_ok kept"
  using assms by (fastforce simp: forks_inv_def forks_ok_def retried_def split: if_splits)

text \<open>In a round in which every fork is due, each is gone afterwards or one retry older.\<close>

lemma forks_inv_older:
  assumes "forks_inv fnm R T now qs (rs, kept, evs)"
    and "\<forall>p \<in> set qs. \<not> now < pf_next p \<and> n \<le> pf_retry p" and "q \<in> set kept"
  shows "n < pf_retry q \<and> pf_retry q \<le> PENDING_MAX_RETRIES"
  using assms by (fastforce simp: forks_inv_def retried_def)

section \<open>Sound rounds\<close>

definition source_inv :: "fnmatch \<Rightarrow> RuleSet \<Rightarrow> StateTracker \<Rightarrow> ebpf_acc \<Rightarrow> bool" where
  "source_inv fnm R T acc \<longleftrightarrow>
     (\<exists>rs. es_rules (fst acc) = Some rs \<and> rules_of fnm R rs) \<and> forks_ok (es_pending (fst acc)) \<and>
     events_sound fnm R T (snd acc)"

lemma handle_raw_inv:
  assumes "source_inv fnm R T acc"
  shows "triple (tracker_is T) (handle_raw os eb ev acc) (source_inv fnm R T)"
proof -
  obtain s evs where acc: "acc = (s, evs)" by (cases acc)
  have tracked: "tracker_is T w \<Longrightarrow> tracker_contains p w \<Longrightarrow> events_sound fnm R T [ev_exit p t]" for w p t
    by (simp add: tracker_is_def tracker_contains_def tracker_get_def sound_exit)
  have removed: "keeps (tracker_is T) (unless b (tracked_remove eb p))" for b p
    by (intro keeps_intros keeps_tracked tracker_is_blind)
  show ?thesis
    unfolding handle_raw_def acc prod.case now_instant_def
    by (intro triple_intros tracker_is_blind triple_bind [OF triple_any [OF removed]])
      (use assms tracked in \<open>auto simp: acc source_inv_def forks_ok_def list_ex_iff sound_exec\<close>)
qed

definition initial_inv ::
  "fnmatch \<Rightarrow> RuleSet \<Rightarrow> StateTracker \<Rightarrow> RuleSet \<times> pid set \<times> ProcessEvent list \<Rightarrow> bool" where
  "initial_inv fnm R T acc \<longleftrightarrow> rules_of fnm R (fst acc) \<and> events_sound fnm R T (snd (snd acc))"

lemma initial_entry_inv:
  assumes "kernel_blind P" and "initial_inv fnm R T acc"
  shows "triple P (initial_entry os fnm name acc) (initial_inv fnm R T)"
proof -
  obtain rs seen evs where acc: "acc = (rs, seen, evs)" by (cases acc)
  have ok: "rules_of fnm R rs" "events_sound fnm R T evs" using assms(2) by (simp_all add: initial_inv_def acc)
  have step: "yes = interested_pure fnm R pkg \<and> rules_of fnm R rs'"
    if "ask fnm pkg rs = (yes, rs')" for pkg yes rs'
    using ask_ok [OF ok(1) that] by simp
  show ?thesis
    unfolding initial_entry_def acc prod.case
    by (intro triple_intros assms(1))
      (use ok in \<open>auto simp: initial_inv_def sound_events dest!: step split: prod.splits option.splits\<close>)
qed

lemma initial_scan_inv:
  assumes "source_inv fnm R T acc" and "kernel_blind P"
  shows "triple P (initial_scan os fnm acc) (source_inv fnm R T)"
proof -
  obtain rs where rs: "es_rules (fst acc) = Some rs" "rules_of fnm R rs"
    using assms(1) by (auto simp: source_inv_def)
  have fold: "triple P (foldM (initial_entry os fnm) es (rs, es_scanned (fst acc), snd acc)) (initial_inv fnm R T)" for es
  proof (rule triple_foldM)
    show "initial_inv fnm R T (rs, es_scanned (fst acc), snd acc)"
      using assms(1) rs by (simp add: initial_inv_def source_inv_def)
  qed (rule initial_entry_inv [OF assms(2)])
  have "triple P (do {
      r \<leftarrow> foldM (initial_entry os fnm) es (rs, es_scanned (fst acc), snd acc);
      ret (case r of (rs', seen, evs) \<Rightarrow> ((fst acc)\<lparr>es_rules := Some rs', es_scanned := seen\<rparr>, evs)) })
      (source_inv fnm R T)" for es
    by (rule triple_bind [OF fold], rule triple_return)
      (use assms(1) in \<open>auto simp: initial_inv_def source_inv_def split: prod.splits\<close>)
  then show ?thesis
    unfolding initial_scan_def rs option.case
    by (intro triple_intros assms)
qed

lemma flush_source_inv:
  assumes "source_inv fnm R T acc" and "kernel_blind P"
  shows "triple P (ebpf_flush_pending os eb fnm acc) (source_inv fnm R T)"
proof -
  obtain rs where rs: "es_rules (fst acc) = Some rs" "rules_of fnm R rs"
    using assms(1) by (auto simp: source_inv_def)
  let ?qs = "es_pending (fst acc)"
  have ok: "events_sound fnm R T (snd acc)" "forks_ok ?qs" using assms(1) by (simp_all add: source_inv_def)
  have "triple P (do {
      r \<leftarrow> foldM (flush_one os eb fnm now) ?qs (rs, [], snd acc);
      ret (case r of (rs', kept, evs) \<Rightarrow> ((fst acc)\<lparr>es_rules := Some rs', es_pending := kept\<rparr>, evs)) })
      (source_inv fnm R T)" for now
    by (rule triple_bind [OF flush_forks_inv [OF assms(2) rs(2) ok(1)]], rule triple_return)
      (auto simp: source_inv_def dest: forks_inv_ok [OF _ ok(2)] split: prod.splits, auto simp: forks_inv_def)
  then show ?thesis
    unfolding ebpf_flush_pending_def rs option.case now_instant_def
    by (intro triple_intros assms)
qed

lemma recv_any: "kernel_blind P \<Longrightarrow> keeps P (recv_upto eb n)"
proof (induction n)
  case (Suc n)
  then show ?case by (auto intro!: keeps_intros keeps_kernel)
qed (simp add: keeps_return)

lemma drain_inv:
  assumes "source_inv fnm R T acc"
  shows "triple (tracker_is T) (ebpf_drain os eb fnm acc) (source_inv fnm R T)"
proof -
  have "triple (tracker_is T) (foldM (handle_raw os eb) evs acc) (source_inv fnm R T)" for evs
    using assms by (rule triple_foldM) (rule handle_raw_inv)
  then have "triple (tracker_is T) (do { acc' \<leftarrow> foldM (handle_raw os eb) evs acc; ebpf_flush_pending os eb fnm acc' })
      (source_inv fnm R T)" for evs
    by (rule triple_bind) (rule flush_source_inv [OF _ tracker_is_blind])
  then show ?thesis
    unfolding ebpf_drain_def by (rule triple_bind [OF triple_any [OF recv_any [OF tracker_is_blind]]])
qed

lemma sync_any:
  assumes "kernel_blind P"
  shows "triple P (sync_if_due os eb s) (\<lambda>s'. es_rules s' = es_rules s \<and> es_pending s' = es_pending s)"
proof -
  have "keeps P (tracked_sync eb)"
    unfolding tracked_sync_def by (intro keeps_intros keeps_kernel assms)
  then show ?thesis
    unfolding sync_if_due_def now_instant_def
    by (intro triple_intros assms triple_bind [OF triple_any]) simp_all
qed

lemma sleep_any: "kernel_blind P \<Longrightarrow> keeps P (sleep_until os t)"
  unfolding sleep_until_def now_instant_def by (intro keeps_intros keeps_kernel; assumption)

lemma ebpf_poll_sound:
  assumes "source_inv fnm R T (s, [])"
  shows "triple (tracker_is T) (ebpf_poll os eb fnm deadline s) (source_inv fnm R T)"
proof -
  let ?start = "if es_scan_done s then ret (s, [])
    else do { a \<leftarrow> initial_scan os fnm (s, []); ret ((fst a)\<lparr>es_scan_done := True\<rparr>, snd a) }"
  have "triple (tracker_is T) ?start (source_inv fnm R T)"
    by (intro triple_intros triple_bind [OF initial_scan_inv [OF assms tracker_is_blind]])
      (use assms in \<open>auto simp: source_inv_def\<close>)
  then show ?thesis
    unfolding ebpf_poll_def
  proof (rule triple_bind)
    fix a1
    assume "source_inv fnm R T a1"
    from drain_inv [OF this] show "triple (tracker_is T) (do {
        a2 \<leftarrow> ebpf_drain os eb fnm a1;
        s \<leftarrow> sync_if_due os eb ((fst a2)\<lparr>es_scanned := {}\<rparr>);
        _ \<leftarrow> unless (snd a2 \<noteq> []) (sleep_until os (wake_instant deadline (map pf_next (es_pending s))));
        ret (s, snd a2) }) (source_inv fnm R T)"
    proof (rule triple_bind)
      fix a2
      assume "source_inv fnm R T a2"
      then show "triple (tracker_is T) (do {
          s \<leftarrow> sync_if_due os eb ((fst a2)\<lparr>es_scanned := {}\<rparr>);
          _ \<leftarrow> unless (snd a2 \<noteq> []) (sleep_until os (wake_instant deadline (map pf_next (es_pending s))));
          ret (s, snd a2) }) (source_inv fnm R T)"
        by (intro triple_bind [OF sync_any [OF tracker_is_blind]] triple_bind [OF triple_any]
            keeps_intros sleep_any tracker_is_blind triple_return) (simp add: source_inv_def)
    qed
  qed
qed

end
