(* ===== verification/Daemon_Facts.thy ===== *)
theory Daemon_Facts
  imports Daemon_Loop Ebpf_Source_Facts
begin

text \<open>
  The invariants of the daemon through startup, every phase of the loop and every step of another
  thread: \<open>loop_ok\<close> of the locals and \<open>sound_world\<close> of the globals, the latter by interpreting the
  contract of the engine on the conjunction of its three invariants.
\<close>

section \<open>The globals\<close>

definition sound_world :: "fnmatch \<Rightarrow> RuleSet \<Rightarrow> 'k world \<Rightarrow> bool" where
  "sound_world fnm R w \<longleftrightarrow> refs_ok w \<and> audit_bounded w \<and> same_rules fnm R w"

lemma keeps_sound:
  "keeps refs_ok m \<Longrightarrow> keeps audit_bounded m \<Longrightarrow> keeps (same_rules fnm R) m \<Longrightarrow> keeps (sound_world fnm R) m"
  by (simp add: keeps_def sound_world_def)

lemma sound_world_inv: "world_inv (sound_world fnm R)"
  by unfold_locales
    (simp_all add: sound_world_def refs_ok_def audit_bounded_def same_rules_def ring_push_bound)

interpretation sound_inv: engine_inv "sound_world fnm R" fnm for fnm R
  by (intro engine_inv.intro sound_world_inv, unfold_locales)
    (intro keeps_sound; (rule refs_inv.keeps_resolve audit_inv.keeps_resolve rules_inv.keeps_resolve
      refs_inv.keeps_interested audit_inv.keeps_interested rules_inv.keeps_interested
      refs_inv.keeps_thread_rules audit_inv.keeps_thread_rules rules_inv.keeps_thread_rules
      refs_inv.keeps_enter audit_inv.keeps_enter rules_inv.keeps_enter
      refs_inv.keeps_remove audit_inv.keeps_remove rules_inv.keeps_remove
      refs_inv.keeps_register audit_inv.keeps_register rules_inv.keeps_register
      refs_inv.keeps_with_proc audit_inv.keeps_with_proc rules_inv.keeps_with_proc; assumption?))+

lemma sound_blind: "kernel_blind (sound_world fnm R)"
  by (simp add: kernel_blind_def sound_inv.inv_kern)

lemma keeps_with_rules:
  assumes "keeps refs_ok m" and "keeps audit_bounded m"
  shows "keeps (sound_world fnm R) (with_rules rs m)"
proof -
  have blind: "refs_ok (w\<lparr>cfg_rules := r\<rparr>) = refs_ok w" "audit_bounded (w\<lparr>cfg_rules := r\<rparr>) = audit_bounded w"
    for w :: "'a world" and r
    by (simp_all add: refs_ok_def audit_bounded_def)
  show ?thesis
    using keepsD [OF assms(1)] keepsD [OF assms(2)]
    by (auto simp: keeps_def with_rules_def sound_world_def blind same_rules_def split: prod.splits)
      (metis blind snd_conv)+
qed

lemmas keeps_swapped_relock = keeps_with_rules [OF refs_inv.keeps_relock_all audit_inv.keeps_relock_all]

section \<open>Answers of the kernel\<close>

lemma triple_kern:
  assumes "kernel_blind P" and "gives Q m"
  shows "triple P (on_kern m) Q"
  using assms by (auto simp: triple_def on_kern_def kernel_blind_def gives_def split: prod.splits) (metis fst_conv)

lemma triple_fix:
  assumes "\<And>T. triple (tracker_is T) m Q" and "keeps P m"
  shows "triple P m Q"
  using assms by (auto simp: triple_def tracker_is_def keeps_def)

lemma keeps_mono: "kernel_blind P \<Longrightarrow> keeps P (mono_secs os)"
  unfolding mono_secs_def by (rule keeps_kernel)

lemma keeps_ctx: "kernel_blind P \<Longrightarrow> keeps P (build_relock_ctx os s)"
  unfolding build_relock_ctx_def by (intro keeps_intros keeps_kernel; assumption)

section \<open>The sources\<close>

fun source_ok :: "fnmatch \<Rightarrow> RuleSet \<Rightarrow> event_source \<Rightarrow> bool" where
  "source_ok fnm R (SrcEbpf s) = ((\<exists>rs. es_rules s = Some rs \<and> rules_of fnm R rs) \<and> forks_ok (es_pending s))"
| "source_ok fnm R (SrcProc s) = ((\<exists>rs. so_rules s = Some rs \<and> rules_of fnm R rs) \<and> queue_ok (so_pending s))"

text \<open>What a change of the configuration needs of the source: only the bound of the queue.\<close>

fun queues_ok :: "event_source \<Rightarrow> bool" where
  "queues_ok (SrcEbpf s) = True"
| "queues_ok (SrcProc s) = queue_ok (so_pending s)"

lemma source_queues: "source_ok fnm R src \<Longrightarrow> queues_ok src"
  by (cases src) auto

lemma rules_of_self: "cache_ok fnm R \<Longrightarrow> rules_of fnm R R"
  by (simp add: rules_of_def)

lemma config_changed_ok:
  assumes "kernel_blind P" and "cache_ok fnm R" and "queues_ok src"
  shows "triple P (source_config_changed env R src) (source_ok fnm R)"
proof (cases src)
  case (SrcEbpf s)
  have "keeps P (update_whitelist (en_bpf env) pkgs)" for pkgs
    unfolding update_whitelist_def by (intro keeps_intros keeps_kernel assms(1))
  then show ?thesis
    unfolding SrcEbpf source_config_changed.simps ebpf_on_config_changed_def
    by (intro triple_bind [OF triple_bind [OF triple_any, where Q = "\<lambda>s'. es_rules s' = Some R \<and> es_pending s' = []"]]
        triple_return) (simp_all add: forks_ok_def rules_of_self assms(2))
next
  case (SrcProc s)
  then show ?thesis
    using assms by (auto intro!: triple_return simp: proc_on_config_changed_def rules_of_self)
qed

lemma ebpf_poll_keeps: "kernel_blind P \<Longrightarrow> keeps P (ebpf_poll os eb fnm d s)"
  unfolding ebpf_poll_def initial_scan_def initial_entry_def ebpf_drain_def handle_raw_def
    ebpf_flush_pending_def flush_one_def split_fork_def retry_or_drop_def now_instant_def
  by (intro keeps_intros keeps_kernel keeps_tracked recv_any sleep_any triple_keeps [OF sync_any]; assumption)

lemma proc_poll_keeps: "kernel_blind P \<Longrightarrow> keeps P (proc_poll os fnm d s)"
  unfolding proc_poll_def collect_def proc_flush_pending_def proc_flush_one_def scan_round_def full_entry_def
    incremental_one_def exit_events_def queue_pending_def new_tids_for_def now_instant_def
  by (intro keeps_intros keeps_kernel sleep_any; assumption)

lemma source_poll_keeps: "kernel_blind P \<Longrightarrow> keeps P (source_poll env d src)"
  by (cases src) (auto intro!: keeps_intros ebpf_poll_keeps proc_poll_keeps)

lemma source_poll_sound:
  assumes "source_ok fnm R src" and "fnm = en_fnm env"
  shows "triple (tracker_is T) (source_poll env d src)
    (\<lambda>r. source_ok fnm R (fst r) \<and> events_sound fnm R T (snd r))"
proof (cases src)
  case (SrcEbpf s)
  then have inv: "source_inv fnm R T (s, [])" using assms(1) by (simp add: source_inv_def)
  show ?thesis
    unfolding SrcEbpf source_poll.simps assms(2) [symmetric]
    by (intro triple_bind [OF ebpf_poll_sound [OF inv]] triple_return) (auto simp: source_inv_def)
next
  case (SrcProc s)
  then obtain rs where rs: "so_rules s = Some rs" "rules_of fnm R rs" "queue_ok (so_pending s)"
    using assms(1) by auto
  have poll: "triple (tracker_is T) (proc_poll os fnm d s)
      (\<lambda>r. source_ok fnm R (SrcProc (fst r)) \<and> events_sound fnm R T (snd r))" for os :: "'a os"
    unfolding proc_poll_def
    by (intro triple_bind [OF collect_sound [OF rs]] triple_bind [OF triple_any] keeps_intros sleep_any
        tracker_is_blind triple_return) auto
  show ?thesis
    unfolding SrcProc source_poll.simps assms(2) [symmetric]
    by (intro triple_bind [OF poll] triple_return) auto
qed

section \<open>The store\<close>

definition store_ok :: "fnmatch \<Rightarrow> CpuTopology \<Rightarrow> ConfigStore \<Rightarrow> bool" where
  "store_ok fnm topo st \<longleftrightarrow> ruleset_ok topo (rules (snapshot st)) \<and> cache_ok fnm (rules (snapshot st)) \<and>
     store_topo st = topo"

lemma reload_ok:
  assumes "store_ok fnm topo st" and "wf_cpuset (present_cpus topo)"
  shows "gives (\<lambda>r. store_ok fnm topo (snd r)) (reload os kdl_doc st)"
proof -
  have "wf_cpuset (present_cpus (store_topo st))" using assms by (simp add: store_ok_def)
  from load_rules_ok [OF this, of fnm os kdl_doc "store_file st"] show ?thesis
    using assms unfolding reload_def Let_def
    by (intro gives_bind [OF load_rules_ok] gives_return) (auto simp: store_ok_def split: sum.splits)
qed

lemma store_new_ok:
  assumes "wf_cpuset (present_cpus topo)"
  shows "gives (\<lambda>r. \<forall>st. r = Inr st \<longrightarrow> store_ok fnm topo st) (store_new os kdl_doc path topo)"
  unfolding store_new_def
  by (intro gives_bind [OF load_rules_ok [OF assms, of fnm]] gives_return) (auto simp: store_ok_def split: sum.splits)

section \<open>Reloading\<close>

lemma do_reload_ok:
  assumes "store_ok (en_fnm env) topo0 st" and "source_ok (en_fnm env) R src"
  shows "triple (sound_world (en_fnm env) R0) (do_reload env topo de rx st src)
    (\<lambda>r. source_ok (en_fnm env) (rules (current st)) (fst r))"
proof -
  have cfg: "cache_ok (en_fnm env) (rules (current st))" using assms(1) by (simp add: store_ok_def current_def)
  show ?thesis
    unfolding do_reload_def Let_def
    by (intro triple_bind [OF config_changed_ok [OF sound_blind cfg source_queues [OF assms(2)]]]
        triple_bind [OF triple_any [OF sound_inv.keeps_retain]] triple_bind [OF triple_any [OF keeps_mono [OF sound_blind]]]
        triple_bind [OF triple_any [OF keeps_swapped_relock]] triple_return) simp
qed

definition answer_ok :: "fnmatch \<Rightarrow> CpuTopology \<Rightarrow> ipc_result \<Rightarrow> bool" where
  "answer_ok fnm topo r \<longleftrightarrow> store_ok fnm topo (fst (snd r)) \<and> (\<exists>R. source_ok fnm R (snd (snd r)))"

lemma ipc_reload_ok:
  assumes "store_ok (en_fnm env) topo st" and "wf_cpuset (present_cpus topo)" and "source_ok (en_fnm env) R src"
  shows "triple (sound_world (en_fnm env) R0) (ipc_reload env topo de rx good bad st src) (answer_ok (en_fnm env) topo)"
  unfolding ipc_reload_def
proof (rule triple_bind [OF triple_kern [OF sound_blind reload_ok [OF assms(1,2)]]])
  fix r :: "(load_error + u64) \<times> ConfigStore"
  assume st: "store_ok (en_fnm env) topo (snd r)"
  have "triple (sound_world (en_fnm env) R0) (do {
      x \<leftarrow> do_reload env topo de rx (snd r) src; ret (good v (snd x), snd r, fst x) }) (answer_ok (en_fnm env) topo)" for v
    by (intro triple_bind [OF do_reload_ok [OF st assms(3)]] triple_return) (use st in \<open>auto simp: answer_ok_def\<close>)
  with st assms(3) show "triple (sound_world (en_fnm env) R0) (case fst r of Inl e \<Rightarrow> ret (bad e, snd r, src)
      | Inr v \<Rightarrow> do { x \<leftarrow> do_reload env topo de rx (snd r) src; ret (good v (snd x), snd r, fst x) })
      (answer_ok (en_fnm env) topo)"
    by (auto intro!: triple_return simp: answer_ok_def split: sum.splits)
qed

lemma ipc_scene_ok:
  assumes "store_ok (en_fnm env) topo st" and "wf_cpuset (present_cpus topo)" and "source_ok (en_fnm env) R src"
  shows "triple (sound_world (en_fnm env) R0) (ipc_scene env topo de rx cfg name st src) (answer_ok (en_fnm env) topo)"
proof -
  have same: "answer_ok (en_fnm env) topo (r, st, src)" for r using assms by (auto simp: answer_ok_def)
  have "triple (sound_world (en_fnm env) R0) (case x of Inl e \<Rightarrow> ret (SceneRefused e, st, src)
      | Inr new_content \<Rightarrow> do {
          ok \<leftarrow> on_kern (sys (os_write_file (en_os env) (config_file cfg) new_content));
          if \<not> ok then ret (SceneUnwritable, st, src)
          else ipc_reload env topo de rx (SceneReply name) SceneReloadFailed st src }) (answer_ok (en_fnm env) topo)" for x
    by (cases x) (auto intro!: triple_intros sound_blind same ipc_reload_ok [OF assms])
  then show ?thesis
    unfolding ipc_scene_def by (intro triple_intros sound_blind same)
qed

lemma ipc_reads:
  assumes "kernel_blind P"
  shows "keeps P (ipc_status os cfg)" "keeps P (ipc_dump os p)" "keeps P (ipc_tune os knd v)"
  unfolding ipc_status_def ipc_dump_def ipc_tune_def Let_def
  by (intro keeps_intros keeps_kernel assms)+

lemma handle_ipc_ok:
  assumes "store_ok (en_fnm env) topo st" and "wf_cpuset (present_cpus topo)" and "source_ok (en_fnm env) R src"
  shows "triple (sound_world (en_fnm env) R0) (handle_ipc env topo de cfg win rx req st src) (answer_ok (en_fnm env) topo)"
proof -
  have keep: "triple (sound_world (en_fnm env) R0) (do { reply \<leftarrow> m; ret (reply, st, src) }) (answer_ok (en_fnm env) topo)"
    if "keeps (sound_world (en_fnm env) R0) m" for m
    by (rule triple_bind [OF triple_any [OF that] triple_return]) (use assms in \<open>auto simp: answer_ok_def\<close>)
  show ?thesis
    unfolding handle_ipc_def Let_def
    by (cases req; simp only: IpcRequest.case)
      (intro keep ipc_reads [OF sound_blind] ipc_reload_ok [OF assms] ipc_scene_ok [OF assms]
        keeps_intros keeps_mono sound_blind sound_inv.keeps_relock_all)+
qed

section \<open>The loop\<close>

definition loop_ok :: "'k env \<Rightarrow> loop \<Rightarrow> bool" where
  "loop_ok env lp \<longleftrightarrow>
     topo_ok (lp_topo lp) \<and> store_ok (en_fnm env) (lp_topo lp) (lp_store lp) \<and>
     ruleset_ok (lp_topo lp) (rules (lp_cfg lp)) \<and> cache_ok (en_fnm env) (rules (lp_cfg lp)) \<and>
     (\<exists>R. source_ok (en_fnm env) R (lp_source lp)) \<and> adaptive_ok (lp_adaptive lp) \<and>
     window_ok (lp_window lp) \<and> cooldown_ms (lp_guard lp) = 1000 \<and> 1 \<le> lp_scan lp"

definition loop_world :: "'k env \<Rightarrow> loop \<Rightarrow> 'k world \<Rightarrow> bool" where
  "loop_world env lp = sound_world (en_fnm env) (rules (lp_cfg lp))"

text \<open>What a phase other than the top one keeps.\<close>

definition phase_ok :: "'k env \<Rightarrow> loop \<Rightarrow> ('k world, loop) state \<Rightarrow> bool" where
  "phase_ok env lp m = triple (loop_world env lp) m (\<lambda>lp'. loop_ok env lp' \<and> lp_cfg lp' = lp_cfg lp)"

lemma topo_wf: "topo_ok t \<Longrightarrow> wf_cpuset (present_cpus t)"
  by (simp add: topo_ok_def)

lemma loop_blind: "kernel_blind (loop_world env lp)"
  unfolding loop_world_def by (rule sound_blind)

lemma keeps_relock_now: "keeps (sound_world (en_fnm env) R) (relock_now env lp)"
  unfolding relock_now_def by (intro keeps_intros keeps_ctx sound_blind sound_inv.keeps_relock_all)

lemma triple_list:
  "(xs = [] \<Longrightarrow> triple P m Q) \<Longrightarrow> (\<And>y ys. xs = y # ys \<Longrightarrow> triple P (f y ys) Q) \<Longrightarrow>
   triple P (case xs of [] \<Rightarrow> m | y # ys \<Rightarrow> f y ys) Q"
  by (cases xs) auto

lemma loop_okD:
  assumes "loop_ok env lp"
  shows "store_ok (en_fnm env) (lp_topo lp) (lp_store lp)" "wf_cpuset (present_cpus (lp_topo lp))"
    "\<exists>R. source_ok (en_fnm env) R (lp_source lp)"
  using assms by (auto simp: loop_ok_def topo_ok_def)

lemma phase_pc [simp]: "loop_ok env (lp\<lparr>lp_pc := p\<rparr>) = loop_ok env lp" "loop_world env (lp\<lparr>lp_pc := p\<rparr>) = loop_world env lp"
  by (simp_all add: loop_ok_def loop_world_def)

lemma request_ok:
  assumes "loop_ok env lp"
  shows "phase_ok env lp (request_phase env lp)"
proof -
  obtain R where src: "source_ok (en_fnm env) R (lp_source lp)" using loop_okD(3) [OF assms] by blast
  show ?thesis
    unfolding phase_ok_def request_phase_def loop_world_def
    by (intro triple_list triple_bind [OF triple_any [OF keeps_ctx [OF sound_blind]]] triple_return
        triple_bind [OF handle_ipc_ok [OF loop_okD(1,2) [OF assms] src]])
      (use assms in \<open>auto simp: loop_ok_def answer_ok_def split: prod.splits\<close>)
qed

lemma reload_phase_ok:
  assumes "loop_ok env lp"
  shows "phase_ok env lp (reload_phase env lp)"
proof -
  obtain R where src: "source_ok (en_fnm env) R (lp_source lp)" using loop_okD(3) [OF assms] by blast
  show ?thesis
    unfolding phase_ok_def reload_phase_def loop_world_def
    by (intro triple_list triple_bind [OF triple_any [OF keeps_ctx [OF sound_blind]]] triple_return
        triple_bind [OF do_reload_ok [OF loop_okD(1) [OF assms] src]])
      (use assms in \<open>auto simp: loop_ok_def\<close>)
qed

lemma guarded_ok:
  assumes "loop_ok env lp"
  shows "phase_ok env lp (guarded_relock env lp)"
  unfolding phase_ok_def guarded_relock_def loop_world_def now_instant_def
  by (intro triple_intros sound_blind triple_bind [OF triple_any [OF keeps_relock_now]])
    (use assms in \<open>auto simp: loop_ok_def try_lock_def split: if_splits\<close>)

lemma keeps_coverage: "kernel_blind P \<Longrightarrow> keeps P (sample_coverage os base)"
  unfolding sample_coverage_def by (intro keeps_intros keeps_kernel; assumption)

lemma coverage_ok:
  assumes "loop_ok env lp"
  shows "phase_ok env lp (coverage_phase env lp)"
proof -
  have step: "triple (sound_world (en_fnm env) (rules (lp_cfg lp))) (guarded_relock env lp') (\<lambda>l. loop_ok env l \<and> lp_cfg l = lp_cfg lp)"
    if "loop_ok env lp'" "lp_cfg lp' = lp_cfg lp" for lp'
    using guarded_ok [OF that(1)] that(2) by (simp add: phase_ok_def loop_world_def)
  show ?thesis
    unfolding phase_ok_def coverage_phase_def loop_world_def
    by (intro triple_intros triple_bind [OF triple_any [OF keeps_coverage [OF sound_blind]]] step)
      (use assms in \<open>auto simp: loop_ok_def observe_ratio_ok\<close>)
qed

lemma periodic_ok:
  assumes "loop_ok env lp"
  shows "phase_ok env lp (periodic_phase env lp)"
  using assms guarded_ok [of env "lp\<lparr>lp_pc := PObserve\<rparr>"]
  unfolding phase_ok_def periodic_phase_def Let_def by (auto intro!: triple_intros)

lemma sampler_loads:
  assumes "kernel_blind P"
  shows "triple P (sampler_sample os order sp) (\<lambda>r. \<forall>s \<in> set (snd r). load_pct s \<le> 100)"
proof -
  let ?I = "\<lambda>r. \<forall>s \<in> set (snd r). load_pct s \<le> 100"
  have "?I acc \<Longrightarrow> gives ?I (sample_thread os allowed tid acc)" for allowed tid acc
    unfolding sample_thread_def Let_def by (intro gives_intros) (auto simp: load_of_le)
  then have "?I acc \<Longrightarrow> gives ?I (sample_process os order ps acc)" for ps acc
    unfolding sample_process_def by (intro gives_bind_any gives_foldM)
  then have "gives ?I (foldM (sample_process os order) ps (sp, []))" for ps
    by (intro gives_foldM) simp_all
  then show ?thesis
    unfolding sampler_sample_def by (intro triple_intros triple_kern assms)
qed

lemma observe_ok':
  assumes "loop_ok env lp"
  shows "phase_ok env lp (observe_phase env lp)"
  unfolding phase_ok_def observe_phase_def loop_world_def
  by (intro triple_intros triple_bind [OF sampler_loads [OF sound_blind]])
    (use assms in \<open>auto simp: loop_ok_def push_batch_ok\<close>)

lemma retain_window: "window_ok w \<Longrightarrow> window_ok (window_retain alive w)"
  by (auto simp: window_ok_def window_retain_def)

lemma cleanup_ok:
  assumes "loop_ok env lp"
  shows "phase_ok env lp (cleanup_phase env lp)"
  unfolding phase_ok_def cleanup_phase_def loop_world_def
  by (intro triple_intros triple_bind [OF triple_any [OF sound_inv.keeps_cleanup]])
    (use assms in \<open>auto simp: loop_ok_def retain_window\<close>)

lemma poll_ok:
  assumes "loop_ok env lp"
  shows "phase_ok env lp (poll_phase env lp)"
proof -
  obtain R where src: "source_ok (en_fnm env) R (lp_source lp)" using loop_okD(3) [OF assms] by blast
  have "triple (tracker_is T) (source_poll env d (lp_source lp)) (\<lambda>r. source_ok (en_fnm env) R (fst r))" for T d
    by (rule triple_weaken [OF source_poll_sound [OF src refl]]) simp
  note poll = triple_fix [OF this source_poll_keeps [OF loop_blind]]
  have handle: "keeps (loop_world env lp) (if b then handle_events (en_os env) (en_fnm env) topo now evs else ret 0)"
    for b topo now evs
    unfolding loop_world_def by (intro keeps_intros sound_inv.keeps_handle_events)
  have nap: "keeps (loop_world env lp) (unless b (on_kern m))" for b m
    by (intro keeps_intros keeps_kernel loop_blind)
  show ?thesis
    unfolding phase_ok_def poll_phase_def now_instant_def
    by (intro triple_intros loop_blind triple_bind [OF poll] triple_bind [OF triple_any [OF nap]]
        triple_bind [OF triple_any [OF handle]])
      (use assms in \<open>auto simp: loop_ok_def\<close>)
qed

lemma context_ok:
  assumes "loop_ok env lp"
  shows "phase_ok env lp (context_phase env lp)" "phase_ok env lp (foreground_phase env lp)"
    "phase_ok env lp (ret (audit_phase lp))"
  unfolding phase_ok_def context_phase_def foreground_phase_def audit_phase_def now_instant_def Let_def
  by (intro triple_intros loop_blind; use assms in \<open>auto simp: loop_ok_def\<close>)+

lemma phase_run_ok:
  assumes "loop_ok env lp" and "p \<noteq> PTop"
  shows "phase_ok env lp (phase_run env p lp)"
proof -
  have "phase_ok env lp (ret lp)" using assms(1) by (simp add: phase_ok_def triple_return)
  with assms show ?thesis
    by (cases p) (auto intro: request_ok reload_phase_ok coverage_ok periodic_ok observe_ok' cleanup_ok poll_ok context_ok)
qed

definition daemon_ok :: "'k env \<Rightarrow> loop \<Rightarrow> 'k world \<Rightarrow> bool" where
  "daemon_ok env lp w \<longleftrightarrow> loop_ok env lp \<and> loop_world env lp w"

lemma loop_world_cfg: "lp_cfg lp' = lp_cfg lp \<Longrightarrow> loop_world env lp' = loop_world env lp"
  by (simp add: loop_world_def)

lemma phase_ends: "phase_ok env lp m \<Longrightarrow> ends (loop_world env lp) m (daemon_ok env)"
  unfolding phase_ok_def daemon_ok_def by (erule ends_triple) (simp add: loop_world_def)

definition base_world :: "'k world \<Rightarrow> bool" where
  "base_world w \<longleftrightarrow> refs_ok w \<and> audit_bounded w"

lemma base_blind: "kernel_blind base_world"
  by (simp add: kernel_blind_def base_world_def refs_ok_def audit_bounded_def)

lemma enter_rules:
  assumes "base_world w" and "cache_ok fnm R"
  shows "sound_world fnm R (w\<lparr>cfg_rules := R\<rparr>)"
  using assms by (simp add: sound_world_def base_world_def refs_ok_def audit_bounded_def same_rules_def)

lemma sound_base: "sound_world fnm R w \<Longrightarrow> base_world w"
  by (simp add: sound_world_def base_world_def)

lemma top_ends:
  assumes "loop_ok env lp"
  shows "ends (loop_world env lp) (top_phase env lp) (daemon_ok env)"
proof -
  let ?cfg = "current (lp_store lp)"
  have cfg: "ruleset_ok (lp_topo lp) (rules ?cfg)" "cache_ok (en_fnm env) (rules ?cfg)"
    using assms by (simp_all add: loop_ok_def store_ok_def current_def)
  have "ends (loop_world env lp) (do {
      now \<leftarrow> mono_secs (en_os env);
      _ \<leftarrow> modify (\<lambda>w. w\<lparr>cfg_rules := rules ?cfg\<rparr>);
      ret (lp\<lparr>lp_now := now, lp_cfg := ?cfg, lp_pc := PRequests\<rparr>) }) (daemon_ok env)"
  proof (rule ends_bind [OF triple_any [OF keeps_mono [OF loop_blind]]], rule ends_modify, rule enter_rules)
    show "ends (sound_world (en_fnm env) (rules ?cfg))
      (ret (lp\<lparr>lp_now := now, lp_cfg := ?cfg, lp_pc := PRequests\<rparr>)) (daemon_ok env)" for now
      using assms cfg by (intro ends_return) (simp add: daemon_ok_def loop_world_def loop_ok_def)
  qed (use cfg in \<open>auto simp: loop_world_def sound_base\<close>)
  moreover have "ends (loop_world env lp) (ret (lp\<lparr>lp_pc := PStopped\<rparr>)) (daemon_ok env)"
    using assms by (intro ends_return) (simp add: daemon_ok_def)
  ultimately show ?thesis unfolding top_phase_def Let_def by simp
qed

lemma phase_run_ends:
  assumes "loop_ok env lp"
  shows "ends (loop_world env lp) (phase_run env p lp) (daemon_ok env)"
  using top_ends [OF assms] phase_ends [OF phase_run_ok [OF assms, of p]] by (cases "p = PTop") auto

section \<open>The other threads\<close>

lemma hot_run_ends:
  assumes "loop_ok env lp"
  shows "ends (loop_world env lp) (hot_run env waited mtime lp) (daemon_ok env)"
proof -
  let ?good = "\<lambda>r. store_ok (en_fnm env) (lp_topo lp) (hot_store (fst r))"
  have now: "gives ?good (hot_reload_now os kdl_doc (h\<lparr>last_mtime := m\<rparr>))" if "hot_store h = lp_store lp" for os kdl_doc h m
    unfolding hot_reload_now_def using that
    by (intro gives_bind [OF reload_ok [where topo = "lp_topo lp" and fnm = "en_fnm env"]] gives_return)
      (auto simp: loop_okD [OF assms])
  have "gives ?good (hot_step os kdl_doc waited mtime (hot_of lp))" for os kdl_doc
    using loop_okD(1) [OF assms] now [of "hot_of lp" os kdl_doc "last_mtime (hot_of lp)"] now [of "hot_of lp" os kdl_doc mtime]
    unfolding hot_step_def by (auto intro!: gives_intros simp: hot_of_def split: wait_result.splits)
  from triple_kern [OF loop_blind this] have "triple (loop_world env lp) (hot_run env waited mtime lp)
      (\<lambda>lp'. loop_ok env lp' \<and> lp_cfg lp' = lp_cfg lp)"
    unfolding hot_run_def
    by (rule triple_bind) (use assms in \<open>auto intro!: triple_return simp: loop_ok_def hot_put_def\<close>)
  from phase_ends [unfolded phase_ok_def, OF this] show ?thesis .
qed

lemma step_ok:
  assumes "daemon_ok env lp w" and "daemon_step env (lp, w) (lp', w')"
  shows "daemon_ok env lp' w'"
  using assms(2)
proof (cases rule: daemon_step.cases)
  case main
  then show ?thesis
    using assms(1) phase_run_ends [of env lp "lp_pc lp"]
    by (simp add: main_step_def daemon_ok_def [of env lp] ends_def) (metis fst_conv snd_conv)
next
  case (hot waited mtime)
  then show ?thesis
    using assms(1) hot_run_ends [of env lp waited mtime]
    by (simp add: daemon_ok_def [of env lp] ends_def) (metis fst_conv snd_conv)
next
  case (kernel k)
  then show ?thesis
    using assms(1) loop_blind [of env lp] by (simp add: daemon_ok_def kernel_blind_def)
qed (use assms(1) in \<open>simp_all add: daemon_ok_def loop_ok_def loop_world_def\<close>)

section \<open>Startup\<close>

lemma parse_args_scan:
  "parse_args as o1 = Inr o' \<Longrightarrow> 1 \<le> opt_scan o1 \<Longrightarrow> 1 \<le> opt_scan o'"
proof (induction as o1 rule: parse_args.induct)
  case (2 a as o1)
  have pos: "parse_u64 v = Some n \<Longrightarrow> 1 \<le> n \<Longrightarrow> (1 :: u64) \<le> of_nat n" for v n
    using parse_unsigned_bound [of "2 ^ 64" v n]
    by (simp add: parse_u64_def word_le_nat_alt unat_of_nat)
  show ?case
  proof (cases "a = ''-s''")
    case True
    with "2.prems" obtain v vs n where v: "as = v # vs" "parse_u64 v = Some n" "1 \<le> n"
      "parse_args vs (o1\<lparr>opt_scan := of_nat n\<rparr>) = Inr o'"
      by (auto split: list.splits option.splits if_splits)
    from "2.IH"(2) [OF _ True v(1,2,3,4)] pos [OF v(2,3)] True show ?thesis by simp
  next
    case False
    show ?thesis
    proof (cases "a = ''-c''")
      case True
      with "2.prems" obtain v vs where "as = v # vs" "parse_args vs (o1\<lparr>opt_config := v\<rparr>) = Inr o'"
        by (auto split: list.splits)
      with "2.IH"(1) [OF True this] "2.prems"(2) show ?thesis by simp
    next
      case other: False
      show ?thesis
        using "2.IH"(3,4) "2.prems" False other by (simp split: if_splits)
    qed
  qed
qed simp

lemma choose_source_ok:
  assumes "kernel_blind P" and "cache_ok (en_fnm env) R"
  shows "triple P (choose_source env R) (source_ok (en_fnm env) R)"
  unfolding choose_source_def
  by (intro triple_intros assms config_changed_ok)
    (auto simp: proc_new_def queue_ok_def split: sum.splits)

lemma keeps_tune_start: "kernel_blind P \<Longrightarrow> keeps P (tune_at_start env path)"
  unfolding tune_at_start_def by (intro keeps_intros keeps_kernel; assumption)

lemma boot_ok:
  assumes "topo_ok topo" and "store_ok (en_fnm env) topo st" and "1 \<le> opt_scan o'"
  shows "triple (sound_world (en_fnm env) (rules (current st))) (boot_loop env o' topo st)
    (\<lambda>lp. loop_ok env lp \<and> lp_cfg lp = current st)"
proof -
  have "cache_ok (en_fnm env) (rules (current st))" using assms(2) by (simp add: store_ok_def current_def)
  note src = choose_source_ok [OF sound_blind this]
  show ?thesis
    unfolding boot_loop_def mono_secs_def now_instant_def Let_def
    by (intro triple_bind [OF triple_any [OF keeps_kernel [OF sound_blind]]]
        triple_bind [OF triple_any [OF keeps_tune_start [OF sound_blind]]] triple_bind [OF src] triple_return)
      (use assms in \<open>auto simp: loop_ok_def store_ok_def current_def from_initial_ok window_ok_def
         window_new_def set_cooldown_def\<close>)
qed

definition starts_ok :: "'k env \<Rightarrow> startup \<Rightarrow> 'k world \<Rightarrow> bool" where
  "starts_ok env r w \<longleftrightarrow> (\<forall>lp. r = StartLoop lp \<longrightarrow> daemon_ok env lp w)"

lemma starts_other: "ends P (ret (StartExit c)) (starts_ok env)" "ends P (ret (StartCli s)) (starts_ok env)"
  by (simp_all add: ends_return starts_ok_def)

lemma start_loaded_ends:
  assumes "topo_ok topo" and "\<forall>st. r = Inr st \<longrightarrow> store_ok (en_fnm env) topo st" and "1 \<le> opt_scan o'"
  shows "ends base_world (start_loaded env o' topo r) (starts_ok env)"
proof -
  have "ends base_world (do {
      _ \<leftarrow> modify (\<lambda>w. w\<lparr>cfg_rules := rules (current st)\<rparr>);
      lp \<leftarrow> boot_loop env o' topo st;
      ret (StartLoop lp) }) (starts_ok env)" if st: "store_ok (en_fnm env) topo st" for st
  proof (rule ends_modify, erule enter_rules)
    show "cache_ok (en_fnm env) (rules (current st))" using st by (simp add: store_ok_def current_def)
    show "ends (sound_world (en_fnm env) (rules (current st)))
        (do { lp \<leftarrow> boot_loop env o' topo st; ret (StartLoop lp) }) (starts_ok env)"
      by (rule ends_bind [OF boot_ok [OF assms(1) st assms(3)]], rule ends_return)
        (simp add: starts_ok_def daemon_ok_def loop_world_def)
  qed
  then show ?thesis
    using assms(2) unfolding start_loaded_def by (cases r) (auto intro: starts_other)
qed

lemma start_options_ends:
  assumes "1 \<le> opt_scan o'"
  shows "ends base_world (start_options env o') (starts_ok env)"
proof -
  have template: "keeps base_world (if b then ret True else on_kern m)" for b and m :: "('a, bool) state"
    by (intro keeps_intros keeps_kernel base_blind)
  show ?thesis
    unfolding start_options_def
    by (intro ends_bind [OF triple_any [OF keeps_kernel [OF base_blind]]] ends_bind [OF triple_any [OF template]]
        ends_bind [OF triple_kern [OF base_blind init_cpu_topo_ok]]
        ends_bind [OF triple_kern [OF base_blind store_new_ok [OF topo_wf, where fnm = "en_fnm env"]]]
        start_loaded_ends assms)
qed

lemma daemon_start_ok: "ends base_world (daemon_start env args) (starts_ok env)"
proof -
  have "1 \<le> opt_scan o'" if "parse_args args options_default = Inr o'" for o'
    using parse_args_scan [OF that] by (simp add: options_default_def)
  then show ?thesis
    unfolding daemon_start_def by (auto intro: starts_other start_options_ends split: sum.splits)
qed

lemma new_world_ok: "base_world (world_new k)"
  by (simp add: base_world_def world_new_def refs_ok_def tracker_new_def procs_ok_def refs_match_def
      holders_def audit_bounded_def)

lemma reachable_ok:
  assumes "reachable env c"
  shows "daemon_ok env (fst c) (snd c)"
  using assms
proof induction
  case (started args k lp w)
  with daemon_start_ok [of env args] new_world_ok [of k] show ?case
    by (auto simp: ends_def starts_ok_def dest!: spec [of _ "world_new k"])
next
  case (stepped c c')
  then show ?case by (cases c; cases c') (auto intro: step_ok)
qed

end
