(* ===== verification/Reload_Facts.thy ===== *)
theory Reload_Facts
  imports Daemon_Facts
begin

text \<open>
  What a reload leaves of the tracked processes: only those whose package is in the list of the
  new configuration.
\<close>

section \<open>Packages of the tracked processes\<close>

text \<open>Every tracked process \<open>p\<close> has one of the packages \<open>S p\<close>.\<close>

definition listed :: "(pid \<Rightarrow> string set) \<Rightarrow> 'k world \<Rightarrow> bool" where
  "listed S w \<longleftrightarrow> (\<forall>p s. tracker_get p w = Some s \<longrightarrow> ps_pkg s \<in> S p)"

lemma listed_tracker: "tracker w' = tracker w \<Longrightarrow> listed S w' = listed S w"
  by (simp add: listed_def tracker_get_def)

lemma listed_world: "world_inv (listed S)"
  by unfold_locales (simp_all add: listed_def tracker_get_def)

interpretation listed_inv: world_inv "listed S" for S
  by (rule listed_world)

lemma listed_blind: "kernel_blind (listed S)"
  by (simp add: kernel_blind_def listed_inv.inv_kern)

lemma listed_rules: "keeps (listed S) (on_rules m)"
  by (rule keeps_on_rules) (simp add: listed_def tracker_get_def)

lemma listed_enter: "pkg \<in> S p \<Longrightarrow> keeps (listed S) (tracker_enter os p pkg now)"
proof -
  assume pkg: "pkg \<in> S p"
  have "ps_pkg s \<in> S q" if "listed S w" "tracker_get q (snd (run_state (tracker_enter os p pkg now) w)) = Some s" for w q s
    using that enter_pkg [OF that(2)] pkg by (auto simp: listed_def)
  then show ?thesis by (simp add: keeps_def listed_def)
qed

lemma listed_remove: "keeps (listed S) (tracker_remove os p)"
  by (simp add: keeps_def listed_def remove_get)

lemma listed_with:
  assumes "\<And>s. ps_pkg (f s) = ps_pkg s"
  shows "keeps (listed S) (with_proc p f)"
  unfolding with_proc_def
  by (rule keeps_modify) (auto simp: listed_def update_get assms split: option.split)

lemma set_refs_get: "tracker_get q (set_refs r v) = tracker_get q v"
  by (simp add: tracker_get_def set_refs_def)

lemma register_listed: "listed S w \<Longrightarrow> listed S (fold (register_dir p) dirs w)"
proof (induction dirs arbitrary: w)
  case (Cons d ds)
  from Cons.prems have "listed S (register_dir p d w)"
    by (auto simp: register_dir_def Let_def listed_def update_get set_refs_get split: option.splits if_splits)
  with Cons.IH show ?case by simp
qed simp

lemma listed_register: "keeps (listed S) (register_dirs p dirs)"
  unfolding register_dirs_def by (rule keeps_modify) (rule register_listed)

lemmas keeps_listed = listed_inv.keeps_kern listed_inv.keeps_apply_thread listed_rules listed_remove
  listed_register

section \<open>Relocking listed processes\<close>

lemma listed_refresh:
  assumes "pkg \<in> S p"
  shows "keeps (listed S) (refresh_process_rules os fnm topo p pkg now rt)"
  unfolding refresh_process_rules_def take_names_def scan_tid_def
  by (intro keeps_intros keeps_listed listed_enter [of pkg S p, OF assms] listed_with) simp_all

lemma keeps_gets_bind:
  "(\<And>w. P w \<Longrightarrow> keeps P (f (g w))) \<Longrightarrow> keeps P (State_Monad.bind (gets g) f)"
  by (simp add: keeps_def)

lemma listed_relock_one: "keeps (listed S) (relock_one os fnm topo now rx de rt p n)"
  unfolding relock_one_def
proof (rule keeps_gets_bind, rule keeps_option, rule keeps_return, goal_cases)
  case (1 w s)
  then have "ps_pkg s \<in> S p" by (auto simp: listed_def)
  then have "keeps (listed S) (case d of
      Allow _ \<Rightarrow> do { nd \<leftarrow> refresh_process_rules os fnm topo p (ps_pkg s) now rt;
                      _ \<leftarrow> register_dirs p (snd nd); ret (n + fst nd) }
    | _ \<Rightarrow> ret n)" for d
    by (cases d) (auto intro!: keeps_intros listed_refresh listed_register)
  moreover have "keeps (listed S) (bump_relock d)" for d
    unfolding bump_relock_def by (rule keeps_modify) (rule listed_inv.inv_stats)
  ultimately show ?case by (intro keeps_intros keeps_listed)
qed

lemma listed_relock: "keeps (listed S) (relock_all os fnm topo now rx de)"
  unfolding relock_all_def by (intro keeps_intros keeps_listed listed_relock_one)

lemma listed_with_rules: "keeps (listed S) m \<Longrightarrow> keeps (listed S) (with_rules rs m)"
  unfolding with_rules_def by (intro keeps_intros keeps_modify) (simp_all add: listed_def tracker_get_def)

section \<open>Reloads\<close>

lemma keeps_config_changed:
  assumes "kernel_blind P"
  shows "keeps P (source_config_changed env R src)"
  by (cases src)
    (auto simp: ebpf_on_config_changed_def update_whitelist_def intro!: keeps_intros keeps_kernel assms)

lemma refs_distinct: "refs_ok w \<Longrightarrow> distinct (tracker_pids w)"
  by (simp add: refs_ok_def procs_ok_def tracker_pids_def)

text \<open>What a process that was tracked may still have as its package.\<close>

definition origin :: "StateTracker \<Rightarrow> string set \<Rightarrow> pid \<Rightarrow> string set" where
  "origin T S p = {pkg \<in> S. \<exists>s. map_of (procs T) p = Some s \<and> ps_pkg s = pkg}"

definition fixed_refs :: "StateTracker \<Rightarrow> 'k world \<Rightarrow> bool" where
  "fixed_refs T w \<longleftrightarrow> refs_ok w \<and> tracker w = T"

lemma retain_listed: "ends (fixed_refs T) (retain_interested os S) (\<lambda>_. listed (origin T S))"
proof -
  have "ps_pkg s \<in> origin T S p"
    if "fixed_refs T w" "tracker_get p (snd (run_state (retain_interested os S) w)) = Some s" for w p s
  proof -
    have "distinct (tracker_pids w)" using that(1) by (intro refs_distinct) (simp add: fixed_refs_def)
    from that(2) [unfolded retain_get [OF this]] that(1) show ?thesis
      by (auto simp: origin_def fixed_refs_def tracker_get_def split: option.splits if_splits)
  qed
  then show ?thesis by (simp add: ends_def listed_def)
qed

lemma fixed_blind: "kernel_blind (fixed_refs T)"
  by (auto simp: kernel_blind_def fixed_refs_def refs_ok_def)

lemma reload_listed:
  "ends (fixed_refs T) (do_reload env topo de rx st src) (\<lambda>_. listed (origin T (set (pkg_list (rules (current st))))))"
  unfolding do_reload_def Let_def pkg_set_def
  by (rule ends_seq [OF ends_keeps [OF keeps_config_changed [OF fixed_blind]]], rule ends_seq [OF retain_listed],
      rule ends_keeps, intro keeps_intros keeps_mono listed_blind listed_with_rules listed_relock)

end
