(* ===== verification/Daemon_Frames.thy ===== *)
theory Daemon_Frames
  imports Daemon_Loop
begin

text \<open>
  What the steps of the daemon leave alone: the version of the store only grows, the guard of the
  relocks only moves after its cooldown, a request for information changes nothing but the
  kernel it asks, and every phase of the main loop brings the end of the round nearer.
\<close>

section \<open>Requests for information\<close>

text \<open>The world up to the kernel.\<close>

definition only_kernel :: "'k world \<Rightarrow> 'k world \<Rightarrow> bool" where
  "only_kernel w w' \<longleftrightarrow> (\<exists>k. w' = w\<lparr>kern := k\<rparr>)"

lemma only_kernel_refl: "only_kernel w w"
  unfolding only_kernel_def by (rule exI [of _ "kern w"]) simp

lemma keeps_only_kernel: "keeps (only_kernel w) (on_kern m)"
  unfolding on_kern_def by (rule keeps_zoom) (auto simp: only_kernel_def)

fun informs :: "IpcRequest \<Rightarrow> bool" where
  "informs Status = True"
| "informs (Dump _) = True"
| "informs (Snapshot _) = True"
| "informs _ = False"

lemma informs_keeps:
  assumes "informs req"
  shows "keeps (only_kernel w) (handle_ipc env topo de cfg win rx req st src)"
    and "gives (\<lambda>r. snd r = (st, src)) (handle_ipc env topo de cfg win rx req st src)"
  using assms
  by (cases req; simp only: handle_ipc_def Let_def IpcRequest.case informs.simps ipc_status_def ipc_dump_def;
      intro keeps_intros keeps_only_kernel gives_intros; simp)+

section \<open>The store\<close>

definition store_next :: "ConfigStore \<Rightarrow> ConfigStore \<Rightarrow> bool" where
  "store_next st st' \<longleftrightarrow> st' = st \<or>
     version (snapshot st') = version (snapshot st) + 1 \<and> store_file st' = store_file st \<and>
     store_topo st' = store_topo st"

lemma store_next_refl [simp]: "store_next st st"
  by (simp add: store_next_def)

lemma gives_weaken: "gives R m \<Longrightarrow> (\<And>x. R x \<Longrightarrow> Q x) \<Longrightarrow> gives Q m"
  by (simp add: gives_def)

lemma reload_next: "gives (\<lambda>r. store_next st (snd r)) (reload os kdl_doc st)"
  by (rule gives_weaken [OF reload_result]) (auto simp: reload_post_def store_next_def split: sum.splits)

lemma gives_kern: "gives Q m \<Longrightarrow> gives Q (on_kern m)"
  by (auto simp: gives_def on_kern_def split: prod.splits) (metis fst_conv)

lemma ipc_reload_next: "gives (\<lambda>r. store_next st (fst (snd r))) (ipc_reload env topo de rx good bad st src)"
  unfolding ipc_reload_def
  by (rule gives_bind [OF gives_kern [OF reload_next]]) (auto intro!: gives_intros split: sum.splits)

lemma handle_ipc_next:
  "gives (\<lambda>r. store_next st (fst (snd r))) (handle_ipc env topo de cfg win rx req st src)"
proof -
  have "gives (\<lambda>r. store_next st (fst (snd r))) (ipc_scene env topo de rx cfg name st src)" for name
    unfolding ipc_scene_def
    by (intro gives_intros) (auto intro!: gives_intros ipc_reload_next split: sum.splits)
  then show ?thesis
    unfolding handle_ipc_def Let_def
    by (cases req; simp only: IpcRequest.case)
      (auto intro!: gives_intros ipc_reload_next)
qed

section \<open>The guard\<close>

definition guard_next :: "RelockGuard \<Rightarrow> RelockGuard \<Rightarrow> bool" where
  "guard_next g g' \<longleftrightarrow> g' = g \<or> (\<exists>t. cooldown_ms g \<le> elapsed_ms t (last_at g) \<and> g' = g\<lparr>last_at := t\<rparr>)"

lemma guard_next_refl [simp]: "guard_next g g"
  by (simp add: guard_next_def)

lemma try_lock_next: "try_lock t g = (b, g') \<Longrightarrow> guard_next g g'"
  by (auto simp: try_lock_def guard_next_def split: if_splits)

section \<open>Phases\<close>

text \<open>How many steps of the main thread are left, at most, until the top of the loop is done.\<close>

definition steps_left :: "loop \<Rightarrow> nat" where
  "steps_left lp =
     (case lp_pc lp of
        PStopped \<Rightarrow> 0 | PPanicked \<Rightarrow> 0 | PTop \<Rightarrow> 1 | PAudit \<Rightarrow> 2 | PForeground \<Rightarrow> 3 | PContext \<Rightarrow> 4
      | PPoll \<Rightarrow> 5 | PCleanup \<Rightarrow> 6 | PObserve \<Rightarrow> 7 | PPeriodic \<Rightarrow> 8 | PCoverage \<Rightarrow> 9
      | PReloads \<Rightarrow> 10 + length (lp_reloads lp)
      | PRequests \<Rightarrow> 11 + length (lp_reloads lp) + length (lp_requests lp))"

text \<open>The requests and replies: none is handled, or the first request is.\<close>

definition queue_next :: "loop \<Rightarrow> loop \<Rightarrow> bool" where
  "queue_next lp lp' \<longleftrightarrow>
     lp_requests lp' = lp_requests lp \<and> lp_replies lp' = lp_replies lp \<or>
     (\<exists>q r. lp_requests lp = q # lp_requests lp' \<and> lp_replies lp' = lp_replies lp @ [(q, r)])"

definition frame :: "loop \<Rightarrow> loop \<Rightarrow> bool" where
  "frame lp lp' \<longleftrightarrow> store_next (lp_store lp) (lp_store lp') \<and> guard_next (lp_guard lp) (lp_guard lp') \<and>
     queue_next lp lp' \<and> lp_shutdown lp' = lp_shutdown lp \<and>
     (lp_shutdown lp \<or> lp_pc lp \<noteq> PTop \<longrightarrow> 0 < steps_left lp \<longrightarrow> steps_left lp' < steps_left lp)"

lemma guarded_frame:
  "gives (\<lambda>lp'. \<exists>g l. guard_next (lp_guard lp) g \<and> lp' = lp\<lparr>lp_guard := g, lp_last_lock := l\<rparr>)
    (guarded_relock env lp)"
proof -
  have "\<exists>g' l. guard_next (lp_guard lp) g' \<and> lp\<lparr>lp_guard := g\<rparr> = lp\<lparr>lp_guard := g', lp_last_lock := l\<rparr>"
    if "guard_next (lp_guard lp) g" for g
    using that by (intro exI [of _ g] exI [of _ "lp_last_lock lp"]) simp
  then show ?thesis
    unfolding guarded_relock_def
    by (intro gives_bind_any) (auto intro!: gives_intros dest: try_lock_next split: prod.splits)
qed

lemma phase_frame: "gives (frame lp) (phase_run env (lp_pc lp) lp)"
proof (cases "lp_pc lp")
  case PTop
  then show ?thesis
    by (auto simp: top_phase_def Let_def frame_def queue_next_def steps_left_def intro!: gives_intros)
next
  case PRequests
  have handled: "gives (frame lp) (do {
      r \<leftarrow> handle_ipc env (lp_topo lp) (lp_decision lp) (lp_cfg lp) (lp_window lp) rx req (lp_store lp) (lp_source lp);
      ret (case r of (reply, st, src) \<Rightarrow>
        lp\<lparr>lp_requests := reqs, lp_replies := lp_replies lp @ [(req, reply)], lp_store := st, lp_source := src\<rparr>) })"
    if "lp_requests lp = req # reqs" for rx req reqs
    by (rule gives_bind [OF handle_ipc_next], rule gives_return)
      (use PRequests that in \<open>auto simp: frame_def queue_next_def steps_left_def split: prod.splits\<close>)
  show ?thesis
  proof (cases "lp_requests lp")
    case Nil
    with PRequests show ?thesis
      by (auto simp: request_phase_def frame_def queue_next_def steps_left_def intro!: gives_return)
  next
    case (Cons req reqs)
    show ?thesis
      unfolding PRequests phase_run.simps request_phase_def Cons list.case
      by (rule gives_bind_any) (rule handled [OF Cons])
  qed
next
  case PCoverage
  have "gives (frame lp) (guarded_relock env lp')"
    if "lp_pc lp' = PPeriodic" "lp_guard lp' = lp_guard lp" "lp_store lp' = lp_store lp" "lp_shutdown lp' = lp_shutdown lp"
    "lp_requests lp' = lp_requests lp" "lp_replies lp' = lp_replies lp" for lp'
    by (rule gives_weaken [OF guarded_frame]) (use that PCoverage in \<open>auto simp: frame_def queue_next_def steps_left_def\<close>)
  with PCoverage show ?thesis
    by (auto simp: coverage_phase_def Let_def frame_def queue_next_def steps_left_def intro!: gives_intros)
next
  case PPeriodic
  then show ?thesis
    by (auto simp: periodic_phase_def Let_def frame_def queue_next_def steps_left_def
        intro!: gives_intros gives_weaken [OF guarded_frame])
qed (auto simp: reload_phase_def observe_phase_def cleanup_phase_def poll_phase_def context_phase_def
    foreground_phase_def audit_phase_def Let_def frame_def queue_next_def steps_left_def intro!: gives_intros split: list.splits)

lemma main_frame: "frame lp (fst (main_step env (lp, w)))"
  using givesD [OF phase_frame [of lp env], of w] by (simp add: main_step_def)

section \<open>Runs of the main thread\<close>

text \<open>After shutdown was requested, the round ends and the loop with it.\<close>

lemma shutdown_run:
  assumes "lp_shutdown lp"
  shows "\<exists>n \<le> steps_left lp. lp_pc (fst ((main_step env ^^ n) (lp, w))) \<in> {PStopped, PPanicked}"
  using assms
proof (induction "steps_left lp" arbitrary: lp w rule: less_induct)
  case less
  show ?case
  proof (cases "steps_left lp = 0")
    case True
    then have "lp_pc lp \<in> {PStopped, PPanicked}" by (auto simp: steps_left_def split: phase.splits)
    then show ?thesis by (intro exI [of _ 0]) simp
  next
    case False
    obtain lp' w' where step: "main_step env (lp, w) = (lp', w')" by (cases "main_step env (lp, w)")
    with main_frame [of lp env w] less.prems False have "lp_shutdown lp'" "steps_left lp' < steps_left lp"
      by (auto simp: frame_def)
    with less.hyps [of lp' w'] obtain n where "n \<le> steps_left lp'"
      "lp_pc (fst ((main_step env ^^ n) (lp', w'))) \<in> {PStopped, PPanicked}" by blast
    then show ?thesis
      using \<open>steps_left lp' < steps_left lp\<close> step
      by (intro exI [of _ "Suc n"]) (simp add: funpow_Suc_right del: funpow.simps)
  qed
qed

section \<open>Steps of the daemon\<close>

lemma hot_next: "gives (\<lambda>lp'. store_next (lp_store lp) (lp_store lp') \<and> lp_guard lp' = lp_guard lp) (hot_run env waited mtime lp)"
proof -
  have now: "gives (\<lambda>r. store_next (hot_store h) (hot_store (fst r))) (hot_reload_now os kdl_doc h)" for os kdl_doc h
    unfolding hot_reload_now_def by (rule gives_bind [OF reload_next], rule gives_return) simp
  have "gives (\<lambda>r. store_next (lp_store lp) (hot_store (fst r))) (hot_step os kdl_doc waited mtime (hot_of lp))"
    for os kdl_doc
    using now [of "hot_of lp" os kdl_doc] now [of "hot_of lp\<lparr>last_mtime := mtime\<rparr>" os kdl_doc]
    unfolding hot_step_def by (auto intro!: gives_intros simp: hot_of_def split: wait_result.splits)
  then show ?thesis
    unfolding hot_run_def by (rule gives_bind [OF gives_kern]) (auto intro!: gives_return simp: hot_put_def)
qed

lemma step_next:
  assumes "daemon_step env (lp, w) (lp', w')"
  shows "store_next (lp_store lp) (lp_store lp') \<and> guard_next (lp_guard lp) (lp_guard lp')"
  using assms
proof (cases rule: daemon_step.cases)
  case main
  then show ?thesis using main_frame [of lp env w] by (cases "main_step env (lp, w)") (simp add: frame_def)
next
  case (hot waited mtime)
  then show ?thesis
    using givesD [OF hot_next [of lp env waited mtime], of w] by (metis fst_conv guard_next_refl)
qed simp_all

end
