(* ===== verification/Tracking.thy ===== *)
theory Tracking
  imports Engine_Properties Reload_Facts Daemon_Frames
begin

text \<open>
  The daemon as a machine over the abstract view of the tracker (Engine_Spec): every phase of the
  main loop is one of three moves (\<open>rescanned\<close>, \<open>swept\<close>, a run of events) or leaves the view alone,
  and no other thread moves it.
\<close>

section \<open>Moves\<close>

text \<open>
  A relock or a reload: a process is forgotten, stays, or is scanned again, its scan time kept
  unless its identifier was reused. A cleanup: a process is forgotten or stays.
\<close>

definition scan_result :: "view \<Rightarrow> view \<Rightarrow> bool" where
  "scan_result v v' \<longleftrightarrow> v' = v \<or> (\<exists>tids. v' = with_tids (\<lambda>_. set tids) v \<or> v' = with_tids (\<lambda>_. set tids) fresh)"

definition rescanned :: "track \<Rightarrow> track \<Rightarrow> bool" where
  "rescanned m m' \<longleftrightarrow> (\<forall>p v'. m' p = Some v' \<longrightarrow> (\<exists>v. m p = Some v \<and> scan_result v v'))"

definition swept :: "track \<Rightarrow> track \<Rightarrow> bool" where
  "swept m m' \<longleftrightarrow> (\<forall>p. m' p = None \<or> m' p = m p)"

lemma scan_result_trans: "scan_result u v \<Longrightarrow> scan_result v x \<Longrightarrow> scan_result u x"
  by (auto simp: scan_result_def with_tids_def)

lemma rescanned_refl [simp]: "rescanned m m"
  by (simp add: rescanned_def scan_result_def)

lemma rescanned_trans: "rescanned m m1 \<Longrightarrow> rescanned m1 m2 \<Longrightarrow> rescanned m m2"
  unfolding rescanned_def by (meson scan_result_trans)

lemma swept_refl [simp]: "swept m m"
  by (simp add: swept_def)

lemma swept_trans: "swept m m1 \<Longrightarrow> swept m1 m2 \<Longrightarrow> swept m m2"
  unfolding swept_def by metis

lemma swept_rescanned: "swept m m' \<Longrightarrow> rescanned m m'"
  unfolding swept_def rescanned_def scan_result_def by (metis option.distinct(1))

text \<open>A computation makes moves of one kind when each of its runs does.\<close>

lemma rescans_keeps:
  assumes "\<And>w. rescanned (tracked w) (tracked (snd (run_state c w)))"
  shows "keeps (view_is (rescanned m)) c"
  using assms by (auto simp: keeps_def view_is_def intro: rescanned_trans)

lemma sweeps_keeps:
  assumes "\<And>w. swept (tracked w) (tracked (snd (run_state c w)))"
  shows "keeps (view_is (swept m)) c"
  using assms by (auto simp: keeps_def view_is_def intro: swept_trans)

lemma at_ends_rescanned:
  assumes "\<And>m. ends (at_view m) c (\<lambda>_. view_is (rescanned m))"
  shows "keeps (view_is (rescanned m)) c"
  using assms by (intro rescans_keeps) (simp add: ends_def at_view_iff view_is_def)

lemma view_is_blind: "kernel_blind (view_is Q)"
  by (simp add: kernel_blind_def view_is_def tracked_kern)

section \<open>Sweeps\<close>

lemma remove_swept: "swept (tracked w) (tracked (snd (run_state (tracker_remove os p) w)))"
  by (simp add: tracked_remove swept_def)

lemma sweep_remove: "keeps (view_is (swept m)) (tracker_remove os p)"
  by (rule sweeps_keeps) (rule remove_swept)

lemma cleanup_sweeps: "keeps (view_is (swept m)) (cleanup_dead os)"
  unfolding cleanup_dead_def cleanup_one_def by (intro keeps_intros view_kern sweep_remove)

lemma retain_sweeps: "keeps (view_is (swept m)) (retain_interested os S)"
  unfolding retain_interested_def by (intro keeps_intros sweep_remove)

lemma sweep_rescans:
  assumes "\<And>m. keeps (view_is (swept m)) c"
  shows "keeps (view_is (rescanned m)) c"
proof (rule rescans_keeps)
  fix w
  show "rescanned (tracked w) (tracked (snd (run_state c w)))"
    using keepsD [OF assms [of "tracked w"], of w] by (simp add: view_is_def swept_rescanned)
qed

section \<open>Scanning a tracked process again\<close>

lemma base_enter: "keeps (base_view p v m) (tracker_enter os p pkg now)"
proof -
  have "base_view p v m (snd (run_state (tracker_enter os p pkg now) w))" if "base_view p v m w" for w
    using that tracked_enter [of p w os pkg now] by (auto simp: base_view_iff entered_def)
  then show ?thesis by (simp add: keeps_def)
qed

lemma base_names: "keeps (base_view p v m) (with_proc p (\<lambda>s. s\<lparr>tid_names := c\<rparr>) :: ('k world, unit) state)"
proof -
  have "tracked (snd (run_state (with_proc p (\<lambda>s. s\<lparr>tid_names := c\<rparr>)) w)) = m(p \<mapsto> u)"
    if "tracked w = m(p \<mapsto> u)" for u and w :: "'k world"
    using with_view [OF that, of "\<lambda>s. s\<lparr>tid_names := c\<rparr>"] by (auto simp: view_of_def)
  then show ?thesis by (auto simp: keeps_def base_view_iff)
qed

lemma base_tids:
  assumes "m p = Some v"
  shows "ends (base_view p v m) (with_proc p (\<lambda>s. s\<lparr>tid_names := c, applied_tids := set tids\<rparr>) :: ('k world, unit) state)
     (\<lambda>_. view_is (rescanned m))"
proof -
  let ?f = "\<lambda>s. s\<lparr>tid_names := c, applied_tids := set tids\<rparr>"
  have set: "tracked (snd (run_state (with_proc p ?f) w)) = m(p \<mapsto> with_tids (\<lambda>_. set tids) u)"
    if "tracked w = m(p \<mapsto> u)" for u and w :: "'k world"
    using with_view [OF that, of ?f] by (auto simp: view_of_def with_tids_def)
  have "rescanned m (m(p \<mapsto> with_tids (\<lambda>_. set tids) u))" if "u = v \<or> u = fresh" for u
    using that assms by (auto simp: rescanned_def scan_result_def)
  with set show ?thesis by (auto simp: ends_def base_view_iff view_is_def)
qed

lemma refresh_rescans:
  assumes "m p = Some v"
  shows "ends (at_view m) (refresh_process_rules os fnm topo p pkg now rt) (\<lambda>_. view_is (rescanned m))"
proof -
  have scan: "keeps (base_view p v m) (foldM (scan_tid os fnm topo pkg now rt tr) tids acc)" for tr tids acc
    unfolding base_view_def by (intro keeps_foldM view_scan)
  have take: "keeps (base_view p v m) (take_names p now)"
    unfolding take_names_def by (intro keeps_intros base_names)
  show ?thesis
    unfolding refresh_process_rules_def
    by (rule ends_seq [OF ends_keeps [OF at_kern(1)]], rule ends_seq [OF ends_keeps [OF at_kern(2)]],
        rule ends_seq [OF enter_base [of m p v, OF assms]], rule ends_seq [OF ends_keeps [OF take]],
        rule ends_seq [OF ends_keeps [OF scan]], rule ends_seq [OF ends_keeps [OF base_enter]],
        rule ends_seq [OF base_tids [of m p v, OF assms]], rule ends_return)
qed

lemma rescan_register: "keeps (view_is Q) (register_dirs p dirs)"
  unfolding register_dirs_def by (rule keeps_modify) (simp add: view_is_def tracked_register)

lemma rescan_bump: "keeps (view_is Q) (bump_relock d)"
  unfolding bump_relock_def by (rule keeps_modify) (simp add: view_is_def tracked_def)

lemma relock_one_rescans: "keeps (view_is (rescanned m)) (relock_one os fnm topo now rx de rt p n)"
proof (rule at_ends_rescanned)
  fix m
  have stay: "ends (at_view m) (ret k) (\<lambda>_. view_is (rescanned m))" for k :: nat
    by (rule ends_return) (simp add: at_view_iff view_is_def)
  have kern: "ends (at_view m) (State_Monad.bind (on_kern c) f) (\<lambda>_. view_is (rescanned m))"
    if "\<And>x. ends (at_view m) (f x) (\<lambda>_. view_is (rescanned m))"
    for c :: "('k, 'x) state" and f :: "'x \<Rightarrow> ('k world, nat) state"
    by (rule ends_seq [OF ends_keeps [OF at_kern(1)]]) (rule that)
  have bump: "keeps (at_view m) (bump_relock d)" for d
    unfolding at_view_def by (rule rescan_bump)
  have gone: "ends (at_view m) (do { _ \<leftarrow> tracker_remove os p; ret n }) (\<lambda>_. view_is (rescanned m))"
    using remove_swept [of _ os p] by (auto simp: ends_def at_view_iff view_is_def swept_rescanned case_prod_beta)
  have scan: "ends (at_view m) (do {
      nd \<leftarrow> refresh_process_rules os fnm topo p pkg now rt;
      _ \<leftarrow> register_dirs p (snd nd);
      ret (n + fst nd) }) (\<lambda>_. view_is (rescanned m))" if "m p = Some v" for v pkg
    by (rule ends_seq [OF refresh_rescans [of m p v, OF that]], rule ends_seq [OF ends_keeps [OF rescan_register]],
        rule ends_return)
  have found: "ends (at_view m) (case d of
      Allow _ \<Rightarrow> do { nd \<leftarrow> refresh_process_rules os fnm topo p (ps_pkg s) now rt;
                      _ \<leftarrow> register_dirs p (snd nd); ret (n + fst nd) }
    | _ \<Rightarrow> ret n) (\<lambda>_. view_is (rescanned m))" if "m p = Some (view_of s)" for d s
    using scan [OF that] stay by (cases d) simp_all
  have alive: "ends (at_view m) (do {
        alive \<leftarrow> on_kern (is_alive os p);
        if \<not> alive then do { _ \<leftarrow> tracker_remove os p; ret n }
        else do {
          oom \<leftarrow> on_kern (read_oom_adj os p);
          _ \<leftarrow> bump_relock (decide_ctx de (relock_context rx oom));
          (case decide_ctx de (relock_context rx oom) of
             Allow _ \<Rightarrow> do { nd \<leftarrow> refresh_process_rules os fnm topo p (ps_pkg s) now rt;
                            _ \<leftarrow> register_dirs p (snd nd); ret (n + fst nd) }
           | _ \<Rightarrow> ret n)
        } }) (\<lambda>_. view_is (rescanned m))" if "m p = Some (view_of s)" for s
    by (rule kern, rule ends_if, rule gone, rule kern, rule ends_seq [OF ends_keeps [OF bump]], rule found [OF that])
  show "ends (at_view m) (relock_one os fnm topo now rx de rt p n) (\<lambda>_. view_is (rescanned m))"
    unfolding relock_one_def Let_def
  proof (rule ends_gets)
    fix ex :: "ProcessState option"
    let ?P = "\<lambda>w. at_view m w \<and> ex = tracker_get p w"
    show "ends ?P (case ex of None \<Rightarrow> ret n | Some s \<Rightarrow> do {
        alive \<leftarrow> on_kern (is_alive os p);
        if \<not> alive then do { _ \<leftarrow> tracker_remove os p; ret n }
        else do {
          oom \<leftarrow> on_kern (read_oom_adj os p);
          _ \<leftarrow> bump_relock (decide_ctx de (relock_context rx oom));
          (case decide_ctx de (relock_context rx oom) of
             Allow _ \<Rightarrow> do { nd \<leftarrow> refresh_process_rules os fnm topo p (ps_pkg s) now rt;
                            _ \<leftarrow> register_dirs p (snd nd); ret (n + fst nd) }
           | _ \<Rightarrow> ret n)
        } }) (\<lambda>_. view_is (rescanned m))"
    proof (cases "m p = map_option view_of ex")
      case True
      with stay alive show ?thesis by (intro ends_option ends_pre [where P = ?P and P' = "at_view m"]) auto
    qed (auto simp: ends_def at_view_iff tracked_get)
  qed
qed

lemma relock_rescans: "keeps (view_is (rescanned m)) (relock_all os fnm topo now rx de)"
  unfolding relock_all_def by (intro keeps_intros view_kern relock_one_rescans)

lemma with_rules_view: "keeps (view_is Q) c \<Longrightarrow> keeps (view_is Q) (with_rules rs c)"
  unfolding with_rules_def by (intro keeps_intros keeps_modify) (simp_all add: view_is_def tracked_def)

lemma do_reload_rescans: "keeps (view_is (rescanned m)) (do_reload env topo de rx st src)"
  unfolding do_reload_def Let_def
  by (intro keeps_intros keeps_config_changed keeps_mono view_is_blind sweep_rescans retain_sweeps with_rules_view
      relock_rescans)

section \<open>The phases\<close>

lemmas view_intros = keeps_intros view_kern keeps_ctx keeps_mono keeps_coverage view_is_blind
  relock_rescans do_reload_rescans

lemma ipc_reload_rescans: "keeps (view_is (rescanned m)) (ipc_reload env topo de rx good bad st src)"
  unfolding ipc_reload_def by (intro view_intros keeps_sum) 

lemma handle_ipc_rescans: "keeps (view_is (rescanned m)) (handle_ipc env topo de cfg win rx req st src)"
  unfolding handle_ipc_def Let_def ipc_status_def ipc_dump_def ipc_scene_def ipc_tune_def
  by (cases req; simp only: IpcRequest.case; intro view_intros ipc_reload_rescans)

text \<open>
  The events the source of the loop can hand out in a poll: those of one round, of some deadline and
  answers of the kernel (none when the deadline leaves the clock).
\<close>

definition polled :: "'k env \<Rightarrow> loop \<Rightarrow> 'k world \<Rightarrow> ProcessEvent list \<Rightarrow> bool" where
  "polled env lp w evs \<longleftrightarrow>
     evs = [] \<or> (\<exists>d k. evs = snd (fst (run_state (source_poll env d (lp_source lp)) (w\<lparr>kern := k\<rparr>))))"

text \<open>What the phase at hand may do to the view; only the poll brings processes in, by events of the source.\<close>

definition phase_move :: "'k env \<Rightarrow> loop \<Rightarrow> 'k world \<Rightarrow> track \<Rightarrow> bool" where
  "phase_move env lp w m' =
     (let m = tracked w in
      if lp_pc lp \<in> {PRequests, PReloads, PCoverage, PPeriodic} then rescanned m m'
      else if lp_pc lp = PCleanup then swept m m'
      else if lp_pc lp = PPoll
      then \<exists>evs. polled env lp w evs \<and>
             events_spec (en_os env) (en_fnm env) (rules (lp_cfg lp)) (lp_now lp) evs m m'
      else m' = m)"

lemma guarded_rescans: "keeps (view_is (rescanned m)) (guarded_relock env lp)"
  unfolding guarded_relock_def relock_now_def now_instant_def by (intro view_intros)

lemma rescanning_phases:
  "keeps (view_is (rescanned m)) (request_phase env lp)" "keeps (view_is (rescanned m)) (reload_phase env lp)"
  "keeps (view_is (rescanned m)) (coverage_phase env lp)" "keeps (view_is (rescanned m)) (periodic_phase env lp)"
  unfolding request_phase_def reload_phase_def coverage_phase_def periodic_phase_def Let_def
  by (auto intro!: view_intros handle_ipc_rescans guarded_rescans split: list.split)

lemma cleanup_phase_sweeps: "keeps (view_is (swept m)) (cleanup_phase env lp)"
  unfolding cleanup_phase_def Let_def by (intro keeps_intros cleanup_sweeps)

lemma still_phases:
  "keeps (view_is Q) (top_phase env lp)" "keeps (view_is Q) (observe_phase env lp)"
  "keeps (view_is Q) (context_phase env lp)" "keeps (view_is Q) (foreground_phase env lp)"
proof -
  have rules: "keeps (view_is Q) (modify (\<lambda>w. w\<lparr>cfg_rules := R\<rparr>))" for R
    by (rule keeps_modify) (simp add: view_is_def tracked_def)
  note sampling = triple_keeps [OF sampler_loads [OF view_is_blind]]
  show "keeps (view_is Q) (top_phase env lp)" unfolding top_phase_def Let_def by (intro view_intros rules)
  show "keeps (view_is Q) (observe_phase env lp)" unfolding observe_phase_def Let_def by (intro view_intros sampling)
  show "keeps (view_is Q) (context_phase env lp)" unfolding context_phase_def now_instant_def Let_def by (intro view_intros)
  show "keeps (view_is Q) (foreground_phase env lp)" unfolding foreground_phase_def Let_def by (intro view_intros)
qed

text \<open>Until the events are handled, the world of the poll changes by its kernel only.\<close>

lemma only_kernel_blind: "kernel_blind (only_kernel w)"
  by (auto simp: kernel_blind_def only_kernel_def)

lemma poll_moves:
  assumes "loop_world env lp w"
  shows "ends (only_kernel w) (poll_phase env lp)
    (\<lambda>_ w'. \<exists>evs. polled env lp w evs \<and>
       events_spec (en_os env) (en_fnm env) (rules (lp_cfg lp)) (lp_now lp) evs (tracked w) (tracked w'))"
proof -
  let ?fnm = "en_fnm env"
  let ?Q = "\<lambda>w'. \<exists>evs. polled env lp w evs \<and> events_spec (en_os env) ?fnm (rules (lp_cfg lp)) (lp_now lp) evs (tracked w) (tracked w')"
  have only: "tracked s = tracked w \<and> same_rules ?fnm (rules (lp_cfg lp)) s" if "only_kernel w s" for s
    using that assms loop_blind [of env lp]
    by (auto simp: only_kernel_def tracked_kern kernel_blind_def loop_world_def sound_world_def)
  have none: "?Q s" if "only_kernel w s" for s
    using only [OF that] by (intro exI [of _ "[]"]) (simp add: polled_def)
  have poll: "triple (only_kernel w) (source_poll env d (lp_source lp)) (\<lambda>r. polled env lp w (snd r))" for d
    using source_poll_keeps [OF only_kernel_blind [of w], of env d "lp_source lp"]
    by (auto simp: triple_def keeps_def polled_def only_kernel_def)
  have nap: "triple (only_kernel w) (unless b (on_kern c)) (\<lambda>_. True)" for b and c :: "('a, unit) state"
    by (intro triple_any keeps_intros keeps_kernel only_kernel_blind)
  have events: "ends (only_kernel w) (if evs \<noteq> [] then handle_events (en_os env) ?fnm topo (lp_now lp) evs else ret 0)
      (\<lambda>_. ?Q)" if "polled env lp w evs" for evs topo
    using that none only handle_refines [of ?fnm "rules (lp_cfg lp)" _ "en_os env" "lp_now lp" evs topo]
    by (auto simp: ends_def) metis
  show ?thesis
    unfolding poll_phase_def now_instant_def Let_def
    by (rule ends_bind [OF triple_any [OF keeps_kernel [OF only_kernel_blind]]], rule ends_option,
        rule ends_return, rule none, assumption,
        rule ends_bind [OF poll], rule ends_bind [OF triple_any [OF keeps_kernel [OF only_kernel_blind]]],
        rule ends_bind [OF nap], rule ends_seq [OF events], assumption, rule ends_return)
qed

lemma main_moves:
  assumes "loop_world env lp w"
  shows "phase_move env lp w (tracked (snd (main_step env (lp, w))))"
proof -
  have at: "Q (tracked w) \<Longrightarrow> keeps (view_is Q) c \<Longrightarrow> Q (tracked (snd (run_state c w)))" for Q and c :: "('a world, loop) state"
    by (auto simp: keeps_def view_is_def)
  note still = still_phases [where Q = "\<lambda>m. m = tracked w"]
  show ?thesis
    using poll_moves [OF assms] only_kernel_refl [of w]
    by (cases "lp_pc lp") (simp_all add: phase_move_def main_step_def ends_def
        at [OF _ rescanning_phases(1)] at [OF _ rescanning_phases(2)] at [OF _ rescanning_phases(3)]
        at [OF _ rescanning_phases(4)] at [OF _ cleanup_phase_sweeps] at [OF refl still(1)] at [OF refl still(2)]
        at [OF refl still(3)] at [OF refl still(4)])
qed

lemma hot_still: "tracker (snd (run_state (hot_run env waited mtime lp) w)) = tracker w"
  by (simp add: hot_run_def on_kern_def split: prod.split)

lemma step_moves:
  assumes "daemon_ok env lp w" and "daemon_step env (lp, w) (lp', w')"
  shows "tracker w' = tracker w \<or> phase_move env lp w (tracked w')"
  using assms(2)
proof (cases rule: daemon_step.cases)
  case main
  then show ?thesis
    using main_moves [of env lp w] assms(1) by (simp add: daemon_ok_def) (metis snd_conv)
next
  case (hot waited mtime)
  then show ?thesis using hot_still [of env waited mtime lp w] by (metis snd_conv)
qed simp_all

section \<open>New processes\<close>

text \<open>The event that can bring a process in, with the package its rules are asked for.\<close>

definition announces :: "'k os \<Rightarrow> fnmatch \<Rightarrow> RuleSet \<Rightarrow> ProcessEvent \<Rightarrow> pid \<Rightarrow> bool" where
  "announces os fnm R ev p \<longleftrightarrow> ev_pid ev = p \<and> ev_kind ev \<in> {Fork, Exec, ThreadClone} \<and>
     (\<exists>pkg. asks_for os ev pkg \<and> interested_pure fnm R pkg)"

lemma event_births:
  "event_spec os fnm R now ev m m' \<Longrightarrow> dom m' \<subseteq> dom m \<union> {p. announces os fnm R ev p}"
  by (auto simp: announces_def split: if_splits elim!: event_spec.cases)

lemma events_births:
  "events_spec os fnm R now evs m m' \<Longrightarrow> dom m' \<subseteq> dom m \<union> (\<Union>ev \<in> set evs. {p. announces os fnm R ev p})"
proof (induction evs arbitrary: m)
  case (Cons ev evs)
  then obtain m1 where m1: "event_spec os fnm R now ev m m1" "events_spec os fnm R now evs m1 m'" by auto
  from Cons.IH [OF m1(2)] event_births [OF m1(1)] show ?case by auto
qed simp

lemma rescanned_dom: "rescanned m m' \<Longrightarrow> dom m' \<subseteq> dom m"
  by (auto simp: rescanned_def)

lemma swept_dom: "swept m m' \<Longrightarrow> dom m' \<subseteq> dom m"
  using rescanned_dom swept_rescanned by blast

lemma move_births:
  assumes "phase_move env lp w m'"
  shows "\<exists>evs. polled env lp w evs \<and> (lp_pc lp \<noteq> PPoll \<longrightarrow> evs = []) \<and>
    dom m' \<subseteq> dom (tracked w) \<union> (\<Union>ev \<in> set evs. {p. announces (en_os env) (en_fnm env) (rules (lp_cfg lp)) ev p})"
proof (cases "lp_pc lp = PPoll")
  case True
  with assms obtain evs where "polled env lp w evs"
    "events_spec (en_os env) (en_fnm env) (rules (lp_cfg lp)) (lp_now lp) evs (tracked w) m'"
    by (auto simp: phase_move_def Let_def)
  with True events_births [of "en_os env" "en_fnm env" "rules (lp_cfg lp)" "lp_now lp" evs "tracked w" m'] show ?thesis
    by (intro exI [of _ evs]) simp
next
  case False
  with assms have "rescanned (tracked w) m' \<or> swept (tracked w) m' \<or> m' = tracked w"
    by (simp add: phase_move_def Let_def split: if_splits)
  then have "dom m' \<subseteq> dom (tracked w)" using rescanned_dom swept_dom by (elim disjE) simp_all
  with False show ?thesis by (intro exI [of _ "[]"]) (simp add: polled_def)
qed

end
