(* ===== verification/Runs.thy ===== *)
theory Runs
  imports Tracking
begin

text \<open>
  Runs of the daemon: the steps of all its threads in any order, with what they add up to. \<open>daemon_run\<close>
  counts the steps of the main thread and the messages that arrive; \<open>relock_run\<close> collects the times
  of the relocks, which are observed by what they change.
\<close>

section \<open>Counted runs\<close>

text \<open>\<open>daemon_run env c n m d\<close>: from \<open>c\<close> to \<open>d\<close> with \<open>n\<close> steps of the main thread, while \<open>m\<close> messages come.\<close>

inductive daemon_run :: "'k env \<Rightarrow> loop \<times> 'k world \<Rightarrow> nat \<Rightarrow> nat \<Rightarrow> loop \<times> 'k world \<Rightarrow> bool" for env c where
  start: "daemon_run env c 0 0 c"
| main: "daemon_run env c n m (lp, w) \<Longrightarrow> lp_pc lp \<notin> {PStopped, PPanicked} \<Longrightarrow>
    daemon_run env c (Suc n) m (main_step env (lp, w))"
| client: "daemon_run env c n m (lp, w) \<Longrightarrow> client_request sent = Some r \<Longrightarrow>
    daemon_run env c n (Suc m) (lp\<lparr>lp_requests := lp_requests lp @ [r]\<rparr>, w)"
| hot: "daemon_run env c n m (lp, w) \<Longrightarrow> run_state (hot_run env waited mtime lp) w = (lp', w') \<Longrightarrow>
    daemon_run env c n (m + (length (lp_reloads lp') - length (lp_reloads lp))) (lp', w')"
| signal: "daemon_run env c n m (lp, w) \<Longrightarrow> daemon_run env c n m (lp\<lparr>lp_shutdown := True\<rparr>, w)"
| kernel: "daemon_run env c n m (lp, w) \<Longrightarrow> daemon_run env c n m (lp, w\<lparr>kern := k\<rparr>)"

text \<open>They are the runs of \<open>daemon_step\<close>.\<close>

lemma run_steps: "daemon_run env c n m d \<Longrightarrow> (daemon_step env)\<^sup>*\<^sup>* c d"
proof (induction rule: daemon_run.induct)
  case (hot n m lp w waited mtime lp' w')
  then show ?case by (metis daemon_step.hot rtranclp.rtrancl_into_rtrancl)
qed (auto intro: rtranclp.rtrancl_into_rtrancl daemon_step.intros)

lemma steps_run: "(daemon_step env)\<^sup>*\<^sup>* c d \<Longrightarrow> \<exists>n m. daemon_run env c n m d"
proof (induction rule: rtranclp_induct)
  case base
  show ?case using daemon_run.start by blast
next
  case (step d d')
  then obtain n m where run: "daemon_run env c n m d" by blast
  from step.hyps(2) show ?case
  proof (cases rule: daemon_step.cases)
    case main
    then show ?thesis using run daemon_run.main by blast
  next
    case client
    then show ?thesis using run daemon_run.client by blast
  next
    case (hot lp w waited mtime)
    with daemon_run.hot [of env c n m lp w waited mtime "fst d'" "snd d'"] run show ?thesis by auto
  next
    case signal
    then show ?thesis using run daemon_run.signal by blast
  next
    case (kernel lp w k)
    with daemon_run.kernel [of env c n m lp w k] run show ?thesis by auto
  qed
qed

section \<open>Shutdown\<close>

text \<open>The deadline of a poll stays within the clock.\<close>

definition deadline_fits :: "'k env \<Rightarrow> loop \<Rightarrow> bool" where
  "deadline_fits env lp \<longleftrightarrow>
     (\<forall>k. fst (os_instant (en_os env) k) div 1000000000 +
        int (unat (max (lp_scan lp) (scan_interval (engine (lp_cfg lp))))) < 2 ^ 63)"

text \<open>The interval is not changed any more, and a poll whose deadline fits does not panic.\<close>

definition calm_next :: "loop \<Rightarrow> loop \<Rightarrow> bool" where
  "calm_next lp lp' \<longleftrightarrow> lp_cfg lp' = lp_cfg lp \<and> lp_scan lp' = lp_scan lp \<and> lp_pc lp' \<noteq> PPanicked"

lemma guarded_calm:
  "gives (\<lambda>lp'. lp_cfg lp' = lp_cfg lp \<and> lp_scan lp' = lp_scan lp \<and> lp_pc lp' = lp_pc lp) (guarded_relock env lp)"
  by (rule gives_weaken [OF guarded_frame]) auto

lemma deadline_Some: "deadline_fits env lp \<Longrightarrow>
    deadline_after (fst (os_instant (en_os env) k)) (max (lp_scan lp) (scan_interval (engine (lp_cfg lp)))) \<noteq> None"
  by (simp add: deadline_fits_def deadline_after_def)

lemma poll_calm:
  assumes "deadline_fits env lp"
  shows "gives (calm_next lp) (poll_phase env lp)"
proof -
  have "gives (\<lambda>t. deadline_after t (max (lp_scan lp) (scan_interval (engine (lp_cfg lp)))) \<noteq> None)
      (on_kern (sys (os_instant (en_os env))))"
    by (rule gives_kern) (use deadline_Some [OF assms] in \<open>simp add: gives_def\<close>)
  then show ?thesis
    unfolding poll_phase_def now_instant_def
    by (rule gives_bind) (auto simp: calm_next_def Let_def intro!: gives_intros)
qed

lemma phase_calm:
  assumes "lp_shutdown lp" and "deadline_fits env lp" and "lp_pc lp \<noteq> PPanicked"
  shows "gives (calm_next lp) (phase_run env (lp_pc lp) lp)"
proof (cases "lp_pc lp")
  case PTop
  with assms(1) show ?thesis by (simp add: top_phase_def calm_next_def gives_return)
next
  case PRequests
  then show ?thesis
    by (auto simp: request_phase_def calm_next_def intro!: gives_intros split: list.split prod.splits)
next
  case PCoverage
  then show ?thesis
    by (auto simp: coverage_phase_def Let_def calm_next_def intro!: gives_intros gives_weaken [OF guarded_calm])
next
  case PPeriodic
  then show ?thesis
    by (auto simp: periodic_phase_def Let_def calm_next_def intro!: gives_intros gives_weaken [OF guarded_calm])
next
  case PPoll
  then show ?thesis using poll_calm [OF assms(2)] by simp
qed (use assms(3) in \<open>auto simp: reload_phase_def observe_phase_def cleanup_phase_def context_phase_def
    foreground_phase_def audit_phase_def Let_def calm_next_def intro!: gives_intros split: list.split\<close>)

lemma main_calm:
  assumes "lp_shutdown lp" and "deadline_fits env lp" and "lp_pc lp \<noteq> PPanicked"
    and "main_step env (lp, w) = (lp', w')"
  shows "lp_shutdown lp' \<and> deadline_fits env lp' \<and> lp_pc lp' \<noteq> PPanicked"
proof -
  have "calm_next lp lp'" "frame lp lp'"
    using givesD [OF phase_calm [OF assms(1-3)], of w] main_frame [of lp env w] assms(4) by (simp_all add: main_step_def)
  with assms(1,2) show ?thesis by (simp add: calm_next_def frame_def deadline_fits_def)
qed

text \<open>Other threads add at most as many steps as messages.\<close>

lemma hot_adds:
  assumes "run_state (hot_run env waited mtime lp) w = (lp', w')"
  shows "lp_shutdown lp' = lp_shutdown lp \<and> lp_cfg lp' = lp_cfg lp \<and> lp_scan lp' = lp_scan lp \<and> lp_pc lp' = lp_pc lp \<and>
    steps_left lp' \<le> steps_left lp + (length (lp_reloads lp') - length (lp_reloads lp))"
proof -
  obtain r where "lp' = hot_put r lp"
    using assms by (auto simp: hot_run_def split: prod.splits)
  then show ?thesis by (simp add: hot_put_def steps_left_def split: phase.split)
qed

lemma shutdown_bound:
  assumes "daemon_run env c n m d"
    and "lp_shutdown (fst c)" and "deadline_fits env (fst c)" and "lp_pc (fst c) \<noteq> PPanicked"
  shows "lp_shutdown (fst d) \<and> deadline_fits env (fst d) \<and> lp_pc (fst d) \<noteq> PPanicked \<and>
    n + steps_left (fst d) \<le> steps_left (fst c) + m"
  using assms(1)
proof induction
  case start
  then show ?case using assms(2-4) by simp
next
  case (main n m lp w)
  obtain lp' w' where step: "main_step env (lp, w) = (lp', w')" by (cases "main_step env (lp, w)")
  have "0 < steps_left lp" using main.hyps(2) by (auto simp: steps_left_def split: phase.splits)
  with main_frame [of lp env w] main.IH step have "steps_left lp' < steps_left lp" by (auto simp: frame_def)
  with main.IH main_calm [of lp env w lp' w'] step show ?case by auto
next
  case (client n m lp w sent r)
  then show ?case by (auto simp: deadline_fits_def steps_left_def split: phase.splits)
next
  case (hot n m lp w waited mtime lp' w')
  with hot_adds [OF hot.hyps(2)] show ?case by (auto simp: deadline_fits_def)
next
  case (signal n m lp w)
  then show ?case by (auto simp: deadline_fits_def steps_left_def split: phase.splits)
next
  case kernel
  then show ?case by simp
qed

lemma calm_run:
  assumes "lp_shutdown lp" and "deadline_fits env lp" and "lp_pc lp \<noteq> PPanicked"
  shows "lp_pc (fst ((main_step env ^^ j) (lp, w))) \<noteq> PPanicked"
  using assms
proof (induction j arbitrary: lp w)
  case (Suc j)
  obtain lp' w' where "main_step env (lp, w) = (lp', w')" by (cases "main_step env (lp, w)")
  with Suc.IH [of lp' w'] main_calm [OF Suc.prems, of w lp' w'] show ?case
    by (simp add: funpow_Suc_right del: funpow.simps)
qed simp

section \<open>Relocks\<close>

text \<open>
  The coverage and the periodic phase only ask the kernel, but for the relock: a step of them
  that changes anything of the daemon but the kernel has relocked.
\<close>

definition relocks :: "loop \<times> 'k world \<Rightarrow> loop \<times> 'k world \<Rightarrow> bool" where
  "relocks c d \<longleftrightarrow> lp_pc (fst c) \<in> {PCoverage, PPeriodic} \<and> \<not> only_kernel (snd c) (snd d)"

text \<open>The reading of the clock before that relock; the coverage is measured first.\<close>

definition relock_clock :: "'k env \<Rightarrow> loop \<times> 'k world \<Rightarrow> instant" where
  "relock_clock env c = fst (os_instant (en_os env)
     (kern (if lp_pc (fst c) = PCoverage then snd (run_state (sample_coverage (en_os env) BASE_CPUSET) (snd c)) else snd c)))"

text \<open>\<open>relock_run env c ts d\<close>: a run of all threads with relocks of the main loop at the times \<open>ts\<close>.\<close>

inductive relock_run :: "'k env \<Rightarrow> loop \<times> 'k world \<Rightarrow> instant list \<Rightarrow> loop \<times> 'k world \<Rightarrow> bool" for env c where
  start: "relock_run env c [] c"
| quiet: "relock_run env c ts d \<Longrightarrow> daemon_step env d d' \<Longrightarrow> \<not> relocks d d' \<Longrightarrow> relock_run env c ts d'"
| relock: "relock_run env c ts d \<Longrightarrow> daemon_step env d d' \<Longrightarrow> relocks d d' \<Longrightarrow>
    relock_run env c (ts @ [relock_clock env d]) d'"

lemma only_kernel_trans: "only_kernel u v \<Longrightarrow> only_kernel v w \<Longrightarrow> only_kernel u w"
  by (auto simp: only_kernel_def)

lemma on_kern_only: "run_state (on_kern m) w = (x, w') \<Longrightarrow> only_kernel w w'"
  by (auto simp: on_kern_def only_kernel_def split: prod.splits)

lemma coverage_only: "run_state (sample_coverage os base) w = (x, w') \<Longrightarrow> only_kernel w w'"
  using keepsD [OF keeps_coverage [OF only_kernel_blind] only_kernel_refl] by (metis snd_conv)

text \<open>A granted second is a second of the clock.\<close>

lemma second_passed: "1000 \<le> elapsed_ms t s \<Longrightarrow> s + 1000000000 \<le> t"
proof -
  assume "1000 \<le> elapsed_ms t s"
  then have "unat (1000 :: u64) \<le> unat (elapsed_ms t s)" by (simp only: word_le_nat_alt)
  also have "\<dots> \<le> duration_since t s div 1000000" by (simp add: elapsed_ms_def unat_of_nat)
  finally have "1000 * 1000000 \<le> duration_since t s" by (simp add: less_eq_div_iff_mult_less_eq)
  then show ?thesis by (simp add: duration_since_def)
qed

lemma guarded_granted:
  assumes "run_state (guarded_relock env lp) w = (lp', w')" and "\<not> only_kernel w w'" and "lp_guard lp = g"
  shows "cooldown_ms g \<le> elapsed_ms (fst (os_instant (en_os env) (kern w))) (last_at g) \<and>
    last_at (lp_guard lp') = fst (os_instant (en_os env) (kern w))"
proof -
  obtain t v where t: "run_state (now_instant (en_os env)) w = (t, v)" "t = fst (os_instant (en_os env) (kern w))"
    by (cases "run_state (now_instant (en_os env)) w") (auto simp: now_instant_def on_kern_def split: prod.splits)
  then have v: "only_kernel w v" by (auto simp: now_instant_def intro: on_kern_only)
  with assms t show ?thesis
    by (auto simp: guarded_relock_def try_lock_def split: if_splits prod.splits)
qed

lemma relock_granted:
  assumes "main_step env (lp, w) = (lp', w')" and "relocks (lp, w) (lp', w')"
  shows "cooldown_ms (lp_guard lp) \<le> elapsed_ms (relock_clock env (lp, w)) (last_at (lp_guard lp)) \<and>
    last_at (lp_guard lp') = relock_clock env (lp, w)"
proof (cases "lp_pc lp = PCoverage")
  case True
  obtain r v where r: "run_state (sample_coverage (en_os env) BASE_CPUSET) w = (r, v)"
    by (cases "run_state (sample_coverage (en_os env) BASE_CPUSET) w")
  from coverage_only [OF r] assms(2) have "\<not> only_kernel v w'"
    by (auto simp: relocks_def intro: only_kernel_trans)
  with assms True r only_kernel_refl [of w] only_kernel_refl [of v] guarded_granted [of env _ v lp' w' "lp_guard lp"] show ?thesis
    by (auto simp: main_step_def coverage_phase_def Let_def relocks_def relock_clock_def split: if_splits)
next
  case False
  with assms only_kernel_refl [of w] guarded_granted [of env _ w lp' w' "lp_guard lp"] show ?thesis
    by (auto simp: main_step_def periodic_phase_def Let_def relocks_def relock_clock_def split: if_splits)
qed

lemma relock_is_main:
  assumes "daemon_step env (lp, w) (lp', w')" and "relocks (lp, w) (lp', w')"
  shows "main_step env (lp, w) = (lp', w')"
  using assms(1)
proof (cases rule: daemon_step.cases)
  case (hot waited mtime)
  then have "only_kernel w w'"
    by (auto simp: hot_run_def dest: on_kern_only split: prod.splits)
  with assms(2) show ?thesis by (simp add: relocks_def)
qed (use assms(2) in \<open>auto simp: relocks_def only_kernel_refl, auto simp: only_kernel_def\<close>)

lemma relock_times:
  assumes "relock_run env c ts d" and "cooldown_ms (lp_guard (fst c)) = 1000"
  shows "cooldown_ms (lp_guard (fst d)) = 1000 \<and> successively (\<lambda>s t. s + 1000000000 \<le> t) ts \<and>
    (ts \<noteq> [] \<longrightarrow> last ts \<le> last_at (lp_guard (fst d)))"
  using assms
proof induction
  case (quiet ts d d')
  obtain lp w lp' w' where d: "d = (lp, w)" "d' = (lp', w')" by (cases d, cases d')
  have "guard_next (lp_guard lp) (lp_guard lp')" using step_next [of env lp w lp' w'] quiet.hyps(2) d by simp
  with quiet.IH quiet.prems d show ?case by (auto simp: guard_next_def dest!: second_passed)
next
  case (relock ts d d')
  obtain lp w lp' w' where d: "d = (lp, w)" "d' = (lp', w')" by (cases d, cases d')
  have "guard_next (lp_guard lp) (lp_guard lp')" using step_next [of env lp w lp' w'] relock.hyps(2) d by simp
  then have cool: "cooldown_ms (lp_guard lp') = cooldown_ms (lp_guard lp)" by (auto simp: guard_next_def)
  have "last_at (lp_guard lp) + 1000000000 \<le> relock_clock env d" "last_at (lp_guard lp') = relock_clock env d"
    using relock_granted [OF relock_is_main, of env lp w lp' w'] relock.hyps(2,3) relock.IH relock.prems d
    by (auto dest: second_passed)
  with relock.IH relock.prems cool d show ?case by (auto simp: successively_append_iff)
qed simp

end
