(* ===== verification/Fixed_Config.thy ===== *)
theory Fixed_Config
  imports Daemon_Frames
begin

text \<open>
  A daemon whose configuration file always loads with the same engine settings: from the start on,
  the store and the main loop hold such settings, whatever is reloaded. With an interval that the
  clock cannot add, the main loop never gets past its first poll.
\<close>

section \<open>The settings of every load\<close>

definition loads_only :: "'k env \<Rightarrow> (EngineConfig \<Rightarrow> bool) \<Rightarrow> string \<Rightarrow> bool" where
  "loads_only env Q path \<longleftrightarrow> (\<forall>topo v. gives (\<lambda>r. \<forall>s. r = Inr s \<longrightarrow> Q (engine s))
     (load_snapshot (en_os env) (en_kdl env) path topo v))"

definition engine_kept :: "(EngineConfig \<Rightarrow> bool) \<Rightarrow> loop \<Rightarrow> bool" where
  "engine_kept Q lp \<longleftrightarrow> Q (engine (snapshot (lp_store lp))) \<and> Q (engine (lp_cfg lp))"

lemma loadsD: "loads_only env Q path \<Longrightarrow>
    gives (\<lambda>r. \<forall>s. r = Inr s \<longrightarrow> Q (engine s)) (load_snapshot (en_os env) (en_kdl env) path topo v)"
  by (simp add: loads_only_def)

lemma reload_kept:
  assumes "loads_only env Q (store_file st)" and "Q (engine (snapshot st))"
  shows "gives (\<lambda>r. Q (engine (snapshot (snd r)))) (reload (en_os env) (en_kdl env) st)"
  unfolding reload_def Let_def
  by (rule gives_bind [OF loadsD [OF assms(1)]], rule gives_return) (use assms(2) in \<open>auto split: sum.split\<close>)

lemma ipc_reload_kept:
  assumes "loads_only env Q (store_file st)" and "Q (engine (snapshot st))"
  shows "gives (\<lambda>r. Q (engine (snapshot (fst (snd r))))) (ipc_reload env topo de rx good bad st src)"
  unfolding ipc_reload_def
  by (rule gives_bind [OF gives_kern [OF reload_kept [OF assms]]]) (auto intro!: gives_intros split: sum.splits)

lemma handle_kept:
  assumes "loads_only env Q (store_file st)" and "Q (engine (snapshot st))"
  shows "gives (\<lambda>r. Q (engine (snapshot (fst (snd r))))) (handle_ipc env topo de cfg win rx req st src)"
proof -
  have "gives (\<lambda>r. Q (engine (snapshot (fst (snd r))))) (ipc_scene env topo de rx cfg name st src)" for name
    unfolding ipc_scene_def
    by (intro gives_intros) (auto intro!: gives_intros ipc_reload_kept [OF assms] assms(2) split: sum.splits)
  then show ?thesis
    unfolding handle_ipc_def Let_def
    by (cases req; simp only: IpcRequest.case) (auto intro!: gives_intros ipc_reload_kept [OF assms] assms(2))
qed

lemma guarded_kept: "engine_kept Q lp \<Longrightarrow> gives (engine_kept Q) (guarded_relock env lp)"
  by (rule gives_weaken [OF guarded_frame]) (auto simp: engine_kept_def)

lemma phase_kept:
  assumes "loads_only env Q (store_file (lp_store lp))" and "engine_kept Q lp"
  shows "gives (engine_kept Q) (phase_run env (lp_pc lp) lp)"
proof (cases "lp_pc lp")
  case PRequests
  have Q: "Q (engine (snapshot (lp_store lp)))" "Q (engine (lp_cfg lp))" using assms(2) by (simp_all add: engine_kept_def)
  have handled: "gives (engine_kept Q) (do {
      r \<leftarrow> handle_ipc env (lp_topo lp) (lp_decision lp) (lp_cfg lp) (lp_window lp) rx req (lp_store lp) (lp_source lp);
      ret (case r of (reply, st, src) \<Rightarrow>
        lp\<lparr>lp_requests := reqs, lp_replies := lp_replies lp @ [(req, reply)], lp_store := st, lp_source := src\<rparr>) })" for rx req reqs
    by (rule gives_bind [OF handle_kept [OF assms(1) Q(1)]], rule gives_return)
      (use Q(2) in \<open>auto simp: engine_kept_def split: prod.splits\<close>)
  show ?thesis
  proof (cases "lp_requests lp")
    case Nil
    with PRequests assms(2) show ?thesis by (auto simp: request_phase_def engine_kept_def intro!: gives_return)
  next
    case (Cons req reqs)
    show ?thesis
      unfolding PRequests phase_run.simps request_phase_def Cons list.case
      by (rule gives_bind_any) (rule handled)
  qed
next
  case PCoverage
  have "gives (engine_kept Q) (guarded_relock env lp')" if "lp_store lp' = lp_store lp" "lp_cfg lp' = lp_cfg lp" for lp'
    by (rule guarded_kept) (use assms(2) that in \<open>simp add: engine_kept_def\<close>)
  with PCoverage assms(2) show ?thesis
    by (auto simp: coverage_phase_def Let_def engine_kept_def intro!: gives_intros)
next
  case PPeriodic
  have "gives (engine_kept Q) (guarded_relock env (lp\<lparr>lp_pc := PObserve\<rparr>))"
    by (rule guarded_kept) (use assms(2) in \<open>simp add: engine_kept_def\<close>)
  with PPeriodic assms(2) show ?thesis
    by (auto simp: periodic_phase_def Let_def engine_kept_def intro!: gives_intros)
qed (use assms(2) in \<open>auto simp: top_phase_def reload_phase_def observe_phase_def cleanup_phase_def poll_phase_def
    context_phase_def foreground_phase_def audit_phase_def current_def Let_def engine_kept_def
    intro!: gives_intros split: list.split\<close>)

lemma hot_kept:
  assumes "loads_only env Q (store_file (lp_store lp))" and "engine_kept Q lp"
  shows "gives (engine_kept Q) (hot_run env waited mtime lp)"
proof -
  have Q: "Q (engine (snapshot (lp_store lp)))" "Q (engine (lp_cfg lp))" using assms(2) by (simp_all add: engine_kept_def)
  have now: "gives (\<lambda>r. Q (engine (snapshot (hot_store (fst r))))) (hot_reload_now (en_os env) (en_kdl env) h)"
    if "hot_store h = lp_store lp" for h
    unfolding hot_reload_now_def that
    by (rule gives_bind [OF reload_kept [OF assms(1) Q(1)]], rule gives_return) simp
  have "gives (\<lambda>r. Q (engine (snapshot (hot_store (fst r))))) (hot_step (en_os env) (en_kdl env) waited mtime (hot_of lp))"
    using Q(1) unfolding hot_step_def by (auto intro!: gives_intros now simp: hot_of_def split: wait_result.splits)
  then show ?thesis
    unfolding hot_run_def by (rule gives_bind [OF gives_kern]) (auto intro!: gives_return simp: hot_put_def engine_kept_def Q(2))
qed

section \<open>The start\<close>

text \<open>The state of the loop before its first round, started with \<open>args\<close>.\<close>

definition just_started :: "'k env \<Rightarrow> string list \<Rightarrow> loop \<Rightarrow> bool" where
  "just_started env args lp \<longleftrightarrow> lp_pc lp = PTop \<and> lp_requests lp = [] \<and> lp_reloads lp = [] \<and> \<not> lp_shutdown lp \<and>
     lp_cfg lp = snapshot (lp_store lp) \<and> (\<exists>o'. parse_args args options_default = Inr o' \<and> lp_scan lp = opt_scan o') \<and>
     (\<forall>Q. loads_only env Q (store_file (lp_store lp)) \<longrightarrow> Q (engine (snapshot (lp_store lp))))"

lemma boot_fresh:
  assumes "parse_args args options_default = Inr o'"
    and "\<forall>Q. loads_only env Q (store_file st) \<longrightarrow> Q (engine (snapshot st))"
  shows "gives (just_started env args) (boot_loop env o' topo st)"
  unfolding boot_loop_def Let_def by (intro gives_bind_any gives_return) (use assms in \<open>simp add: just_started_def current_def\<close>)

lemma load_only:
  "gives (\<lambda>r. \<forall>st. r = Inr st \<longrightarrow> (\<forall>Q. loads_only env Q (store_file st) \<longrightarrow> Q (engine (snapshot st))))
    (store_new (en_os env) (en_kdl env) path topo)"
proof -
  have "Q (engine (snapshot st))"
    if r: "fst (run_state (store_new (en_os env) (en_kdl env) path topo) k) = Inr st"
      and only: "loads_only env Q (store_file st)" for k st Q
  proof -
    obtain s where s: "fst (run_state (load_snapshot (en_os env) (en_kdl env) path topo 1) k) = Inr s"
      "st = \<lparr>snapshot = s, store_file = path, store_topo = topo\<rparr>"
      using r by (auto simp: store_new_def split: prod.splits sum.splits)
    with givesD [OF loadsD, of env Q path topo 1 k] only show ?thesis by simp
  qed
  then show ?thesis unfolding gives_def by blast
qed

lemma start_fresh: "gives (\<lambda>s. \<forall>lp. s = StartLoop lp \<longrightarrow> just_started env args lp) (daemon_start env args)"
proof -
  have loaded: "gives (\<lambda>s. \<forall>lp. s = StartLoop lp \<longrightarrow> just_started env args lp) (start_loaded env o' topo r)"
    if "parse_args args options_default = Inr o'"
      "\<forall>st. r = Inr st \<longrightarrow> (\<forall>Q. loads_only env Q (store_file st) \<longrightarrow> Q (engine (snapshot st)))" for o' topo r
  proof (cases r)
    case (Inr st)
    have "gives (\<lambda>s. \<forall>lp. s = StartLoop lp \<longrightarrow> just_started env args lp)
        (do { lp \<leftarrow> boot_loop env o' topo st; ret (StartLoop lp) })"
      by (rule gives_bind [OF boot_fresh [OF that(1)]]) (use that(2) Inr in \<open>auto intro!: gives_return\<close>)
    with Inr show ?thesis by (auto simp: start_loaded_def intro!: gives_return gives_bind_any)
  qed (simp add: start_loaded_def gives_return)
  have "gives (\<lambda>s. \<forall>lp. s = StartLoop lp \<longrightarrow> just_started env args lp) (start_options env o')"
    if "parse_args args options_default = Inr o'" for o'
    unfolding start_options_def
    by (intro gives_bind_any gives_bind [OF gives_kern [OF load_only]] loaded [OF that])
  then show ?thesis
    unfolding daemon_start_def by (auto intro!: gives_return split: sum.split)
qed

lemma started_fresh: "run_state (daemon_start env args) (world_new k) = (StartLoop lp, w) \<Longrightarrow> just_started env args lp"
  using givesD [OF start_fresh, of env args "world_new k"] by simp

section \<open>Reachable states\<close>

lemma step_kept:
  assumes "daemon_step env (lp, w) (lp', w')" and "loads_only env Q (store_file (lp_store lp))" and "engine_kept Q lp"
  shows "engine_kept Q lp'"
  using assms(1)
proof (cases rule: daemon_step.cases)
  case main
  then show ?thesis using givesD [OF phase_kept [OF assms(2,3)], of w] by (simp add: main_step_def) (metis fst_conv)
next
  case (hot waited mtime)
  then show ?thesis using givesD [OF hot_kept [OF assms(2,3), of waited mtime], of w] by (metis fst_conv)
qed (use assms(3) in \<open>simp_all add: engine_kept_def\<close>)

lemma reachable_kept:
  assumes "reachable env c" and "loads_only env Q (store_file (lp_store (fst c)))"
  shows "engine_kept Q (fst c)"
  using assms
proof induction
  case (started args k lp w)
  from started_fresh [OF started.hyps] have lp: "lp_cfg lp = snapshot (lp_store lp)"
    and only: "loads_only env Q (store_file (lp_store lp)) \<longrightarrow> Q (engine (snapshot (lp_store lp)))"
    unfolding just_started_def by blast+
  with started.prems show ?case by (simp add: engine_kept_def)
next
  case (stepped c c')
  obtain lp w lp' w' where c: "c = (lp, w)" "c' = (lp', w')" by (cases c, cases c')
  from step_next [of env lp w lp' w'] stepped.hyps c have "store_file (lp_store lp') = store_file (lp_store lp)"
    by (auto simp: store_next_def)
  with stepped c step_kept [of env lp w lp' w' Q] show ?case by simp
qed

section \<open>The order of the phases\<close>

fun follows :: "phase \<Rightarrow> phase set" where
  "follows PTop = {PStopped, PRequests}"
| "follows PRequests = {PRequests, PReloads}"
| "follows PReloads = {PReloads, PCoverage}"
| "follows PCoverage = {PPeriodic}"
| "follows PPeriodic = {PObserve}"
| "follows PObserve = {PCleanup}"
| "follows PCleanup = {PPoll}"
| "follows PPoll = {PContext, PPanicked}"
| "follows PContext = {PForeground}"
| "follows PForeground = {PAudit}"
| "follows PAudit = {PTop}"
| "follows PStopped = {PStopped}"
| "follows PPanicked = {PPanicked}"

lemma guarded_pc: "lp_pc lp = pc \<Longrightarrow> gives (\<lambda>lp'. lp_pc lp' = pc) (guarded_relock env lp)"
  by (rule gives_weaken [OF guarded_frame]) auto

lemma phase_order:
  "gives (\<lambda>lp'. lp_pc lp' \<in> follows (lp_pc lp) \<and> (lp_pc lp = PTop \<longrightarrow> (lp_pc lp' = PStopped \<longleftrightarrow> lp_shutdown lp)))
    (phase_run env (lp_pc lp) lp)"
  by (cases "lp_pc lp")
    (auto simp: top_phase_def request_phase_def reload_phase_def coverage_phase_def periodic_phase_def
      observe_phase_def cleanup_phase_def poll_phase_def context_phase_def foreground_phase_def audit_phase_def
      Let_def intro!: gives_intros guarded_pc split: list.split prod.splits)

lemma main_order:
  assumes "main_step env (lp, w) = (lp', w')"
  shows "lp_pc lp' \<in> follows (lp_pc lp)" and "lp_pc lp = PTop \<Longrightarrow> lp_pc lp' = PStopped \<longleftrightarrow> lp_shutdown lp"
  using givesD [OF phase_order [of lp env], of w] assms by (auto simp: main_step_def)

text \<open>Only a signal stops the loop.\<close>

lemma stopped_by_signal:
  assumes "reachable env c"
  shows "lp_pc (fst c) = PStopped \<longrightarrow> lp_shutdown (fst c)"
  using assms
proof induction
  case (started args k lp w)
  from started_fresh [OF started.hyps] show ?case by (simp add: just_started_def)
next
  case (stepped c c')
  from stepped.hyps(2) show ?case
  proof (cases rule: daemon_step.cases)
    case (main lp w)
    obtain lp' w' where step: "main_step env (lp, w) = (lp', w')" by (cases "main_step env (lp, w)")
    from main_order [OF step] main_frame [of lp env w] step main show ?thesis
      by (cases "lp_pc lp") (auto simp: frame_def)
  next
    case (hot lp w waited mtime)
    with stepped.IH show ?thesis
      by (cases "run_state (hot_run env waited mtime lp) w") (auto simp: hot_run_def hot_put_def split: prod.splits)
  qed (use stepped.IH in auto)
qed

definition before_poll :: "phase set" where
  "before_poll = {PRequests, PReloads, PCoverage, PPeriodic, PObserve, PCleanup, PPoll}"

text \<open>A round that has begun comes to its poll.\<close>

lemma comes_to_poll:
  assumes "reachable env (lp, w)" and "lp_pc lp \<in> before_poll"
  shows "\<exists>j lp' w'. (main_step env ^^ j) (lp, w) = (lp', w') \<and> reachable env (lp', w') \<and> lp_pc lp' = PPoll \<and>
    j + steps_left lp' \<le> steps_left lp"
  using assms
proof (induction "steps_left lp" arbitrary: lp w rule: less_induct)
  case less
  show ?case
  proof (cases "lp_pc lp = PPoll")
    case True
    with less.prems show ?thesis by (intro exI [of _ 0]) auto
  next
    case False
    obtain lp' w' where step: "main_step env (lp, w) = (lp', w')" by (cases "main_step env (lp, w)")
    have pcs: "0 < steps_left lp" "lp_pc lp \<notin> {PTop, PStopped, PPanicked}"
      using less.prems(2) by (auto simp: before_poll_def steps_left_def)
    with main_frame [of lp env w] step have lt: "steps_left lp' < steps_left lp" by (auto simp: frame_def)
    have "reachable env (lp', w')"
      using reachable.stepped [OF less.prems(1) daemon_step.main] pcs(2) step by (metis insert_iff)
    moreover have "lp_pc lp' \<in> before_poll"
      using main_order(1) [OF step] less.prems(2) False by (auto simp: before_poll_def)
    ultimately obtain j d v where j: "(main_step env ^^ j) (lp', w') = (d, v)" "reachable env (d, v)"
      "lp_pc d = PPoll" "j + steps_left d \<le> steps_left lp'" using less.hyps [OF lt] by blast
    with step lt show ?thesis
      by (intro exI [of _ "Suc j"]) (simp add: funpow_Suc_right del: funpow.simps)
  qed
qed

section \<open>An interval the clock cannot add\<close>

definition too_long :: "EngineConfig \<Rightarrow> bool" where
  "too_long e \<longleftrightarrow> 2 ^ 63 \<le> unat (scan_interval e)"

lemma poll_panics:
  "lp_pc (fst (run_state (poll_phase env lp) w)) = PPanicked \<longleftrightarrow>
     2 ^ 63 \<le> fst (os_instant (en_os env) (kern w)) div 1000000000 +
       int (unat (max (lp_scan lp) (scan_interval (engine (lp_cfg lp)))))"
  by (auto simp: poll_phase_def now_instant_def on_kern_def deadline_after_def Let_def split: prod.split)

lemma too_long_panics:
  assumes "engine_kept too_long lp" and "0 \<le> fst (os_instant (en_os env) (kern w))" and "lp_pc lp = PPoll"
  shows "lp_pc (fst (main_step env (lp, w))) = PPanicked"
proof -
  have "unat (scan_interval (engine (lp_cfg lp))) \<le> unat (max (lp_scan lp) (scan_interval (engine (lp_cfg lp))))"
    by (simp add: word_le_nat_alt [symmetric])
  with assms(1) have long: "2 ^ 63 \<le> unat (max (lp_scan lp) (scan_interval (engine (lp_cfg lp))))"
    by (simp add: engine_kept_def too_long_def)
  have "0 \<le> fst (os_instant (en_os env) (kern w)) div 1000000000"
    using assms(2) by (rule pos_imp_zdiv_nonneg_iff [THEN iffD2, rotated]) simp
  with long have "2 ^ 63 \<le> fst (os_instant (en_os env) (kern w)) div 1000000000 +
      int (unat (max (lp_scan lp) (scan_interval (engine (lp_cfg lp)))))"
    by (intro add_increasing) (use of_nat_mono [OF long, where 'a = int] in simp_all)
  with assms(3) show ?thesis by (simp only: main_step_def fst_conv snd_conv phase_run.simps poll_panics)
qed

lemma never_past_poll:
  assumes "reachable env c" and "loads_only env too_long (store_file (lp_store (fst c)))"
    and "\<forall>k. 0 \<le> fst (os_instant (en_os env) k)"
  shows "lp_pc (fst c) \<notin> {PContext, PForeground, PAudit}"
  using assms(1,2)
proof induction
  case (started args k lp w)
  from started_fresh [OF started.hyps] show ?case by (simp add: just_started_def)
next
  case (stepped c c')
  obtain lp w lp' w' where c: "c = (lp, w)" "c' = (lp', w')" by (cases c, cases c')
  from step_next [of env lp w lp' w'] stepped.hyps c stepped.prems
  have only: "loads_only env too_long (store_file (lp_store lp))" by (auto simp: store_next_def)
  with stepped.IH c have IH: "lp_pc lp \<notin> {PContext, PForeground, PAudit}" by simp
  have engine_kept: "engine_kept too_long lp" using reachable_kept [OF stepped.hyps(1)] only c by simp
  from stepped.hyps(2) [unfolded c] have "lp_pc lp' \<notin> {PContext, PForeground, PAudit}"
  proof (cases rule: daemon_step.cases)
    case main
    then have step: "main_step env (lp, w) = (lp', w')" by simp
    with main_order(1) [OF step] too_long_panics [OF engine_kept, of env w] assms(3) IH show ?thesis
      by (cases "lp_pc lp") auto
  next
    case (hot waited mtime)
    with IH show ?thesis
      by (auto simp: hot_run_def hot_put_def split: prod.splits)
  qed (use IH in auto)
  then show ?case by (simp add: c)
qed

lemma comes_to_panic:
  assumes "reachable env (lp, w)" and "loads_only env too_long (store_file (lp_store lp))"
    and "\<forall>k. 0 \<le> fst (os_instant (en_os env) k)" and "lp_pc lp \<in> before_poll"
  shows "\<exists>j \<le> steps_left lp. lp_pc (fst ((main_step env ^^ j) (lp, w))) = PPanicked"
proof -
  obtain j lp' w' where j: "(main_step env ^^ j) (lp, w) = (lp', w')" "reachable env (lp', w')" "lp_pc lp' = PPoll"
    "j + steps_left lp' \<le> steps_left lp" using comes_to_poll [OF assms(1,4)] by blast
  have "store_file (lp_store lp') = store_file (lp_store lp)"
  proof -
    have "store_file (lp_store (fst ((main_step env ^^ j) (lp, w)))) = store_file (lp_store lp)"
    proof (induction j)
      case (Suc j)
      obtain d v where "(main_step env ^^ j) (lp, w) = (d, v)" by (cases "(main_step env ^^ j) (lp, w)")
      with Suc main_frame [of d env v] show ?case by (auto simp: frame_def store_next_def)
    qed simp
    with j(1) show ?thesis by simp
  qed
  with assms(2) reachable_kept [OF j(2), of too_long] have "engine_kept too_long lp'" by simp
  from too_long_panics [OF this _ j(3), of env w'] assms(3) j(1)
  have "lp_pc (fst ((main_step env ^^ Suc j) (lp, w))) = PPanicked" by simp
  moreover have "Suc j \<le> steps_left lp" using j(3,4) by (simp add: steps_left_def)
  ultimately show ?thesis by blast
qed

end
