(* ===== verification/Proc_Source_Facts.thy ===== *)
theory Proc_Source_Facts
  imports Source_Facts
begin

text \<open>
  What the scanning source (crates/daemon/src/proc_source.rs) can find in an incremental round:
  events of tracked processes only. The count of a round becomes the next baseline, so a slow
  growth of the number of processes never leads to a full round.
\<close>

section \<open>Incremental rounds\<close>

definition tracked_only :: "StateTracker \<Rightarrow> scan_acc \<Rightarrow> bool" where
  "tracked_only T a \<longleftrightarrow> sa_pending a = [] \<and> (\<forall>e \<in> set (sa_events a). map_of (procs T) (ev_pid e) \<noteq> None)"

lemma tracked_only_simps [simp]:
  "tracked_only T (a\<lparr>sa_current := c\<rparr>) = tracked_only T a"
  "tracked_only T (a\<lparr>sa_rules := rs\<rparr>) = tracked_only T a"
  "tracked_only T (a\<lparr>sa_events := sa_events a @ evs\<rparr>) \<longleftrightarrow>
     tracked_only T a \<and> (\<forall>e \<in> set evs. map_of (procs T) (ev_pid e) \<noteq> None)"
  by (auto simp: tracked_only_def)

lemma clones_of: "e \<in> set (clone_events p pkg tids) \<Longrightarrow> ev_pid e = p"
  by (auto simp: clone_events_def with_pkg_def ev_thread_clone_def)

lemma incremental_tracked:
  assumes "map_of (procs T) p \<noteq> None" and "tracked_only T a"
  shows "triple (tracker_is T) (incremental_one os fnm p a) (tracked_only T)"
  unfolding incremental_one_def
  by (intro triple_intros tracker_is_blind triple_bind [OF new_tids_any [OF tracker_is_blind]])
    (use assms in \<open>auto simp: tracked_only_def dest: clones_of\<close>)

lemma exits_tracked:
  assumes "tracked_only T a"
  shows "triple (tracker_is T) (exit_events a) (tracked_only T)"
  unfolding exit_events_def
  by (intro triple_intros)
    (use assms in \<open>auto simp: tracker_is_def tracker_pids_def ev_exit_def map_of_eq_None_iff\<close>)

lemma incremental_round:
  assumes "tracked_only T a"
  shows "triple (tracker_is T) (scan_round os fnm False a) (tracked_only T)"
  unfolding scan_round_def if_False
proof (rule triple_gets_bind)
  fix w :: "'a world"
  assume "tracker_is T w"
  then have pids: "p \<in> set (tracker_pids w) \<Longrightarrow> map_of (procs T) p \<noteq> None" for p
    by (auto simp: tracker_is_def tracker_pids_def map_of_eq_None_iff)
  have "triple (tracker_is T) (foldM (incremental_one os fnm) (tracker_pids w) a) (tracked_only T)"
    using assms by (rule triple_foldM) (rule incremental_tracked [OF pids])
  then show "triple (tracker_is T) (do { b \<leftarrow> foldM (incremental_one os fnm) (tracker_pids w) a; exit_events b })
      (tracked_only T)"
    by (rule triple_bind) (rule exits_tracked)
qed

section \<open>Slow growth\<close>

text \<open>A source after a round: nothing queued, no full round ordered, a count that was read.\<close>

definition settled :: "ProcSource \<Rightarrow> bool" where
  "settled s \<longleftrightarrow> \<not> scan_all s \<and> so_pending s = [] \<and> 0 \<le> last_proc_total s \<and> last_proc_total s < 2 ^ 31 - 5"

lemma slow_growth:
  assumes "settled s" and "n \<le> last_proc_total s + 5" and "n \<noteq> -1"
  shows "\<not> scan_needed n s"
proof -
  have "as_int32 x = x" if "0 \<le> x" "x < 2 ^ 31" for x
    using that by (simp add: as_int32_def signed_of_int signed_take_bit_int_eq_self)
  from this [of "last_proc_total s + 5"] assms(1)
  have "as_int32 (last_proc_total s + FULL_SCAN_THRESHOLD) = last_proc_total s + 5"
    by (simp add: settled_def FULL_SCAN_THRESHOLD_def)
  with assms show ?thesis by (simp add: scan_needed_def settled_def)
qed

lemma settled_round:
  assumes "settled s"
  shows "triple (tracker_is T) (collect os fnm s) (\<lambda>r.
    last_proc_total (fst r) \<le> last_proc_total s + 5 \<and> last_proc_total (fst r) \<noteq> -1 \<longrightarrow>
      \<not> scan_all (fst r) \<and> so_pending (fst r) = [] \<and>
      (\<forall>e \<in> set (snd r). map_of (procs T) (ev_pid e) \<noteq> None))"
proof (cases "so_rules s")
  case None
  then show ?thesis
    using assms unfolding collect_def by (auto simp: settled_def intro!: triple_return)
next
  case (Some rs)
  let ?a = "\<lparr>sa_rules = rs, sa_pending = [], sa_current = {}, sa_events = []\<rparr>"
  let ?good = "\<lambda>n r. n \<le> last_proc_total s + 5 \<and> n \<noteq> -1 \<longrightarrow> tracked_only T r"
  have scan: "triple (tracker_is T) (scan_round os fnm (scan_needed n s) ?a) (?good n)" for n
  proof (cases "n \<le> last_proc_total s + 5 \<and> n \<noteq> -1")
    case True
    then have "\<not> scan_needed n s" using slow_growth [OF assms] by blast
    moreover have "tracked_only T ?a" by (simp add: tracked_only_def)
    ultimately show ?thesis
      by (simp only:) (rule triple_weaken [OF incremental_round], assumption, blast)
  next
    case False
    have "keeps (tracker_is T) (scan_round os fnm full a)" for full a
      unfolding scan_round_def full_entry_def queue_pending_def new_tids_for_def incremental_one_def
        exit_events_def now_instant_def
      by (intro keeps_intros keeps_kernel tracker_is_blind)
    then show ?thesis by (rule triple_weaken [OF triple_any]) (use False in blast)
  qed
  have "so_pending s = []" using assms by (simp add: settled_def)
  then show ?thesis
    unfolding collect_def Some option.case proc_flush_pending_def
    by (simp only: if_True simp_thms State_Monad.bind_left_identity case_prod_conv)
      (intro triple_kern_bind tracker_is_blind triple_bind [OF scan] triple_return, simp add: tracked_only_def)
qed

end
