(* ===== verification/Dry_Run.thy ===== *)
theory Dry_Run
  imports Ruleset_Index
begin

text \<open>
  The report of a dry run (\<open>dry_run_lines\<close> of crates/core/src/ruleset.rs): for every package of the
  configuration its rules, one line each. The quoting of a thread name is that of \<open>str\<close>'s
  \<open>Debug\<close>, for names whose characters beyond ASCII are printable (the others it would escape).
\<close>

section \<open>Printing\<close>

text \<open>Characters that are escaped by a letter or a hexadecimal code.\<close>

definition hex_digit :: "nat \<Rightarrow> char" where
  "hex_digit n = char_of (if n < 10 then 48 + n else 87 + n)"

definition show_hex :: "nat \<Rightarrow> string" where
  "show_hex n = (if n < 16 then [hex_digit n] else [hex_digit (n div 16), hex_digit (n mod 16)])"

definition debug_char :: "char \<Rightarrow> string" where
  "debug_char c =
     (let n = char_code c in
      if n = 0 then [char_of (92 :: nat), CHR ''0'']
      else if n = 9 then [char_of (92 :: nat), CHR ''t'']
      else if n = 10 then [char_of (92 :: nat), CHR ''n'']
      else if n = 13 then [char_of (92 :: nat), CHR ''r'']
      else if n = 34 \<or> n = 92 then [char_of (92 :: nat), c]
      else if n < 32 \<or> n = 127 then char_of (92 :: nat) # ''u{'' @ show_hex n @ ''}''
      else [c])"

definition quote :: char where
  "quote = char_of (34 :: nat)"

definition debug_str :: "string \<Rightarrow> string" where
  "debug_str s = quote # concat (map debug_char s) @ [quote]"

fun debug_sched :: "SchedPolicy \<Rightarrow> string" where
  "debug_sched Other = ''Other''"
| "debug_sched Fifo = ''Fifo''"
| "debug_sched Rr = ''Rr''"
| "debug_sched Batch = ''Batch''"
| "debug_sched Idle = ''Idle''"

definition no_rules_line :: string where
  "no_rules_line = map char_of [32, 32, 40, 230, 151, 160, 232, 167, 132, 229, 136, 153, 226, 128, 148,
     226, 128, 148, 228, 187, 133, 231, 153, 189, 229, 144, 141, 229, 141, 149, 229, 141, 160, 228, 189,
     141, 41 :: nat]"

definition no_policy_text :: string where
  "no_policy_text = map char_of [40, 230, 151, 160, 231, 173, 150, 231, 149, 165, 226, 128, 148, 226, 128,
     148, 229, 141, 160, 228, 189, 141, 41 :: nat]"

section \<open>The report\<close>

definition opt_part :: "string \<Rightarrow> ('a \<Rightarrow> string) \<Rightarrow> 'a option \<Rightarrow> string list" where
  "opt_part name f x = (case x of None \<Rightarrow> [] | Some v \<Rightarrow> [name @ f v])"

definition policy_parts :: "Policy \<Rightarrow> string list" where
  "policy_parts p =
     (if cpuset_is_empty (cpus p) then [] else [''cpus='' @ to_range_string (cpus p)])
     @ opt_part ''sched='' debug_sched (sched p)
     @ opt_part ''prio='' show_int (sched_prio p)
     @ opt_part ''nice='' show_int (nice p)
     @ opt_part ''uclamp_min='' show_nat (uclamp_min p)
     @ opt_part ''uclamp_max='' show_nat (uclamp_max p)"

definition rule_line :: "CompiledRule \<Rightarrow> string" where
  "rule_line r =
     (let target = (if cr_thread r = [] then ''default'' else ''thread '' @ debug_str (cr_thread r));
          parts = policy_parts (cr_policy r)
      in ''  '' @ target @ '': '' @ (if parts = [] then no_policy_text else join '', '' parts))"

definition pkg_lines :: "CompiledRule list \<Rightarrow> string \<Rightarrow> string list" where
  "pkg_lines rules pkg =
     (let own = filter (\<lambda>r. cr_pkg r = pkg) rules
      in (''app '' @ [quote] @ pkg @ [quote] @ '':'')
         # (if own = [] then [no_rules_line] else map rule_line own))"

definition dry_run_lines :: "RuleSet \<Rightarrow> string list" where
  "dry_run_lines rs = concat (map (pkg_lines (rs_rules rs)) (rs_pkgs rs))"

section \<open>Every rule is reported once\<close>

lemma filter_partition:
  assumes "distinct ps" and "f ` set xs \<subseteq> set ps"
  shows "sum_list (map (\<lambda>p. length (filter (\<lambda>x. f x = p) xs)) ps) = length xs"
  using assms(2)
proof (induction xs)
  case (Cons x xs)
  have "sum_list (map (\<lambda>p. length (filter (\<lambda>y. f y = p) (x # xs))) ps) =
      sum_list (map (\<lambda>p. (if f x = p then 1 else 0) + length (filter (\<lambda>y. f y = p) xs)) ps)"
    by (intro arg_cong [of _ _ sum_list] map_cong) auto
  also have "\<dots> = sum_list (map (\<lambda>p. if f x = p then 1 else 0) ps) + length xs"
    using Cons by (simp add: sum_list_addf)
  also have "sum_list (map (\<lambda>p. if f x = p then 1 else 0) ps) = (1 :: nat)"
    using assms(1) Cons.prems by (simp add: sum_list_map_eq_sum_count2 sum_list_distinct_conv_sum_set)
  finally show ?case by simp
qed simp

lemma pkg_lines_length:
  assumes "\<exists>r \<in> set rules. cr_pkg r = pkg"
  shows "length (pkg_lines rules pkg) = 1 + length (filter (\<lambda>r. cr_pkg r = pkg) rules)"
  using assms by (auto simp: pkg_lines_def Let_def filter_empty_conv)

text \<open>
  The report of a compiled configuration has a heading for every package and one line for every
  rule; the branch for a package without rules is never taken.
\<close>

lemma dry_run_complete:
  "length (dry_run_lines (build_ruleset rules)) = card (cr_pkg ` set rules) + length rules"
  "r \<in> set rules \<Longrightarrow> rule_line r \<in> set (dry_run_lines (build_ruleset rules))"
proof -
  let ?ps = "rs_pkgs (build_ruleset rules)"
  have pkgs: "distinct ?ps" "set ?ps = cr_pkg ` set rules"
    using build_index [of rules] by (simp_all add: index_inv_def)
  have rs: "rs_rules (build_ruleset rules) = rules" by (rule build_fields)
  have "length (dry_run_lines (build_ruleset rules)) =
      sum_list (map (\<lambda>p. 1 + length (filter (\<lambda>r. cr_pkg r = p) rules)) ?ps)"
    unfolding dry_run_lines_def length_concat map_map rs
    by (intro arg_cong [of _ _ sum_list] map_cong refl) (use pkgs(2) in \<open>auto intro!: pkg_lines_length [simplified]\<close>)
  also have "\<dots> = length ?ps + length rules"
    using filter_partition [OF pkgs(1), of cr_pkg rules] pkgs(2) by (simp add: sum_list_Suc)
  also have "length ?ps = card (cr_pkg ` set rules)" using pkgs distinct_card by metis
  finally show "length (dry_run_lines (build_ruleset rules)) = card (cr_pkg ` set rules) + length rules" .
  show "rule_line r \<in> set (dry_run_lines (build_ruleset rules))" if "r \<in> set rules"
    using that pkgs(2) by (auto simp: dry_run_lines_def rs pkg_lines_def Let_def filter_empty_conv)
qed

end
