(* ===== verification/Ipc_Client.thy ===== *)
theory Ipc_Client
  imports Ipc Policy
begin

text \<open>
  The command-line side of the control socket (\<open>cli_command\<close> of crates/daemon/src/ipc.rs): what it
  sends and prints, and how its arguments come back as a request.
\<close>

section \<open>The client\<close>

definition newline :: char where
  "newline = char_of (10 :: nat)"

text \<open>
  The exit code, what is sent and what is printed: whether the socket connects, whether the
  command can be written, and the response, when it can be read.
\<close>

record cli_result =
  cli_code :: int
  cli_sent :: string
  cli_printed :: string

definition cli_command :: "bool \<Rightarrow> bool \<Rightarrow> string option \<Rightarrow> string \<Rightarrow> cli_result" where
  "cli_command conn written response cmd =
     (if \<not> conn then \<lparr>cli_code = 1, cli_sent = [], cli_printed = []\<rparr>
      else if \<not> written then \<lparr>cli_code = 1, cli_sent = [], cli_printed = []\<rparr>
      else \<lparr>cli_code = 0, cli_sent = cmd @ [newline],
             cli_printed = (case response of None \<Rightarrow> [] | Some r \<Rightarrow> r)\<rparr>)"

section \<open>Arguments of a request\<close>

fun request_args :: "IpcRequest \<Rightarrow> string list" where
  "request_args Status = [''status'']"
| "request_args (Dump p) = [''dump'', show_int p]"
| "request_args Reload = [''reload'']"
| "request_args (Apply p) = [''apply'', show_int p]"
| "request_args (Snapshot None) = [''snapshot'']"
| "request_args (Snapshot (Some p)) = [''snapshot'', show_int p]"
| "request_args (ApplyScene name) = [''apply-scene'', name]"
| "request_args (TuneSys knd value) = [''tune'', knd, value]"

definition is_word :: "string \<Rightarrow> bool" where
  "is_word s \<longleftrightarrow> s \<noteq> [] \<and> valid_utf8 s \<and> (\<forall>ch \<in> set (utf8_chars s). \<not> blank ch)"

definition i32_range :: "int \<Rightarrow> bool" where
  "i32_range p \<longleftrightarrow> - (2 ^ 31) \<le> p \<and> p < 2 ^ 31"

fun request_ok :: "IpcRequest \<Rightarrow> bool" where
  "request_ok (Dump p) = i32_range p"
| "request_ok (Apply p) = i32_range p"
| "request_ok (Snapshot (Some p)) = i32_range p"
| "request_ok (ApplyScene name) = is_word name"
| "request_ok (TuneSys knd value) = (is_word knd \<and> is_word value)"
| "request_ok _ = True"

section \<open>Lemmas\<close>

lemma digit_no_ws: "is_digit c \<Longrightarrow> \<not> is_ws c"
  by (auto simp: is_digit_def is_ws_def)

lemma ascii_word:
  assumes "s \<noteq> []" and "\<forall>c \<in> set s. char_code c < 0x80 \<and> \<not> is_ws c"
  shows "is_word s"
  using assms valid_ascii [of s] chars_ascii [of s] by (auto simp: is_word_def blank_def)

lemma show_int_word: "is_word (show_int p)"
proof (rule ascii_word)
  have "char_code c < 0x80 \<and> \<not> is_ws c" if "c \<in> set (show_nat n)" for c n
    using show_nat_digits [of n] that digit_no_ws [of c] by (fastforce simp: is_digit_def list_all_iff)
  moreover have "char_code (CHR ''-'') = 45" by (simp add: char_code_def)
  ultimately show "\<forall>c \<in> set (show_int p). char_code c < 0x80 \<and> \<not> is_ws c"
    by (auto simp: show_int_def is_ws_def)
qed (simp add: show_int_def)

lemma args_words: "request_ok q \<Longrightarrow> list_all is_word (request_args q)"
  by (cases q rule: request_args.cases)
    (simp_all add: show_int_word, simp_all add: ascii_word is_ws_def char_code_def)

text \<open>A line of words.\<close>

lemma word_chars: "is_word w \<Longrightarrow> valid_utf8 w \<and> utf8_chars w \<noteq> [] \<and> plain_blanks w = w"
  by (simp add: is_word_def chars_nonempty plain_same)

lemma space_chars: "valid_utf8 '' ''" "utf8_chars '' '' = ['' '']" "plain_blanks '' '' = '' ''"
  by code_simp+

lemma join_line:
  assumes "ws \<noteq> []" and "list_all is_word ws"
  shows "valid_utf8 (join '' '' ws) \<and> join '' '' ws \<noteq> [] \<and> plain_blanks (join '' '' ws) = join '' '' ws \<and>
    hd (utf8_chars (join '' '' ws)) = hd (utf8_chars (hd ws)) \<and>
    last (utf8_chars (join '' '' ws)) = last (utf8_chars (last ws))"
  using assms
proof (induction "'' ''" ws rule: join.induct)
  case (2 w)
  then show ?case using word_chars [of w] by (auto simp: is_word_def)
next
  case (3 v w ws)
  then have v: "is_word v" and rest: "valid_utf8 (join '' '' (w # ws))" "join '' '' (w # ws) \<noteq> []"
    "plain_blanks (join '' '' (w # ws)) = join '' '' (w # ws)"
    "last (utf8_chars (join '' '' (w # ws))) = last (utf8_chars (last (w # ws)))" by simp_all
  have tail: "valid_utf8 ('' '' @ join '' '' (w # ws))" "plain_blanks ('' '' @ join '' '' (w # ws)) = '' '' @ join '' '' (w # ws)"
    "utf8_chars ('' '' @ join '' '' (w # ws)) = '' '' # utf8_chars (join '' '' (w # ws))"
    using valid_append [OF space_chars(1) rest(1)] plain_append [OF space_chars(1), of "join '' '' (w # ws)"]
      chars_append [OF space_chars(1), of "join '' '' (w # ws)"] rest(3) space_chars(2,3) by simp_all
  have "utf8_chars (join '' '' (w # ws)) \<noteq> []" using rest(2) by (rule chars_nonempty)
  with word_chars [OF v] tail rest(4) v show ?case
    by (simp only: join.simps valid_append plain_append chars_append) (simp add: is_word_def hd_append)
qed simp

lemma newline_ws: "is_newline c \<Longrightarrow> is_ws c"
  by (simp add: is_newline_def is_ws_def)

lemma first_line_sent: "\<forall>c \<in> set s. \<not> is_newline c \<Longrightarrow> first_line (s @ [newline]) = s @ [newline]"
  by (simp add: first_line_def Let_def newline_def is_newline_def char_code_def takeWhile_append)

lemma join_no_newline:
  "\<forall>w \<in> set ws. \<forall>c \<in> set w. \<not> is_newline c \<Longrightarrow> \<forall>c \<in> set (join '' '' ws). \<not> is_newline c"
  by (induction "'' ''" ws rule: join.induct) (auto simp: is_newline_def char_code_def)

lemma client_words:
  assumes "ws \<noteq> []" and "list_all is_word ws" and "length (join '' '' ws) < LINE_MAX"
  shows "client_request (join '' '' ws @ [newline]) =
    Some (parse_request (join '' '' ws)) \<and> utf8_words (join '' '' ws) = ws"
proof -
  have word: "w \<in> set ws \<Longrightarrow> is_word w" for w using assms(2) by (simp add: list_all_iff)
  then have no_ws: "w \<in> set ws \<Longrightarrow> w \<noteq> [] \<and> (\<forall>c \<in> set w. \<not> is_ws c)" for w
    using no_blank_no_ws [of w] by (auto simp: is_word_def)
  note line = join_line [OF assms(1,2)]
  have ends: "\<not> blank (hd (utf8_chars (join '' '' ws)))" "\<not> blank (last (utf8_chars (join '' '' ws)))"
    using line word [of "hd ws"] word [of "last ws"] word_chars assms(1) by (auto simp: is_word_def)
  have nl: "is_ws newline" "char_code newline < 0x80" by (simp_all add: is_ws_def newline_def char_code_def)
  have "\<forall>c \<in> set (join '' '' ws). \<not> is_newline c"
    using join_no_newline no_ws newline_ws by blast
  then have "first_line (join '' '' ws @ [newline]) = join '' '' ws @ [newline]" by (rule first_line_sent)
  moreover have "take LINE_MAX (join '' '' ws @ [newline]) = join '' '' ws @ [newline]"
    using assms(3) by simp
  moreover have "valid_utf8 (join '' '' ws @ [newline])"
    using line valid_ascii [of "[newline]"] nl by (simp add: valid_append)
  ultimately have "client_request (join '' '' ws @ [newline]) = Some (parse_request (join '' '' ws))"
    using line ends nl by (simp add: client_request_def Let_def trim_newline)
  moreover have "split_on is_ws (join [CHR '' ''] ws) = ws"
    by (rule split_on_join) (use no_ws assms(1) in \<open>auto simp: is_ws_def char_code_def\<close>)
  then have "utf8_words (join '' '' ws) = ws"
    using no_ws line by (simp add: utf8_words_def split_whitespace_def filter_id_conv)
  ultimately show ?thesis by blast
qed

lemma parse_args_request:
  assumes "request_ok q" and "utf8_words line = request_args q"
  shows "parse_request line = q"
  using assms
  by (cases q rule: request_args.cases)
    (simp_all add: parse_request_def next_pid_def next_word_def i32_range_def parse_i32_show_int)

lemma request_round_trip:
  assumes "request_ok q" and "length (join '' '' (request_args q)) < LINE_MAX"
  shows "client_request (cli_sent (cli_command True True r (join '' '' (request_args q)))) = Some q"
proof -
  have "request_args q \<noteq> []" by (cases q rule: request_args.cases) simp_all
  from client_words [OF this args_words [OF assms(1)] assms(2)] parse_args_request [OF assms(1)]
  show ?thesis by (simp add: cli_command_def)
qed

end
