(* ===== verification/Replies.thy ===== *)
theory Replies
  imports Daemon Dry_Run Ipc_Client
begin

text \<open>
  The text of a reply (the \<open>writeln!\<close>s of \<open>handle_ipc\<close> in crates/daemon/src/main.rs, and the error
  texts it shows, of config.rs, kdl_parser.rs, scene.rs and tune.rs). \<open>zh\<close> is the language chosen by
  I18n, \<open>io\<close> the system's own message for the call that failed. Chinese text is given by its code
  points.
\<close>

section \<open>Formatting\<close>

definition utf8_char :: "nat \<Rightarrow> string" where
  "utf8_char c =
     map char_of (if c < 0x80 then [c]
       else if c < 0x800 then [0xC0 + c div 64, 0x80 + c mod 64]
       else [0xE0 + c div 4096, 0x80 + c div 64 mod 64, 0x80 + c mod 64])"

definition utf8 :: "nat list \<Rightarrow> string" where
  "utf8 cs = concat (map utf8_char cs)"

text \<open>A byte that begins a character; widths count characters.\<close>

definition begins_char :: "char \<Rightarrow> bool" where
  "begins_char c = (char_code c < 0x80 \<or> 0xC0 \<le> char_code c)"

definition char_count :: "string \<Rightarrow> nat" where
  "char_count s = length (filter begins_char s)"

fun take_chars :: "nat \<Rightarrow> string \<Rightarrow> string" where
  "take_chars n [] = []"
| "take_chars n (c # cs) =
     (if begins_char c then (case n of 0 \<Rightarrow> [] | Suc k \<Rightarrow> c # take_chars k cs) else c # take_chars n cs)"

definition pad_left :: "nat \<Rightarrow> string \<Rightarrow> string" where
  "pad_left n s = replicate (n - char_count s) (CHR '' '') @ s"

definition pad_right :: "nat \<Rightarrow> string \<Rightarrow> string" where
  "pad_right n s = s @ replicate (n - char_count s) (CHR '' '')"

definition writeln :: "string \<Rightarrow> string" where
  "writeln s = s @ [newline]"

definition show_bool :: "bool \<Rightarrow> string" where
  "show_bool b = (if b then ''true'' else ''false'')"

section \<open>Errors\<close>

fun show_kdl_error :: "kdl_error \<Rightarrow> string" where
  "show_kdl_error (KdlSyntax e) = ''KDL '' @ utf8 [0x8BED, 0x6CD5, 0x9519, 0x8BEF] @ '': '' @ e"
| "show_kdl_error AppNeedsName = ''app '' @ utf8 [0x8282, 0x70B9, 0x9700, 0x8981, 0x5305, 0x540D, 0x5B57,
  0x7B26, 0x4E32]"
| "show_kdl_error (BadEngineMode v) = ''engine mode '' @ utf8 [0x65E0, 0x6548] @ '': '' @ v"
| "show_kdl_error (BadMigrateAction v) = ''migrate-action '' @ utf8 [0x65E0, 0x6548] @ '': '' @ v"

fun show_load_error :: "string \<Rightarrow> load_error \<Rightarrow> string" where
  "show_load_error io ReadFailed = ''config read failed: '' @ io"
| "show_load_error io (NotKdl path) = utf8 [0x4EC5, 0x652F, 0x6301] @ '' KDL '' @ utf8 [0x914D, 0x7F6E,
  0xFF08] @ path @ '' '' @ utf8 [0x4E0D, 0x662F] @ '' .kdl'' @ utf8 [0xFF09, 0xFF1B] @ ''TOML '' @
    utf8 [0x683C, 0x5F0F, 0x5DF2, 0x79FB, 0x9664, 0xFF0C, 0x8BF7, 0x4F7F, 0x7528] @ '' threadctl.kdl''"
| "show_load_error io (ParseFailed e) = ''KDL parse failed: '' @ show_kdl_error e"

fun show_scene_error :: "scene_error \<Rightarrow> string" where
  "show_scene_error (UnknownScene name) = utf8 [0x672A, 0x77E5, 0x573A, 0x666F] @ '': '' @ name @
    utf8 [0xFF08, 0x53EF, 0x9009] @ '': game/video/power-save/balanced/default'' @ utf8 [0xFF09]"

fun show_tune_error :: "string \<Rightarrow> tune_error \<Rightarrow> string" where
  "show_tune_error io NoCpuDir = utf8 [0x65E0, 0x6CD5, 0x8BFB, 0x53D6] @ '' /sys/devices/system/cpu''"
| "show_tune_error io (GovernorUnavailable g available) = trim (''governor '' @ g @ '' '' @ utf8 [0x4E0D,
  0x5728, 0x53EF, 0x7528, 0x5217, 0x8868] @ '': '' @ available)"
| "show_tune_error io (GovernorWriteFailed path) = utf8 [0x5199, 0x5165] @ '' '' @ debug_str path @ '' '' @
  utf8 [0x5931, 0x8D25] @ '': '' @ io"
| "show_tune_error io NoGovernor = utf8 [0x6CA1, 0x6709, 0x53EF, 0x5199] @ '' governor '' @ utf8 [0x7684] @
  '' CPU'' @ utf8 [0xFF08, 0x65E0] @ '' cpufreq '' @ utf8 [0x6216, 0x65E0, 0x6743, 0x9650, 0xFF09]"
| "show_tune_error io NoBlockDir = utf8 [0x65E0, 0x6CD5, 0x8BFB, 0x53D6] @ '' /sys/block''"
| "show_tune_error io (SchedulerWriteFailed path) = utf8 [0x5199, 0x5165] @ '' '' @ debug_str path @ '' '' @
  utf8 [0x5931, 0x8D25] @ '': '' @ io"
| "show_tune_error io NoScheduler = utf8 [0x6CA1, 0x6709, 0x652F, 0x6301, 0x8BE5, 0x8C03, 0x5EA6, 0x5668,
  0x7684, 0x5757, 0x8BBE, 0x5907]"

section \<open>Status, dump, snapshot\<close>

definition VERSION :: string where "VERSION = ''2.0.0-dev''"

definition status_row :: "pid \<times> string \<times> nat \<Rightarrow> string" where
  "status_row row =
     (case row of (p, pkg, n) \<Rightarrow>
        writeln (''  '' @ pad_left 7 (show_int p) @ ''  '' @ pad_right 24 pkg @ '' '' @ show_nat n @
        '' threads''))"

definition status_text :: "u64 \<Rightarrow> nat \<Rightarrow> (pid \<times> string \<times> nat) list \<Rightarrow> AuditSummary \<Rightarrow> RelockStats \<Rightarrow> string" where
  "status_text v pkgs tracked a r =
     writeln ''== threadctl status =='' @
     writeln (''version      : '' @ VERSION) @
     writeln (''config       : v'' @ show_nat (unat v) @ '' ('' @ show_nat pkgs @ '' pkgs)'') @
     writeln (''tracked      : '' @ show_nat (length tracked) @ '' processes / ''
       @ show_nat (sum_list (map (\<lambda>(_, _, t). t) tracked)) @ '' threads'') @
     concat (map status_row (take 20 tracked)) @
     writeln (''audit(60s)   : total='' @ show_nat (total_attempts a) @ '' success='' @ show_nat (as_success a)
       @ '' cgroup_blocked='' @ show_nat (blocked_by_cgroup a) @ '' downgraded='' @
       show_nat (as_downgraded a)) @
     writeln (''relock       : allow='' @ show_nat (rst_allow r) @ '' skip='' @ show_nat (rst_skip r)
       @ '' degrade='' @ show_nat (rst_degrade r))"

definition or_text :: "string \<Rightarrow> string option \<Rightarrow> string" where
  "or_text d x = (case x of None \<Rightarrow> d | Some s \<Rightarrow> s)"

definition dump_text :: "pid \<Rightarrow> string \<Rightarrow> nat \<Rightarrow> string option \<Rightarrow> string option \<Rightarrow> bool \<Rightarrow> string" where
  "dump_text p pkg n allowed owner alive =
     writeln (''== pid '' @ show_int p @ '' ('' @ pkg @ '') =='') @
     writeln (''  applied_tids : '' @ show_nat n) @
     writeln (''  allowed_mask : '' @ or_text ''<read failed>'' allowed) @
     writeln (''  cpuset       : '' @ or_text ''<none>'' owner) @
     writeln (''  alive        : '' @ show_bool alive)"

text \<open>The nine columns of a snapshot.\<close>

definition columns ::
  "string \<times> string \<times> string \<times> string \<times> string \<times> string \<times> string \<times> string \<times> string \<Rightarrow> string"
where
  "columns cs =
     (case cs of
        (tid, name, aff, cur, avg, mx, migr, chg, primary) \<Rightarrow>
          writeln (pad_left 8 tid @ ''  '' @ pad_right 20 name @ '' '' @ pad_left 8 aff @ '' '' @ pad_left 4 cur
            @ '' '' @ pad_left 5 avg @ '' '' @ pad_left 4 mx @ '' '' @ pad_left 6 migr @ '' '' @ pad_left 6 chg
            @ ''  '' @ primary))"

definition cpu_text :: "nat option \<Rightarrow> string" where
  "cpu_text c = (case c of None \<Rightarrow> ''-'' | Some n \<Rightarrow> show_nat n)"

definition snapshot_row :: "ThreadStats \<times> (nat option \<times> string) option \<Rightarrow> string" where
  "snapshot_row row =
     (case row of (st, newest) \<Rightarrow>
        let cur = (case newest of None \<Rightarrow> (''-'', ''-'') | Some (cpu, aff) \<Rightarrow> (cpu_text cpu, aff))
        in columns (show_int (ts_tid st), take_chars 20 (ts_name st), snd cur, fst cur,
             show_nat (avg_load_pct st), show_nat (max_load_pct st), show_nat (migrations st),
             show_nat (affinity_changes st), cpu_text (primary_cpu st)))"

definition snapshot_text :: "(ThreadStats \<times> (nat option \<times> string) option) list \<Rightarrow> string" where
  "snapshot_text rows =
     writeln (''== threadctl snapshot ('' @ utf8 [0x7A97, 0x53E3, 0x7EDF, 0x8BA1] @ '') =='') @
     columns (''tid'', ''name'', ''affinity'', ''cur'', ''avg%'', ''max%'', ''migr'', ''affChg'', ''primary'') @
     concat (map snapshot_row rows)"

section \<open>Replies\<close>

definition tune_detail :: "string \<Rightarrow> nat \<Rightarrow> string" where
  "tune_detail knd n = show_nat n @ (if knd = ''governor'' then '' CPUs'' else '' devices'')"

definition tune_refused :: "bool \<Rightarrow> string \<Rightarrow> string" where
  "tune_refused zh e = writeln (if zh then ''tune '' @ utf8 [0x5931, 0x8D25] @ '': '' @
    e else ''tune failed: '' @ e)"

fun reply_text :: "bool \<Rightarrow> string \<Rightarrow> IpcReply \<Rightarrow> string" where
  "reply_text zh io (StatusReply v pkgs tracked a r) = status_text v pkgs tracked a r"
| "reply_text zh io (DumpReply p pkg n allowed owner alive) = dump_text p pkg n allowed owner alive"
| "reply_text zh io (DumpUnknown p) = writeln (''pid '' @ show_int p @ '' '' @ utf8 [0x4E0D, 0x5728,
  0x8DDF, 0x8E2A, 0x5217, 0x8868, 0xFF08, 0x672A, 0x914D, 0x7F6E, 0x6216, 0x5DF2, 0x9000, 0x51FA, 0xFF09])"
| "reply_text zh io (ReloadedReply v n) =
     writeln (''reload: '' @ utf8 [0x914D, 0x7F6E, 0x5DF2, 0x91CD, 0x8F7D] @ '' (version '' @
       show_nat (unat v) @ '')'') @
     writeln (''reload: applied '' @ show_nat n @ '' threads'')"
| "reply_text zh io (ReloadFailed e) = writeln (''reload '' @ utf8 [0x5931, 0x8D25] @ '': '' @
  show_load_error io e)"
| "reply_text zh io (AppliedReply p n) =
     writeln (''apply '' @ show_int p @ '': '' @ utf8 [0x5168, 0x91CF, 0x91CD, 0x5E94, 0x7528, 0x5B8C,
       0x6210] @ '' (applied '' @ show_nat n @ '' threads)'' @ utf8 [0xFF08, 0x5F53, 0x524D, 0x4E3A,
       0x5168, 0x91CF, 0xFF0C] @ ''P8 '' @ utf8 [0x652F, 0x6301, 0x5355] @ '' pid'' @ utf8 [0xFF09])"
| "reply_text zh io SceneUnreadable =
     writeln (if zh then utf8 [0x573A, 0x666F, 0x5931, 0x8D25] @ '': '' @ utf8 [0x8BFB, 0x53D6, 0x914D,
       0x7F6E, 0x5931, 0x8D25] @ '' '' @ io
       else ''apply-scene failed: cannot read config '' @ io)"
| "reply_text zh io SceneUnwritable =
     writeln (if zh then utf8 [0x573A, 0x666F, 0x5931, 0x8D25] @ '': '' @ utf8 [0x5199, 0x56DE, 0x914D,
       0x7F6E, 0x5931, 0x8D25] @ '' '' @ io
       else ''apply-scene failed: cannot write config '' @ io)"
| "reply_text zh io (SceneReply name v n) =
     writeln (if zh then utf8 [0x573A, 0x666F, 0x5DF2, 0x5E94, 0x7528] @ '': '' @ name @ utf8 [0xFF08,
       0x914D, 0x7F6E, 0x7248, 0x672C] @ '' '' @ show_nat (unat v) @ utf8 [0xFF0C, 0x91CD, 0x5E94, 0x7528] @
       '' '' @ show_nat n @ '' '' @ utf8 [0x7EBF, 0x7A0B, 0xFF09]
       else ''scene applied: '' @ name @ '' (config v'' @ show_nat (unat v) @ '', re-applied '' @
       show_nat n @ '' threads)'')"
| "reply_text zh io (SceneReloadFailed e) =
     writeln (if zh then utf8 [0x573A, 0x666F, 0x5199, 0x56DE, 0x6210, 0x529F, 0x4F46, 0x91CD, 0x8F7D,
       0x5931, 0x8D25] @ '': '' @ show_load_error io e
       else ''scene written but reload failed: '' @ show_load_error io e)"
| "reply_text zh io (SceneRefused e) =
     writeln (if zh then utf8 [0x573A, 0x666F, 0x5931, 0x8D25] @ '': '' @
       show_scene_error e else ''apply-scene failed: '' @ show_scene_error e)"
| "reply_text zh io (TunedReply knd value n) =
     writeln (if zh then ''tune '' @ knd @ '' '' @ value @ '': '' @ utf8 [0x5DF2, 0x5E94, 0x7528, 0xFF08] @
       tune_detail knd n @ utf8 [0xFF09]
       else ''tune '' @ knd @ '' '' @ value @ '': applied ('' @ tune_detail knd n @ '')'')"
| "reply_text zh io (TuneRefused e) = tune_refused zh (show_tune_error io e)"
| "reply_text zh io TuneUsage = tune_refused zh (''tune '' @ utf8 [0x7528, 0x6CD5] @
  '': tune governor <name> | tune iosched <name>'')"
| "reply_text zh io (SnapshotReply rows) = snapshot_text rows"

section \<open>Lines of a reply\<close>

lemma newline_only: "is_newline c \<longleftrightarrow> c = newline"
  by (auto simp: is_newline_def newline_def char_code_def) (metis char_of_char)

lemma split_line: "newline \<notin> set a \<Longrightarrow> split_on is_newline (a @
  newline # rest) = a # split_on is_newline rest"
  by (induction a) (auto simp: newline_only split: list.splits)

text \<open>A line that is written is a line that is read.\<close>

lemma str_lines_writeln: "newline \<notin> set a \<Longrightarrow> str_lines (writeln a @
  rest) = strip_cr a # str_lines rest"
  using split_on_not_Nil [of is_newline rest] by (simp add: str_lines_def writeln_def split_line Let_def)

lemma str_lines_end: "newline \<notin> set a \<Longrightarrow> str_lines (writeln a) = [strip_cr a]"
  using str_lines_writeln [of a "[]"] by (simp add: str_lines_def)

text \<open>Every reply is written in whole lines, and none is empty.\<close>

lemma writes_lines [simp]: "writeln s \<noteq> []" "last (writeln s) = newline" "last (a @ writeln s) = newline"
  by (simp_all add: writeln_def)

lemma rows_end:
  assumes "\<And>x. f x \<noteq> [] \<and> last (f x) = newline"
  shows "last (writeln s @ concat (map f xs)) = newline"
  using assms by (induction xs rule: rev_induct) (auto simp: last_append)

lemma reply_ends: "reply_text zh io r \<noteq> [] \<and> last (reply_text zh io r) = newline"
proof (cases r)
  case (SnapshotReply rows)
  have "snapshot_row x \<noteq> [] \<and> last (snapshot_row x) = newline" for x
    by (auto simp: snapshot_row_def columns_def Let_def split: prod.splits)
  then have "last (columns h @ concat (map snapshot_row rows)) = newline" for h
    using rows_end [of snapshot_row] by (auto simp: columns_def split: prod.splits)
  with SnapshotReply show ?thesis by (simp add: snapshot_text_def writeln_def last_append)
qed (simp_all add: status_text_def dump_text_def tune_refused_def)

section \<open>The mask of a dump\<close>

text \<open>Text without control characters.\<close>

definition printable :: "string \<Rightarrow> bool" where
  "printable s = (\<forall>c \<in> set s. 32 \<le> char_code c)"

lemma printable_simps [simp]:
  "printable []" "printable (c # s) \<longleftrightarrow> 32 \<le> char_code c \<and> printable s"
  "printable (s @ t) \<longleftrightarrow> printable s \<and> printable t"
  by (auto simp: printable_def)

lemma printable_no_newline: "printable s \<Longrightarrow> newline \<notin> set s"
  by (auto simp: printable_def newline_def char_code_def)

lemma printable_strip: "printable s \<Longrightarrow> strip_cr s = s"
proof -
  assume "printable s"
  then have "s \<noteq> [] \<Longrightarrow> 32 \<le> char_code (last s)" by (simp add: printable_def)
  then show ?thesis by (auto simp: strip_cr_def char_code_def)
qed

lemma printable_nat: "printable (show_nat n)"
  using show_nat_digits [of n] by (auto simp: printable_def is_digit_def simp del: show_nat.simps)

lemma printable_int: "printable (show_int i)"
  using printable_nat by (simp add: show_int_def char_code_def del: show_nat.simps)

lemma printable_join: "printable sep \<Longrightarrow> \<forall>x \<in> set xs. printable x \<Longrightarrow> printable (join sep xs)"
  by (induction sep xs rule: join.induct) simp_all

lemma printable_range: "wf_cpuset m \<Longrightarrow> printable (to_range_string m)"
proof -
  assume "wf_cpuset m"
  then obtain rs where "to_range_string m = show_ranges rs" using to_range_string_ranges by blast
  moreover have "printable (show_range r)" for r
    using printable_nat by (simp add: show_range_def char_code_def del: show_nat.simps)
  ultimately show ?thesis by (simp add: show_ranges_def printable_join char_code_def)
qed

lemma dump_mask_line:
  assumes "newline \<notin> set pkg" and "wf_cpuset m"
  shows "str_lines (dump_text p pkg n (Some (to_range_string m)) owner alive) ! 2 =
    ''  allowed_mask : '' @ to_range_string m"
proof -
  let ?l0 = "''== pid '' @ show_int p @ '' ('' @ pkg @ '') ==''"
  let ?l1 = "''  applied_tids : '' @ show_nat n"
  let ?l2 = "''  allowed_mask : '' @ to_range_string m"
  have "newline \<notin> set ?l0"
  proof -
    have "newline \<notin> set ''== pid ''" "newline \<notin> set '' (''" "newline \<notin> set '') ==''"
      by (rule printable_no_newline, simp add: char_code_def)+
    with assms(1) printable_no_newline [OF printable_int, of p] show ?thesis
      unfolding set_append by blast
  qed
  moreover have l: "printable ?l1" "printable ?l2"
    using printable_nat printable_range [OF assms(2)] by (simp_all add: char_code_def del: show_nat.simps)
  ultimately have plain: "newline \<notin> set ?l0" "newline \<notin> set ?l1" "newline \<notin> set ?l2"
    using printable_no_newline [OF l(1)] printable_no_newline [OF l(2)] by (simp_all only: not_False_eq_True)
  have "strip_cr ?l2 = ?l2" by (rule printable_strip [OF l(2)])
  moreover have "dump_text p pkg n (Some (to_range_string m)) owner alive =
      writeln ?l0 @ writeln ?l1 @ writeln ?l2 @ writeln (''  cpuset       : '' @ or_text ''<none>'' owner) @
      writeln (''  alive        : '' @ show_bool alive)"
    unfolding dump_text_def or_text_def by simp
  ultimately show ?thesis
    by (simp only: str_lines_writeln [OF plain(1)] str_lines_writeln [OF plain(2)] str_lines_writeln [OF plain(3)])
      (simp add: numeral_2_eq_2)
qed

end
