(* ===== verification/Ipc_Server.thy ===== *)
theory Ipc_Server
  imports Daemon_Frames
begin

text \<open>
  The thread of \<open>spawn_ipc_server\<close> (crates/daemon/src/ipc.rs) beside the daemon: it takes one
  connection at a time, sends its request to the main loop, and waits for the reply before it
  takes the next. Its steps and the daemon's are interleaved in \<open>system_step\<close>.
\<close>

section \<open>The thread\<close>

text \<open>
  \<open>sv_waiting\<close> is what the client sent whose reply is awaited, \<open>sv_served\<close> what the clients before
  it sent and the reply each was written, if any, and \<open>sv_received\<close> counts the replies received.
\<close>

record server =
  sv_waiting :: "string option"
  sv_served :: "(string \<times> IpcReply option) list"
  sv_received :: nat

definition server_start :: server where
  "server_start = \<lparr>sv_waiting = None, sv_served = [], sv_received = 0\<rparr>"

definition closed :: "string \<Rightarrow> IpcReply option \<Rightarrow> server \<Rightarrow> server" where
  "closed sent reply sv = sv\<lparr>sv_waiting := None, sv_served := sv_served sv @ [(sent, reply)]\<rparr>"

text \<open>The main loop holds the receiving end of the requests while it runs.\<close>

definition loop_runs :: "loop \<Rightarrow> bool" where
  "loop_runs lp \<longleftrightarrow> lp_pc lp \<notin> {PStopped, PPanicked}"

text \<open>
  A connection that fails or sends no line is dropped, as is one whose request cannot be sent; a
  reply is written to the client, and a reply that will not come (the loop is gone) is not
  waited for.
\<close>

inductive server_step :: "server \<times> loop \<Rightarrow> server \<times> loop \<Rightarrow> bool" where
  broken: "sv_waiting sv = None \<Longrightarrow> server_step (sv, lp) (closed sent None sv, lp)"
| accepted: "sv_waiting sv = None \<Longrightarrow> client_request sent = Some r \<Longrightarrow> loop_runs lp \<Longrightarrow>
    server_step (sv, lp) (sv\<lparr>sv_waiting := Some sent\<rparr>, lp\<lparr>lp_requests := lp_requests lp @ [r]\<rparr>)"
| answered: "sv_waiting sv = Some sent \<Longrightarrow> sv_received sv < length (lp_replies lp) \<Longrightarrow>
    server_step (sv, lp)
      ((closed sent (Some (snd (lp_replies lp ! sv_received sv))) sv)\<lparr>sv_received := sv_received sv + 1\<rparr>, lp)"
| abandoned: "sv_waiting sv = Some sent \<Longrightarrow> length (lp_replies lp) \<le> sv_received sv \<Longrightarrow> \<not> loop_runs lp \<Longrightarrow>
    server_step (sv, lp) (closed sent None sv, lp)"

section \<open>The daemon with its server\<close>

text \<open>The other steps of the daemon queue no request.\<close>

inductive system_step :: "'k env \<Rightarrow> server \<times> loop \<times> 'k world \<Rightarrow> server \<times> loop \<times> 'k world \<Rightarrow> bool" for env where
  serve: "server_step (sv, lp) (sv', lp') \<Longrightarrow> system_step env (sv, lp, w) (sv', lp', w)"
| inside: "daemon_step env (lp, w) (lp', w') \<Longrightarrow> length (lp_requests lp') \<le> length (lp_requests lp) \<Longrightarrow>
    system_step env (sv, lp, w) (sv, lp', w')"

inductive system_reachable :: "'k env \<Rightarrow> server \<times> loop \<times> 'k world \<Rightarrow> bool" for env where
  start: "run_state (daemon_start env args) (world_new k) = (StartLoop lp, w) \<Longrightarrow>
    system_reachable env (server_start, lp, w)"
| step: "system_reachable env c \<Longrightarrow> system_step env c c' \<Longrightarrow> system_reachable env c'"

inductive_cases system_stepE: "system_step env (sv, lp, w) c'"
inductive_cases server_stepE: "server_step (sv, lp) c'"

section \<open>The composition refines the daemon\<close>

lemma server_refines:
  assumes "server_step (sv, lp) (sv', lp')"
  shows "lp' = lp \<or> daemon_step env (lp, w) (lp', w)"
  using assms by (auto elim: server_stepE intro: daemon_step.client)

lemma system_refines: "system_reachable env (sv, lp, w) \<Longrightarrow> reachable env (lp, w)"
proof (induction "(sv, lp, w)" arbitrary: sv lp w rule: system_reachable.induct)
  case (start args k lp w)
  then show ?case by (rule reachable.started)
next
  case (step c)
  obtain sv0 lp0 w0 where c: "c = (sv0, lp0, w0)" by (metis prod.exhaust)
  with step have "reachable env (lp0, w0)" by simp
  moreover from step(3) [unfolded c] have "(lp = lp0 \<and> w = w0) \<or> daemon_step env (lp0, w0) (lp, w)"
    by (cases rule: system_step.cases) (use server_refines [of sv0 lp0 sv lp env w0] in auto)
  ultimately show ?case by (auto intro: reachable.stepped)
qed

section \<open>Clients and their replies\<close>

definition answers :: "server \<Rightarrow> (IpcRequest option \<times> IpcReply) list" where
  "answers sv = List.map_filter (\<lambda>(sent, reply). map_option (\<lambda>r. (client_request sent, r)) reply) (sv_served sv)"

definition in_turn :: "server \<Rightarrow> loop \<Rightarrow> bool" where
  "in_turn sv lp \<longleftrightarrow>
     answers sv = map (\<lambda>(q, r). (Some q, r)) (take (sv_received sv) (lp_replies lp)) \<and>
     sv_received sv \<le> length (lp_replies lp) \<and> length (lp_requests lp) \<le> 1 \<and>
     (case sv_waiting sv of
        None \<Rightarrow> sv_received sv = length (lp_replies lp) \<and> (loop_runs lp \<longrightarrow> lp_requests lp = [])
      | Some sent \<Rightarrow>
          (\<exists>q r. lp_requests lp = [] \<and> client_request sent = Some q \<and>
             length (lp_replies lp) = sv_received sv + 1 \<and> lp_replies lp ! sv_received sv = (q, r)) \<or>
          (\<exists>q. lp_requests lp = [q] \<and> client_request sent = Some q \<and> sv_received sv = length (lp_replies lp)))"

lemma answers_closed:
  "answers (closed sent reply sv) =
     answers sv @ (case reply of None \<Rightarrow> [] | Some r \<Rightarrow> [(client_request sent, r)])"
  by (simp add: answers_def closed_def List.map_filter_def split: option.split)

lemma answers_cong [simp]:
  "answers (sv\<lparr>sv_waiting := x\<rparr>) = answers sv" "answers (sv\<lparr>sv_received := n\<rparr>) = answers sv"
  by (simp_all add: answers_def)

lemma closed_fields [simp]:
  "sv_waiting (closed sent reply sv) = None" "sv_received (closed sent reply sv) = sv_received sv"
  by (simp_all add: closed_def)

lemma server_in_turn:
  assumes "in_turn sv lp" and "server_step (sv, lp) (sv', lp')"
  shows "in_turn sv' lp'"
  using assms(2)
proof cases
  case (broken sent)
  with assms(1) show ?thesis by (simp add: in_turn_def answers_closed)
next
  case (accepted sent r)
  with assms(1) show ?thesis by (simp add: in_turn_def loop_runs_def)
next
  case (answered sent)
  with assms(1) show ?thesis
    by (auto simp: in_turn_def answers_closed take_Suc_conv_app_nth)
next
  case (abandoned sent)
  with assms(1) show ?thesis by (auto simp: in_turn_def answers_closed)
qed

lemma queue_in_turn:
  assumes "in_turn sv lp" and "queue_next lp lp'" and "loop_runs lp' \<Longrightarrow> loop_runs lp"
    and "loop_runs lp \<or> lp_requests lp' = lp_requests lp"
  shows "in_turn sv lp'"
proof (cases "lp_requests lp' = lp_requests lp")
  case True
  with assms(2) have "lp_replies lp' = lp_replies lp" by (auto simp: queue_next_def)
  with True assms(1,3) show ?thesis by (cases "sv_waiting sv") (auto simp: in_turn_def)
next
  case False
  with assms(2) obtain q r where handled: "lp_requests lp = q # lp_requests lp'"
    "lp_replies lp' = lp_replies lp @ [(q, r)]" by (auto simp: queue_next_def)
  with False assms(1,4) obtain sent where "sv_waiting sv = Some sent" "client_request sent = Some q"
    "lp_requests lp' = []" "sv_received sv = length (lp_replies lp)"
    by (cases "sv_waiting sv") (auto simp: in_turn_def)
  with handled assms(1) show ?thesis by (simp add: in_turn_def)
qed

lemma hot_queue: "gives (\<lambda>lp'. queue_next lp lp' \<and> lp_pc lp' = lp_pc lp \<and> lp_requests lp' = lp_requests lp) (hot_run env waited mtime lp)"
  unfolding hot_run_def by (auto intro!: gives_intros simp: hot_put_def queue_next_def)

lemma step_in_turn:
  assumes "in_turn sv lp" and "daemon_step env (lp, w) (lp', w')" and "length (lp_requests lp') \<le> length (lp_requests lp)"
  shows "in_turn sv lp'"
  using assms(2)
proof (cases rule: daemon_step.cases)
  case main
  then have "queue_next lp lp'" using main_frame [of lp env w] by (cases "main_step env (lp, w)") (simp add: frame_def)
  moreover have "loop_runs lp" using main by (simp add: loop_runs_def)
  ultimately show ?thesis by (intro queue_in_turn [OF assms(1)]) simp_all
next
  case (client sent r)
  with assms(3) show ?thesis by simp
next
  case (hot waited mtime)
  with givesD [OF hot_queue [of lp env waited mtime], of w] have "queue_next lp lp'" "lp_pc lp' = lp_pc lp" "lp_requests lp' = lp_requests lp"
    by (metis fst_conv)+
  then show ?thesis by (intro queue_in_turn [OF assms(1)]) (simp_all add: loop_runs_def)
next
  case signal
  then show ?thesis by (intro queue_in_turn [OF assms(1)]) (simp_all add: queue_next_def loop_runs_def)
next
  case kernel
  with assms(1) show ?thesis by simp
qed

lemma started_queues:
  assumes "run_state (daemon_start env args) w0 = (StartLoop lp, w)"
  shows "lp_requests lp = [] \<and> lp_replies lp = [] \<and> loop_runs lp"
proof -
  let ?empty = "\<lambda>r. \<forall>lp. r = StartLoop lp \<longrightarrow> lp_requests lp = [] \<and> lp_replies lp = [] \<and> loop_runs lp"
  have boot: "gives (\<lambda>lp. lp_requests lp = [] \<and> lp_replies lp = [] \<and> loop_runs lp) (boot_loop env o' topo st)" for o' topo st
    unfolding boot_loop_def Let_def by (intro gives_intros) (simp add: loop_runs_def)
  have "gives ?empty (start_loaded env o' topo r)" for o' topo r
    unfolding start_loaded_def
    by (auto intro!: gives_intros gives_bind [OF boot] split: sum.splits)
  then have "gives ?empty (start_options env o')" for o'
    unfolding start_options_def by (auto intro!: gives_intros)
  then have "gives ?empty (daemon_start env args)"
    unfolding daemon_start_def by (auto intro!: gives_intros split: sum.splits)
  from givesD [OF this, of w0] assms show ?thesis by simp
qed

lemma reachable_in_turn: "system_reachable env (sv, lp, w) \<Longrightarrow> in_turn sv lp"
proof (induction "(sv, lp, w)" arbitrary: sv lp w rule: system_reachable.induct)
  case (start args k lp w)
  from started_queues [OF this] show ?case
    by (simp add: in_turn_def server_start_def answers_def List.map_filter_def)
next
  case (step c)
  obtain sv0 lp0 w0 where c: "c = (sv0, lp0, w0)" by (metis prod.exhaust)
  with step have "in_turn sv0 lp0" by simp
  with step(3) [unfolded c] show ?case
    by (auto elim!: system_stepE intro: server_in_turn step_in_turn)
qed

end
