(* ===== verification/Daemon_Properties.thy ===== *)
theory Daemon_Properties
  imports Runs Fixed_Config Proc_Source_Facts Rule_Properties Replies Ipc_Server Ipc_Client
begin

text \<open>
  The properties of the daemon and of its event sources: the invariant of every reachable state,
  the steps of the store and of the relock guard, shutdown, control requests, the events the
  engine is given, and the filters of the eBPF program.
\<close>

section \<open>A daemon that starts\<close>

definition demo_env :: "nat env" where
  "demo_env = \<lparr>en_os = demo_os\<lparr>os_read_file := \<lambda>_ k. (Some [], k)\<rparr>,
     en_bpf = \<lparr>tracked_open = \<lambda>k. (True, k), tracked_put = \<lambda>_ k. ((), k), tracked_del = \<lambda>_ k. ((), k),
       tracked_keys = \<lambda>k. ([], k), target_open = \<lambda>k. (True, k), target_put = \<lambda>_ k. ((), k),
       target_del = \<lambda>_ k. ((), k), target_keys = \<lambda>k. ([], k), try_recv = \<lambda>k. (None, k)\<rparr>,
     en_loader = \<lparr>ld_find = \<lambda>k. (False, k), ld_read = \<lambda>k. (True, k), ld_load = \<lambda>_ k. (True, k),
       ld_attach = \<lambda>_ k. (None, k), ld_events = \<lambda>k. (True, k), ld_ring = \<lambda>k. (True, k)\<rparr>,
     en_fnm = (\<lambda>p s. p = s), en_kdl = (\<lambda>_. Inr []), en_order = (\<lambda>_. []), en_template = [],
     en_mkdirs = (\<lambda>_ k. ((), k)), en_bind = (\<lambda>_ k. (True, k)), en_watch = (\<lambda>_ k. ((True, 0), k))\<rparr>"

text \<open>The same with another clock and another document in the configuration file.\<close>

definition demo_with :: "(nat \<Rightarrow> instant \<times> nat) \<Rightarrow> kdl_node list \<Rightarrow> nat env" where
  "demo_with clock nodes =
     demo_env\<lparr>en_os := (en_os demo_env)\<lparr>os_instant := clock\<rparr>, en_kdl := \<lambda>_. Inr nodes\<rparr>"

lemma demo_is_with: "demo_env = demo_with (\<lambda>k. (int k, k)) []"
  by (simp add: demo_with_def demo_env_def demo_os_def)

lemma demo_store:
  "parse_doc nodes = Inr x \<Longrightarrow> ends_with ''.kdl'' path \<Longrightarrow>
   \<exists>st. run_state (store_new (en_os (demo_with clock nodes)) (en_kdl (demo_with clock nodes)) path topo) k = (Inr st, k)"
  by (cases x) (simp add: demo_with_def demo_env_def store_new_def load_snapshot_def read_to_string_def parse_kdl_def)

lemma demo_boots:
  assumes "parse_doc nodes = Inr x"
  shows "\<exists>lp w. run_state (daemon_start (demo_with clock nodes) []) (world_new 0) = (StartLoop lp, w)"
proof -
  have kdl: "ends_with ''.kdl'' (opt_config options_default)"
    by (simp add: options_default_def ends_with_def starts_with_def)
  have dry: "\<not> opt_dry options_default" by (simp add: options_default_def)
  have loaded: "\<exists>lp w'. run_state (start_loaded (demo_with clock nodes) options_default topo (Inr st)) w = (StartLoop lp, w')"
    for topo st and w :: "nat world"
    using dry by (simp add: start_loaded_def split: prod.split)
  have "\<exists>lp w'. run_state (start_options (demo_with clock nodes) options_default) w = (StartLoop lp, w')" for w :: "nat world"
    using demo_store [OF assms kdl] loaded
    by (auto simp: start_options_def on_kern_def split: prod.split) (metis Pair_inject)+
  then show ?thesis by (simp add: daemon_start_def)
qed

lemma no_doc: "parse_doc [] = Inr ([], daemon_default, engine_config_default)"
  by (simp add: parse_doc_def)

lemma demo_started: "\<exists>lp w. run_state (daemon_start demo_env []) (world_new 0) = (StartLoop lp, w)"
  unfolding demo_is_with by (rule demo_boots [OF no_doc])

lemma demo_reachable: obtains lp w where "reachable demo_env (lp, w)"
proof -
  obtain lp w where "run_state (daemon_start demo_env []) (world_new 0) = (StartLoop lp, w)"
    using demo_started by blast
  from that [OF reachable.started [OF this]] show thesis .
qed

lemma demo_loads:
  assumes "parse_doc nodes = Inr (as, d, e)" and "Q e"
  shows "loads_only (demo_with clock nodes) Q path"
  using assms unfolding loads_only_def load_snapshot_def
  by (auto intro!: gives_bind_any gives_return simp: demo_with_def parse_kdl_def split: option.splits if_splits)

text \<open>The daemon has begun its first round, with the settings of the document.\<close>

lemma demo_round:
  assumes "parse_doc nodes = Inr (as, d, e)"
  obtains lp and w :: "nat world" where "reachable (demo_with clock nodes) (lp, w)" "lp_pc lp = PRequests"
    "lp_requests lp = []" "lp_reloads lp = []" "lp_scan lp = 2" "engine (lp_cfg lp) = e" "\<not> lp_shutdown lp"
proof -
  let ?env = "demo_with clock nodes"
  obtain lp and w :: "nat world" where run: "run_state (daemon_start ?env []) (world_new 0) = (StartLoop lp, w)"
    using demo_boots [OF assms] by blast
  have new: "just_started ?env [] lp" by (rule started_fresh [OF run])
  obtain lp' w' where step: "main_step ?env (lp, w) = (lp', w')" by (cases "main_step ?env (lp, w)")
  have "reachable ?env (lp', w')"
    using reachable.stepped [OF reachable.started [OF run] daemon_step.main] new step
    by (simp add: just_started_def)
  moreover from this have "engine_kept (\<lambda>x. x = e) lp'"
    using reachable_kept [of ?env "(lp', w')" "\<lambda>x. x = e"] demo_loads [OF assms, of "\<lambda>x. x = e"] by simp
  ultimately show thesis
    using that [of lp' w'] new step
    by (auto simp: just_started_def engine_kept_def main_step_def top_phase_def options_default_def Let_def split: prod.splits)
qed

section \<open>The state of the daemon\<close>

text \<open>
  C9. In every state the daemon can reach, whatever the kernel, its clients and the reload thread
  do: the reference counts of the directories are the numbers of tracked processes that hold
  them, the audit log has at most 1024 entries, the rules in force are those of the loop's
  configuration with a valid cache and name present CPUs only, the relock period is one of 3,
  10, 60 and 300 seconds, the cooldown is one second, and the observation window is consistent.
\<close>

theorem daemon_invariant:
  assumes "reachable env (lp, w)"
  shows "refs_ok w \<and> length (audit_ring w) \<le> 1024 \<and>
    cache_ok (en_fnm env) (cfg_rules w) \<and> ruleset_clone (cfg_rules w) = ruleset_clone (rules (lp_cfg lp)) \<and>
    ruleset_ok (lp_topo lp) (rules (lp_cfg lp)) \<and> interval_secs (lp_adaptive lp) \<in> {3, 10, 60, 300} \<and>
    cooldown_ms (lp_guard lp) = 1000 \<and> window_ok (lp_window lp)"
  using reachable_ok [OF assms] interval_in [of "lp_adaptive lp"]
  by (auto simp: daemon_ok_def loop_ok_def loop_world_def sound_world_def same_rules_def
      audit_bounded_def AUDIT_LOG_MAX_def)

theorem daemon_invariant_witness: "\<exists>lp w. reachable demo_env (lp, w) \<and> refs_ok w"
proof -
  obtain lp w where "reachable demo_env (lp, w)" by (rule demo_reachable)
  with daemon_invariant [OF this] show ?thesis by blast
qed

text \<open>
  Every step of the daemon leaves the configuration store as it is or raises the version by
  one (modulo the word) for the same file and topology.
\<close>

theorem versions_step_by_one:
  assumes "daemon_step env (lp, w) (lp', w')"
  shows "lp_store lp' = lp_store lp \<or>
    version (snapshot (lp_store lp')) = version (snapshot (lp_store lp)) + 1 \<and>
    store_file (lp_store lp') = store_file (lp_store lp) \<and> store_topo (lp_store lp') = store_topo (lp_store lp)"
  using step_next [OF assms] by (simp add: store_next_def)

theorem versions_step_by_one_witness:
  "\<exists>lp lp' (w :: nat world). daemon_step demo_env (lp, w) (lp', w) \<and> lp_store lp' = lp_store lp"
proof -
  obtain lp and w :: "nat world" where "reachable demo_env (lp, w)" by (rule demo_reachable)
  have s: "daemon_step demo_env (lp, w) (lp\<lparr>lp_shutdown := True\<rparr>, w)" by (rule daemon_step.signal)
  with versions_step_by_one [OF s] show ?thesis by fastforce
qed

text \<open>
  C17. Relocks of the main loop are a second apart: in a run of all threads, from a state with the cooldown
  of one second (as every reachable state has it), the clock readings at which the coverage and
  the periodic phase relocked are at least a second apart; a refused attempt changes nothing
  but the kernel that was asked.
\<close>

theorem relocks_are_a_second_apart:
  assumes "cooldown_ms (lp_guard (fst c)) = 1000" and "relock_run env c ts d"
  shows "successively (\<lambda>s t. s + 1000000000 \<le> t) ts"
  using relock_times [OF assms(2,1)] by blast

text \<open>The periodic phase relocks process 7, which is alive, on a hot device: the decision is counted.\<close>

lemma bump_differs: "bump_stats d s \<noteq> s"
  by (cases d; cases s) simp_all

definition hot_context :: SystemContext where
  "hot_context = \<lparr>memory_pressure = Normal, memory_avg10 = Fin 0, thermal_zones = [], sc_thermal_pressure = Fin 1,
     battery_pct = None, is_charging = False, sc_freq_throttle = Fin 1, next_poll_interval = 0\<rparr>"

lemma not_allowed: "(\<And>r. d \<noteq> Allow r) \<Longrightarrow> (case d of Allow r \<Rightarrow> f r | Skip _ \<Rightarrow> x | Degrade _ _ \<Rightarrow> x) = x"
  by (cases d) auto

lemma seven_relocked:
  assumes "run_state (relock_all (en_os demo_env) fnm topo now rx engine_default) (seven_world\<lparr>kern := k\<rparr>) = (n, v)"
    and "\<And>oom r. decide_ctx engine_default (relock_context rx oom) \<noteq> Allow r"
  shows "relock_stats v \<noteq> relock_stats seven_world"
proof -
  have alive: "run_state (is_alive (en_os demo_env) 7) j = (True, j)" for j by (simp add: demo_env_def is_alive_def demo_os_def)
  have "relock_stats u \<noteq> relock_stats seven_world"
    if "run_state (relock_one (en_os demo_env) fnm topo now rx engine_default rt 7 0) (seven_world\<lparr>kern := j\<rparr>) = (n', u)" for rt j n' u
    using that assms(2) bump_differs
    by (auto simp: relock_one_def seven_world_def tracker_get_def on_kern_def alive bump_relock_def Let_def
        not_allowed split: prod.splits)
  with assms(1) show ?thesis
    by (auto simp: relock_all_def on_kern_def tracker_pids_def seven_world_def split: prod.splits)
qed

theorem relocks_are_a_second_apart_witness:
  "\<exists>c ts d. relock_run demo_env c ts d \<and> cooldown_ms (lp_guard (fst c)) = 1000 \<and> ts = [5000000000] \<and>
     successively (\<lambda>s t. s + 1000000000 \<le> t) ts"
proof -
  obtain lp :: loop where lp: "engine (lp_cfg lp) = engine_config_default"
    by (rule demo_round [OF no_doc, of "\<lambda>k. (0, k)"]) blast
  let ?w = "seven_world\<lparr>kern := 5000000000\<rparr>"
  let ?lp = "lp\<lparr>lp_pc := PPeriodic, lp_guard := \<lparr>last_at = 0, cooldown_ms = 1000\<rparr>, lp_now := 400, lp_last_lock := 0,
    lp_adaptive := adaptive_new, lp_sys := Some hot_context, lp_decision := engine_default\<rparr>"
  obtain lp' w' where step: "main_step demo_env (?lp, ?w) = (lp', w')" by (cases "main_step demo_env (?lp, ?w)")
  have gate: "try_lock 5000000000 \<lparr>last_at = 0, cooldown_ms = 1000\<rparr> = (True, \<lparr>last_at = 5000000000, cooldown_ms = 1000\<rparr>)"
    by (simp add: try_lock_def elapsed_ms_def duration_since_def)
  have clock: "run_state (now_instant (en_os demo_env)) ?w = (5000000000, ?w)"
    by (simp add: now_instant_def on_kern_def demo_env_def demo_os_def)
  from step lp clock gate obtain n where now: "run_state (relock_now demo_env ?lp) ?w = (n, w')"
    by (auto simp: main_step_def periodic_phase_def guarded_relock_def engine_config_default_def adaptive_new_def
        interval_secs_def INTERVALS_SECS_def DEFAULT_INTERVAL_def relock_now_def Let_def split: prod.splits)
  obtain rx v where ctx: "run_state (build_relock_ctx (en_os demo_env) (Some hot_context)) ?w = (rx, v)"
    by (metis prod.exhaust)
  then obtain k where v: "v = seven_world\<lparr>kern := k\<rparr>"
    and rx: "rx_thermal_pressure rx = Fin 1" "rx_freq_throttle rx = Fin 1"
    by (auto simp: build_relock_ctx_def on_kern_def hot_context_def split: prod.splits)
  have "decide_ctx engine_default (relock_context rx oom) \<noteq> Allow r" for oom r
    using rx by (simp add: decide_ctx_def relock_context_def engine_default_def Let_def effective_thermal_def
        f_max_def f_sub_def)
  with now ctx v have "relock_stats w' \<noteq> relock_stats seven_world"
    by (intro seven_relocked [of "en_fnm demo_env" "lp_topo lp" 400 rx k n w']) (simp_all add: relock_now_def)
  then have acts: "relocks (?lp, ?w) (lp', w')"
    by (auto simp: relocks_def only_kernel_def)
  have "daemon_step demo_env (?lp, ?w) (lp', w')"
    using daemon_step.main [of ?lp demo_env ?w] step by simp
  from relock_run.relock [OF relock_run.start this acts]
  have run: "relock_run demo_env (?lp, ?w) [5000000000] (lp', w')"
    by (simp add: relock_clock_def demo_env_def demo_os_def)
  have "cooldown_ms (lp_guard (fst (?lp, ?w))) = 1000" by simp
  from relocks_are_a_second_apart [OF this run] run show ?thesis by fastforce
qed

text \<open>
  C15. After a signal the loop ends: in a run of all threads from there, as long as the deadline of a
  poll is within the clock, the main thread makes at most eleven steps and one more for
  every message that was queued or came meanwhile; it does not panic, and from every state of the
  run it comes to its end within eleven steps and one for every message queued there.
\<close>

theorem shutdown_stops:
  assumes "daemon_run env (lp, w) n m (lp', w')" and "lp_shutdown lp" and "lp_pc lp \<noteq> PPanicked"
    and "\<forall>k. fst (os_instant (en_os env) k) div 1000000000 +
      int (unat (max (lp_scan lp) (scan_interval (engine (lp_cfg lp))))) < 2 ^ 63"
  shows "n \<le> 11 + length (lp_requests lp) + length (lp_reloads lp) + m \<and>
    (\<exists>j \<le> 11 + length (lp_requests lp') + length (lp_reloads lp').
      lp_pc (fst ((main_step env ^^ j) (lp', w'))) = PStopped)"
proof -
  have bound: "steps_left x \<le> 11 + length (lp_requests x) + length (lp_reloads x)" for x
    by (simp add: steps_left_def split: phase.split)
  have "deadline_fits env lp" using assms(4) by (simp add: deadline_fits_def)
  with shutdown_bound [OF assms(1)] assms(2,3)
  have d: "lp_shutdown lp'" "deadline_fits env lp'" "lp_pc lp' \<noteq> PPanicked" "n + steps_left lp' \<le> steps_left lp + m"
    by simp_all
  from shutdown_run [OF d(1), of env w'] obtain j where "j \<le> steps_left lp'"
    "lp_pc (fst ((main_step env ^^ j) (lp', w'))) \<in> {PStopped, PPanicked}" by blast
  moreover have "lp_pc (fst ((main_step env ^^ j) (lp', w'))) \<noteq> PPanicked" for j by (rule calm_run [OF d(1-3)])
  ultimately show ?thesis using d(4) bound [of lp] bound [of lp'] by (intro conjI exI [of _ j]) auto
qed

text \<open>A signal comes in the first round, then a client asks for a reload.\<close>

theorem shutdown_stops_witness:
  "\<exists>lp lp' (w :: nat world) w'. reachable (demo_with (\<lambda>k. (0, k)) []) (lp, w) \<and> lp_shutdown lp \<and> lp_pc lp = PRequests \<and>
     daemon_run (demo_with (\<lambda>k. (0, k)) []) (lp, w) 0 1 (lp', w') \<and>
     (\<exists>j \<le> 12. lp_pc (fst ((main_step (demo_with (\<lambda>k. (0, k)) []) ^^ j) (lp', w'))) = PStopped)"
proof -
  let ?env = "demo_with (\<lambda>k. (0, k)) []"
  obtain lp0 and w :: "nat world" where r: "reachable ?env (lp0, w)" and lp0: "lp_pc lp0 = PRequests"
    "lp_requests lp0 = []" "lp_reloads lp0 = []" "lp_scan lp0 = 2" "engine (lp_cfg lp0) = engine_config_default"
    by (rule demo_round [OF no_doc])
  let ?lp = "lp0\<lparr>lp_shutdown := True\<rparr>" and ?lp' = "lp0\<lparr>lp_shutdown := True, lp_requests := [Reload]\<rparr>"
  have "client_request ''reload'' = Some Reload" by code_simp
  from daemon_run.client [OF daemon_run.start this, of ?env ?lp w] lp0
  have run: "daemon_run ?env (?lp, w) 0 1 (?lp', w)" by simp
  have "fst (os_instant (en_os ?env) k) = 0" for k by (simp add: demo_with_def)
  with shutdown_stops [OF run] lp0
  have "\<exists>j \<le> 12. lp_pc (fst ((main_step ?env ^^ j) (?lp', w))) = PStopped"
    by (simp add: engine_config_default_def)
  moreover have "reachable ?env (?lp, w)" by (rule reachable.stepped [OF r daemon_step.signal])
  ultimately show ?thesis using run lp0 by (intro exI [of _ ?lp] exI [of _ ?lp'] exI [of _ w]) simp
qed

lemma negative_doc:
  assumes "- (2 ^ 63) \<le> i" and "i < 0"
  shows "\<exists>e. parse_doc [KNode ''engine'' [] (Some [KNode ''scan-interval'' [(None, KInteger i)] None])] =
    Inr ([], daemon_default, e) \<and> too_long e"
proof -
  have "uint (word_of_int i :: u64) = i + 2 ^ 64"
    using assms mod_pos_pos_trivial [of "i + 2 ^ 64" "2 ^ 64"] by (simp add: uint_word_of_int)
  then have "2 ^ 63 \<le> unat (word_of_int i :: u64)" using assms(1) by (simp add: nat_uint_eq [symmetric] le_nat_iff)
  then show ?thesis
    by (simp add: parse_doc_def parse_node_def parse_engine_def engine_child_def children_of_def first_value_def
        and_then_def first_string_def as_u64_def too_long_def)
qed
lemma negative_load:
  assumes "\<forall>k. fst (os_read_file os path k) = Some content" and "kdl_doc content = Inr nodes"
    and "parse_doc nodes = Inr (as, d, e)" and "too_long e"
  shows "gives (\<lambda>r. \<forall>s. r = Inr s \<longrightarrow> too_long (engine s)) (load_snapshot os kdl_doc path topo v)"
proof -
  have "gives (\<lambda>r. r = Some content) (read_to_string os path)"
    using assms(1) by (simp add: read_to_string_def gives_def)
  then show ?thesis
    unfolding load_snapshot_def
    by (rule gives_bind) (use assms(2-4) in \<open>auto intro!: gives_return simp: parse_kdl_def split: if_splits\<close>)
qed

lemma top_panics:
  assumes "reachable env (lp, w)" and "loads_only env too_long (store_file (lp_store lp))"
    and "\<forall>k. 0 \<le> fst (os_instant (en_os env) k)" and "lp_pc lp = PTop" and "\<not> lp_shutdown lp"
  shows "\<exists>j \<le> 12 + length (lp_requests lp) + length (lp_reloads lp).
    lp_pc (fst ((main_step env ^^ j) (lp, w))) = PPanicked"
proof -
  obtain lp' w' where step: "main_step env (lp, w) = (lp', w')" by (cases "main_step env (lp, w)")
  then have lp': "lp_pc lp' = PRequests" "lp_requests lp' = lp_requests lp" "lp_reloads lp' = lp_reloads lp"
    "lp_store lp' = lp_store lp"
    using assms(4,5) by (auto simp: main_step_def top_phase_def Let_def split: prod.splits)
  have "reachable env (lp', w')"
    using reachable.stepped [OF assms(1) daemon_step.main] assms(4) step by simp
  from comes_to_panic [OF this _ assms(3)] assms(2) lp'
  obtain j where "j \<le> steps_left lp'" "lp_pc (fst ((main_step env ^^ j) (lp', w'))) = PPanicked"
    by (auto simp: before_poll_def)
  with step lp' show ?thesis
    by (intro exI [of _ "Suc j"]) (simp add: steps_left_def funpow_Suc_right del: funpow.simps)
qed

text \<open>
  C21. A negative \<open>scan-interval\<close> stops the daemon: in every state it can reach while its configuration
  file holds such an interval alone, the loop has never got past a poll, and but for a signal
  the main thread alone panics: in twelve steps and one for every queued message.
\<close>

theorem negative_interval_stops:
  assumes "reachable env (lp, w)" and "\<not> lp_shutdown lp"
    and "\<forall>k. fst (os_read_file (en_os env) (store_file (lp_store lp)) k) = Some content"
    and "en_kdl env content = Inr [KNode ''engine'' [] (Some [KNode ''scan-interval'' [(None, KInteger i)] None])]"
    and "- (2 ^ 63) \<le> i" and "i < 0" and "\<forall>k. 0 \<le> fst (os_instant (en_os env) k)"
  shows "lp_pc lp \<notin> {PContext, PForeground, PAudit} \<and>
    (\<exists>j \<le> 12 + length (lp_requests lp) + length (lp_reloads lp).
      lp_pc (fst ((main_step env ^^ j) (lp, w))) = PPanicked)"
proof -
  obtain e where "parse_doc [KNode ''engine'' [] (Some [KNode ''scan-interval'' [(None, KInteger i)] None])] =
      Inr ([], daemon_default, e)" "too_long e" using negative_doc [OF assms(5,6)] by blast
  from negative_load [of "en_os env" "store_file (lp_store lp)" content "en_kdl env", OF assms(3,4) this] have only: "loads_only env too_long (store_file (lp_store lp))"
    by (simp add: loads_only_def)
  have past: "lp_pc lp \<notin> {PContext, PForeground, PAudit}"
    using never_past_poll [OF assms(1) _ assms(7)] only by simp
  have "lp_pc lp \<noteq> PStopped" using stopped_by_signal [OF assms(1)] assms(2) by auto
  with past consider "lp_pc lp = PTop" | "lp_pc lp = PPanicked" | "lp_pc lp \<in> before_poll"
    by (cases "lp_pc lp") (simp_all add: before_poll_def)
  then show ?thesis
  proof cases
    case 1
    from top_panics [OF assms(1) only assms(7) 1 assms(2)] past show ?thesis by blast
  next
    case 2
    then show ?thesis using past by (intro conjI exI [of _ 0]) simp_all
  next
    case 3
    have "steps_left lp \<le> 12 + length (lp_requests lp) + length (lp_reloads lp)"
      by (simp add: steps_left_def split: phase.split)
    with comes_to_panic [OF assms(1) only assms(7) 3] past show ?thesis using le_trans by blast
  qed
qed

text \<open>With an interval of \<open>-1\<close>, from the first round on.\<close>

theorem negative_interval_stops_witness:
  "\<exists>env lp (w :: nat world). reachable env (lp, w) \<and> lp_pc lp = PRequests \<and>
     (\<exists>j \<le> 12. lp_pc (fst ((main_step env ^^ j) (lp, w))) = PPanicked)"
proof -
  let ?doc = "[KNode ''engine'' [] (Some [KNode ''scan-interval'' [(None, KInteger (- 1))] None])]"
  let ?env = "demo_with (\<lambda>k. (0, k)) ?doc"
  obtain e where "parse_doc ?doc = Inr ([], daemon_default, e)" using negative_doc [of "- 1"] by auto
  then obtain lp and w :: "nat world" where r: "reachable ?env (lp, w)" "lp_pc lp = PRequests" "lp_requests lp = []"
    "lp_reloads lp = []" "\<not> lp_shutdown lp" by (rule demo_round)
  have "\<forall>k. fst (os_read_file (en_os ?env) (store_file (lp_store lp)) k) = Some []" "en_kdl ?env [] = Inr ?doc"
    "\<forall>k. 0 \<le> fst (os_instant (en_os ?env) k)" by (simp_all add: demo_with_def demo_env_def)
  from negative_interval_stops [OF r(1,5) this(1,2) _ _ this(3)] r
  have "\<exists>j \<le> 12. lp_pc (fst ((main_step ?env ^^ j) (lp, w))) = PPanicked" by simp
  with r show ?thesis by blast
qed

section \<open>Control requests\<close>

text \<open>
  C22. A request for information (status, dump, snapshot) changes nothing of the daemon: the store and
  the source stay, and of the world only the kernel, which was asked, may differ.
\<close>

theorem information_changes_nothing:
  assumes "informs req"
    and "run_state (handle_ipc env topo de cfg win rx req st src) w = ((reply, st', src'), w')"
  shows "st' = st \<and> src' = src \<and> (\<exists>k. w' = w\<lparr>kern := k\<rparr>)"
proof -
  have "snd (reply, st', src') = (st, src)"
    using givesD [OF informs_keeps(2) [OF assms(1)]] assms(2) by (metis fst_conv)
  moreover have "only_kernel w w'"
    using keepsD [OF informs_keeps(1) [OF assms(1)] only_kernel_refl] assms(2) by (metis snd_conv)
  ultimately show ?thesis by (simp add: only_kernel_def)
qed

theorem information_changes_nothing_witness:
  "\<forall>topo de cfg win rx st src (w :: nat world). \<exists>k.
     snd (run_state (handle_ipc demo_env topo de cfg win rx Status st src) w) = w\<lparr>kern := k\<rparr>"
proof (intro allI)
  fix topo de cfg win rx st src and w :: "nat world"
  obtain reply st' src' w' where r: "run_state (handle_ipc demo_env topo de cfg win rx Status st src) w = ((reply, st', src'), w')"
    by (metis prod.exhaust)
  from information_changes_nothing [OF _ r] r
  show "\<exists>k. snd (run_state (handle_ipc demo_env topo de cfg win rx Status st src) w) = w\<lparr>kern := k\<rparr>" by simp
qed

text \<open>
  C16. The text of a dump shows the mask the kernel gave: when the package name has no newline, the
  third line of the reply is the mask as a range string, which reads back as that mask.
\<close>

theorem dump_shows_the_mask:
  assumes "run_state (ipc_dump os p) w = (reply, w')" and "reply = DumpReply q pkg n (Some r) owner alive"
    and "newline \<notin> set pkg"
  shows "\<exists>m. fst (run_state (read_allowed_mask os p) (kern w)) = Some m \<and>
    str_lines (reply_text zh io reply) ! 2 = ''  allowed_mask : '' @ r \<and> parse_cpu_ranges r None = m"
proof -
  have "map_option to_range_string (fst (run_state (read_allowed_mask os p) (kern w))) = Some r"
    using assms(1,2) by (auto simp: ipc_dump_def on_kern_def split: option.splits prod.splits)
  then obtain m where m: "fst (run_state (read_allowed_mask os p) (kern w)) = Some m" "r = to_range_string m" by auto
  have "wf_cpuset m"
    using givesD [OF allowed_wf, of os p w] m(1) by (simp add: backend_read_allowed_def on_kern_def split: prod.splits)
  with m dump_mask_line [OF assms(3), of m q n owner alive] assms(2) show ?thesis
    by (simp add: parse_to_range_string)
qed

theorem dump_shows_the_mask_witness:
  "parse_cpu_ranges (drop 17 (str_lines (reply_text True [] (fst (run_state
       (ipc_dump (demo_os\<lparr>os_read_file := \<lambda>_ k. (Some ''Cpus_allowed_list: 0-3'', k)\<rparr>) 7)
       (demo_world\<lparr>tracker := \<lparr>procs = [(7, process_new 7 1 ''a'' 3)], cpuset_refs = Map.empty\<rparr>\<rparr>)))) ! 2)) None =
     parse_cpu_ranges ''0-3'' None"
proof -
  let ?os = "demo_os\<lparr>os_read_file := \<lambda>_ k. (Some ''Cpus_allowed_list: 0-3'', k)\<rparr>"
  let ?w = "demo_world\<lparr>tracker := \<lparr>procs = [(7, process_new 7 1 ''a'' 3)], cpuset_refs = Map.empty\<rparr>\<rparr>"
  obtain reply w' where run: "run_state (ipc_dump ?os 7) ?w = (reply, w')" by (metis prod.exhaust)
  have one: "str_lines ''Cpus_allowed_list: 0-3'' = [''Cpus_allowed_list: 0-3'']"
    "strip_prefix ''Cpus_allowed_list:'' ''Cpus_allowed_list: 0-3'' = Some '' 0-3''" "trim '' 0-3'' = ''0-3''"
    by code_simp+
  have read: "run_state (read_allowed_mask ?os 7) k = (Some (parse_cpu_ranges ''0-3'' None), k)" for k
    by (simp add: read_allowed_mask_def read_to_string_def one)
  have "\<exists>n owner alive. reply = DumpReply 7 ''a'' n (Some (to_range_string (parse_cpu_ranges ''0-3'' None))) owner alive"
    using run by (auto simp: ipc_dump_def on_kern_def read tracker_get_def process_new_def split: prod.splits)
  then obtain n owner alive where
    reply: "reply = DumpReply 7 ''a'' n (Some (to_range_string (parse_cpu_ranges ''0-3'' None))) owner alive" by blast
  have "newline \<notin> set ''a''" by (rule printable_no_newline) (simp add: char_code_def)
  from dump_shows_the_mask [OF run reply this, of True "[]"]
  have "str_lines (reply_text True [] reply) ! 2 = ''  allowed_mask : '' @ to_range_string (parse_cpu_ranges ''0-3'' None)"
    "parse_cpu_ranges (to_range_string (parse_cpu_ranges ''0-3'' None)) None = parse_cpu_ranges ''0-3'' None"
    by (auto simp: read)
  then show ?thesis unfolding run by simp
qed

text \<open>
  A line of a client only ever becomes another request than \<open>status\<close> when the first word of its
  first 4096 bytes is one of six commands; an empty connection becomes no request.
\<close>

theorem only_known_commands_act:
  assumes "client_request sent = Some r" and "r \<noteq> Status"
  shows "sent \<noteq> [] \<and> (\<exists>c ps. utf8_words (utf8_trim (first_line (take 4096 sent))) = c # ps \<and>
    c \<in> {''dump'', ''reload'', ''apply'', ''snapshot'', ''apply-scene'', ''tune''})"
proof -
  have r: "r = parse_request (utf8_trim (first_line (take 4096 sent)))" "first_line (take 4096 sent) \<noteq> []"
    using assms(1) by (auto simp: client_request_def Let_def LINE_MAX_def split: if_splits)
  have "sent \<noteq> []" using r(2) by (auto simp: first_line_def)
  with parse_request_effect [of "utf8_trim (first_line (take 4096 sent))"] assms(2) r(1) show ?thesis
    by (auto simp: ipc_commands_def)
qed

theorem only_known_commands_act_witness:
  "client_request ''reload'' = Some Reload \<and> client_request ''rm -rf'' = Some Status"
proof -
  have reload: "client_request ''reload'' = Some Reload" by code_simp
  from only_known_commands_act [OF this] have "''reload'' \<noteq> []" by simp
  moreover have "client_request ''rm -rf'' = Some Status" by code_simp
  ultimately show ?thesis using reload by simp
qed

section \<open>Events\<close>

text \<open>
  C14. In a reachable state every event the source hands to the engine is sound: a fork or a new
  thread carries a package the source's rules are interested in, exec events are about the
  process itself, and exits are about tracked processes only.
\<close>

theorem polled_events_are_sound:
  assumes "reachable env (lp, w)"
    and "run_state (source_poll env deadline (lp_source lp)) w = ((src, evs), w')"
  shows "\<exists>R. source_ok (en_fnm env) R (lp_source lp) \<and> source_ok (en_fnm env) R src \<and>
    events_sound (en_fnm env) R (tracker w) evs"
proof -
  obtain R where R: "source_ok (en_fnm env) R (lp_source lp)"
    using reachable_ok [OF assms(1)] by (auto simp: daemon_ok_def loop_ok_def)
  moreover have "tracker_is (tracker w) w" by (simp add: tracker_is_def)
  ultimately show ?thesis
    using tripleD [OF source_poll_sound [OF R refl] _ assms(2)] by auto
qed

theorem polled_events_are_sound_witness:
  "\<exists>lp (w :: nat world) R. reachable demo_env (lp, w) \<and> source_ok (en_fnm demo_env) R (lp_source lp)"
proof -
  obtain lp and w :: "nat world" where r: "reachable demo_env (lp, w)" by (rule demo_reachable)
  obtain src evs w' where "run_state (source_poll demo_env 0 (lp_source lp)) w = ((src, evs), w')"
    by (metis prod.exhaust)
  from polled_events_are_sound [OF r this] r show ?thesis by blast
qed

text \<open>
  The exit of a process forgets exactly that process, whatever the kernel answers while its
  directories are released.
\<close>

theorem exit_forgets_the_process:
  assumes "ev_kind ev = Exit" and "ev_tid ev = ev_pid ev"
  shows "tracker_get p (snd (run_state (handle_event os fnm topo now rt ev) w)) =
    (if p = ev_pid ev then None else tracker_get p w)"
  using assms remove_get [of p os "ev_pid ev" w] by (simp add: handle_event_def case_prod_beta)

theorem exit_forgets_the_process_witness:
  "\<forall>fnm topo now rt w. tracker_get 7 (snd (run_state (handle_event demo_os fnm topo now rt (ev_exit 7 7)) w)) = None"
  by (intro allI, subst exit_forgets_the_process) (simp_all add: ev_exit_def)

section \<open>Clients\<close>

text \<open>
  C23. Clients of the control socket are served in turn: with its server thread beside it the
  daemon stays in the states it can reach alone, at most one request is queued at any time, and
  the replies written to the clients are, in order, the main loop's replies to their own
  requests.
\<close>

theorem clients_are_served_in_turn:
  assumes "system_reachable env (sv, lp, w)"
  shows "reachable env (lp, w) \<and> length (lp_requests lp) \<le> 1 \<and>
    answers sv = map (\<lambda>(q, r). (Some q, r)) (take (sv_received sv) (lp_replies lp))"
  using system_refines [OF assms] reachable_in_turn [OF assms] by (simp add: in_turn_def)

theorem clients_are_served_in_turn_witness:
  "\<exists>(sv :: server) (lp :: loop) (w :: nat world). sv_waiting sv = Some ''dump 7'' \<and> lp_requests lp = [Dump 7] \<and> reachable demo_env (lp, w)"
proof -
  obtain lp w where r: "run_state (daemon_start demo_env []) (world_new 0) = (StartLoop lp, w)"
    using demo_started by blast
  have req: "client_request ''dump 7'' = Some (Dump 7)"
    by code_simp
  let ?sv = "server_start\<lparr>sv_waiting := Some ''dump 7''\<rparr>" and ?lp = "lp\<lparr>lp_requests := lp_requests lp @ [Dump 7]\<rparr>"
  have "server_step (server_start, lp) (?sv, ?lp)"
    by (rule server_step.accepted [OF _ req]) (use started_queues [OF r] in \<open>simp_all add: server_start_def\<close>)
  then have "system_reachable demo_env (?sv, ?lp, w)"
    by (rule system_reachable.step [OF system_reachable.start [OF r] system_step.serve])
  from clients_are_served_in_turn [OF this] have "reachable demo_env (?lp, w)" by blast
  moreover have "sv_waiting ?sv = Some ''dump 7''" "lp_requests ?lp = [Dump 7]"
    using started_queues [OF r] by simp_all
  ultimately show ?thesis by blast
qed

text \<open>
  C24. A command given to the program as arguments reaches the daemon as the request it names: the
  program does not start a daemon but sends the line, and the daemon's parser reads the same
  request back, for process numbers of 32 bits, names without white space and lines below the
  limit.
\<close>

theorem commands_reach_the_daemon:
  assumes "request_ok q" and "length (join '' '' (request_args q)) < LINE_MAX"
  shows "\<exists>cmd. run_state (daemon_start env (request_args q)) w = (StartCli cmd, w) \<and>
    client_request (cli_sent (cli_command True True response cmd)) = Some q"
proof -
  have "request_args q \<noteq> []" "hd (request_args q) \<in> cli_commands"
    by (cases q rule: request_args.cases; simp add: cli_commands_def)+
  with request_round_trip [OF assms] show ?thesis by (simp add: daemon_start_def)
qed

theorem commands_reach_the_daemon_witness:
  "\<exists>cmd. client_request (cli_sent (cli_command True True None cmd)) = Some (TuneSys ''governor'' ''schedutil'')"
proof -
  have "is_word ''governor''" "is_word ''schedutil''"
    by (simp_all add: ascii_word is_ws_def char_code_def)
  then show ?thesis
    using commands_reach_the_daemon [of "TuneSys ''governor'' ''schedutil''" demo_env "world_new 0" None]
    by (auto simp: LINE_MAX_def)
qed

text \<open>
  C25. After a reload only processes are tracked that were tracked before, with the same package,
  and whose package stands in the list of the new configuration as it is. The list holds the patterns of the rules, so a process that only a
  wildcard pattern matches is forgotten, although its package is of interest (the witness).
\<close>

theorem reload_keeps_only_listed:
  assumes "refs_ok w" and "run_state (do_reload env topo de rx st src) w = (r, w')"
    and "tracker_get p w' = Some s"
  shows "ps_pkg s \<in> set (pkg_list (rules (current st))) \<and>
    (\<exists>s0. tracker_get p w = Some s0 \<and> ps_pkg s0 = ps_pkg s)"
proof -
  have "fixed_refs (tracker w) w" using assms(1) by (simp add: fixed_refs_def)
  from endsD [OF reload_listed this assms(2)] assms(3) show ?thesis
    by (auto simp: listed_def origin_def tracker_get_def)
qed

definition com_rules :: RuleSet where
  "com_rules = build_ruleset [rule_for ''com.*'' [] policy_none]"

definition com_world :: "nat world" where
  "com_world = demo_world\<lparr>tracker := \<lparr>procs = [(7, process_new 7 1 ''com.a'' 3)], cpuset_refs = Map.empty\<rparr>\<rparr>"

lemma com_interested: "fst (run_state (is_interested (\<lambda>_ _. True) ''com.a'') com_rules)"
  by (simp add: com_rules_def interested_value [OF build_cache_ok] interested_build rule_for_def
      contains_wildcard_def is_wild_char_def nul_char pattern_specificity_def fixed_prefix_def literal_count_def
      wildcard_count_def is_meta_def fnmatch_pkg_def MAX_PKG_LEN_def)

lemma com_refs: "refs_ok com_world"
  by (simp add: com_world_def refs_ok_def procs_ok_def refs_match_def process_new_def dirs_ok_def holders_def)

theorem reload_keeps_only_listed_witness:
  "fst (run_state (is_interested (\<lambda>_ _. True) ''com.a'') com_rules) \<and> tracker_get 7 com_world \<noteq> None \<and>
   (\<forall>topo de rx st src. tracker_get 7 (snd (run_state (do_reload demo_env topo de rx
      (st\<lparr>snapshot := (snapshot st)\<lparr>rules := com_rules\<rparr>\<rparr>) src) com_world)) = None)"
proof (intro conjI allI)
  fix topo de rx src and st :: ConfigStore
  let ?st = "st\<lparr>snapshot := (snapshot st)\<lparr>rules := com_rules\<rparr>\<rparr>"
  obtain r w where run: "run_state (do_reload demo_env topo de rx ?st src) com_world = (r, w)"
    by (metis prod.exhaust)
  have pkgs: "set (pkg_list (rules (current ?st))) = {''com.*''}"
    using build_index [of "[rule_for ''com.*'' [] policy_none]"]
    by (simp add: current_def pkg_list_def com_rules_def index_inv_def rule_for_def)
  have before: "tracker_get 7 com_world = Some s \<Longrightarrow> ps_pkg s = ''com.a''" for s
    by (simp add: com_world_def tracker_get_def process_new_def) auto
  have "tracker_get 7 w \<noteq> Some s" for s
  proof
    assume "tracker_get 7 w = Some s"
    from reload_keeps_only_listed [OF com_refs run this] have "ps_pkg s = ''com.*''" "ps_pkg s = ''com.a''"
      unfolding pkgs using before by auto
    then show False by simp
  qed
  then have "tracker_get 7 w = None" by (cases "tracker_get 7 w") auto
  then show "tracker_get 7 (snd (run_state (do_reload demo_env topo de rx ?st src) com_world)) = None"
    by (simp add: run)
qed (simp_all add: com_interested, simp add: com_world_def tracker_get_def)

section \<open>Scanning\<close>

text \<open>
  C26. The scanning source misses processes that come slowly: after a round that left the queue
  empty and no full scan ordered (\<open>settled\<close>), a round whose count of processes is at most five above the last one has events of tracked
  processes only, and leaves the source ready for the next such round, whatever the directory
  of processes shows.
\<close>

theorem slow_growth_is_missed:
  assumes "settled s" and "run_state (collect os fnm s) w = ((s', evs), w')"
    and "last_proc_total s' \<le> last_proc_total s + 5" and "last_proc_total s' \<noteq> -1"
  shows "(\<forall>e \<in> set evs. tracker_contains (ev_pid e) w) \<and> \<not> scan_all s' \<and> so_pending s' = []"
  using tripleD [OF settled_round [OF assms(1)] _ assms(2), of "tracker w"] assms(3,4)
  by (simp add: tracker_is_def tracker_contains_def tracker_get_def)

theorem slow_growth_is_missed_witness:
  "snd (fst (run_state (collect (demo_os\<lparr>os_read_dir := \<lambda>_ k. (Some [''9''], k)\<rparr>) (\<lambda>_ _. True)
     \<lparr>so_rules = Some com_rules, last_proc_total = 0, scan_all = False, so_pending = []\<rparr>) demo_world)) = []"
proof -
  let ?os = "demo_os\<lparr>os_read_dir := \<lambda>_ k. (Some [''9''], k)\<rparr>"
  let ?s = "\<lparr>so_rules = Some com_rules, last_proc_total = 0, scan_all = False, so_pending = []\<rparr>"
  obtain s' evs w' where run: "run_state (collect ?os (\<lambda>_ _. True) ?s) demo_world = ((s', evs), w')"
    by (metis prod.exhaust)
  have "last_proc_total s' = as_int32 1"
    using run by (auto simp: collect_def proc_flush_pending_def count_processes_def on_kern_def
        is_digit_def char_code_def split: prod.splits)
  then have "last_proc_total s' = 1" by (simp add: as_int32_def)
  moreover have "settled ?s" by (simp add: settled_def)
  ultimately have "\<forall>e \<in> set evs. tracker_contains (ev_pid e) demo_world"
    using slow_growth_is_missed [OF _ run] by simp
  then have "evs = []"
    by (cases evs) (auto simp: tracker_contains_def tracker_get_def demo_world_def tracker_new_def)
  then show ?thesis by (simp add: run)
qed

section \<open>Forks\<close>

text \<open>
  A fork whose command line stays empty expires: in a round in which every queued fork is due,
  each is gone afterwards or one retry older, and none has more than three retries.
\<close>

theorem forks_expire:
  assumes "cache_ok fnm rs" and "\<forall>p \<in> set qs. \<not> now < pf_next p \<and> n \<le> pf_retry p"
    and "run_state (foldM (flush_one os eb fnm now) qs (rs, [], [])) w = ((rs', kept, evs), w')"
  shows "(\<forall>q \<in> set kept. n < pf_retry q \<and> pf_retry q \<le> 3) \<and> length kept \<le> length qs \<and> (3 \<le> n \<longrightarrow> kept = [])"
proof -
  have "triple (\<lambda>_. True) (foldM (flush_one os eb fnm now) qs (rs, [], [])) (forks_inv fnm rs T now qs)" for T
    by (rule flush_forks_inv) (use assms(1) in \<open>simp_all add: kernel_blind_def rules_of_def\<close>)
  from tripleD [OF this _ assms(3)] have inv: "forks_inv fnm rs (tracker w) now qs (rs', kept, evs)" by blast
  then have "\<forall>q \<in> set kept. n < pf_retry q \<and> pf_retry q \<le> 3"
    using forks_inv_older [OF inv assms(2)] by (simp add: PENDING_MAX_RETRIES_def)
  moreover from this have "3 \<le> n \<longrightarrow> kept = []" by (cases kept) auto
  ultimately show ?thesis using inv by (simp add: forks_inv_def)
qed

theorem forks_expire_witness:
  "\<forall>w. \<exists>rs' evs w'. run_state (foldM (flush_one demo_os (en_bpf demo_env) (\<lambda>_ _. False) 5)
     [\<lparr>pf_child = 9, pf_retry = 3, pf_next = 4\<rparr>] (build_ruleset [], [], [])) w = ((rs', [], evs), w')"
proof
  fix w
  obtain rs' kept evs w' where r: "run_state (foldM (flush_one demo_os (en_bpf demo_env) (\<lambda>_ _. False) 5)
     [\<lparr>pf_child = 9, pf_retry = 3, pf_next = 4\<rparr>] (build_ruleset [], [], [])) w = ((rs', kept, evs), w')"
    by (metis prod.exhaust)
  from forks_expire [OF build_cache_ok _ r, of 3] r
  show "\<exists>rs' evs w'. run_state (foldM (flush_one demo_os (en_bpf demo_env) (\<lambda>_ _. False) 5)
     [\<lparr>pf_child = 9, pf_retry = 3, pf_next = 4\<rparr>] (build_ruleset [], [], [])) w = ((rs', [], evs), w')" by simp
qed

section \<open>The eBPF program\<close>

text \<open>
  C27. The limiter lets at most three events of a task through in any tenth of a second: when its
  map keeps entries, the events it admits from a sorted stream are spread so that the fourth
  of any four is at least 100 ms after the first.
\<close>

theorem bursts_are_limited:
  assumes "\<And>e b. dedup_get k key (dedup_insert k key e b) = Some e"
    and "dedup_get k key b = None" and "sorted ts" and "\<forall>t \<in> set ts. DEDUP_WINDOW_NS \<le> t"
    and "i + 3 < length (admitted k key ts b)"
  shows "unat (admitted k key ts b ! i) + 100000000 \<le> unat (admitted k key ts b ! (i + 3))"
proof (cases ts)
  case Nil
  with assms(5) show ?thesis by simp
next
  case (Cons t us)
  have t: "sorted us" "\<forall>u \<in> set us. t \<le> u" "\<not> t < DEDUP_WINDOW_NS" using assms(3,4) Cons by auto
  then have A: "admitted k key ts b = t # passes (dd t 1) us"
    unfolding admitted_passes [OF assms(1)] assms(2) Cons by (simp add: dedup_entry_def)
  show ?thesis
  proof (cases i)
    case 0
    with assms(5) A obtain a1 a2 a3 xs where P: "passes (dd t 1) us = a1 # a2 # a3 # xs"
      by (cases "passes (dd t 1) us" rule: remdups_adj.cases; cases "tl (tl (passes (dd t 1) us))") auto
    have "unat t + 100000000 \<le> unat a2" using passes_one [OF t(1,2) P] .
    moreover have "a2 \<le> a3" using passes_sorted [OF t(1), of "dd t 1"] P by simp
    ultimately show ?thesis using 0 A P by (simp add: word_le_nat_alt)
  next
    case (Suc j)
    then show ?thesis using passes_spread [OF t(1,2), of 1 j] assms(5) A by (simp add: add.commute)
  qed
qed

text \<open>A map of one entry; three events pass within a millisecond.\<close>

definition demo_bpf :: "DedupEntry option bpf" where
  "demo_bpf = \<lparr>target_has = \<lambda>key _. key \<in> set (target_entries [''com.tencent.mm'']), tracked_has = \<lambda>_ _. True,
     dedup_get = \<lambda>_ b. b, dedup_insert = \<lambda>_ e _. Some e, ring_reserve = \<lambda>_. True, ring_submit = \<lambda>_ b. b,
     ktime = \<lambda>b. (0, b), pid_tgid = \<lambda>_. 0, current_comm = \<lambda>_. None, read_comm = \<lambda>_ _. None,
     read_pid = \<lambda>_ _. None\<rparr>"

definition demo_times :: "u64 list" where
  "demo_times = [100000000, 199000000, 199500000, 200000000, 200000001, 300000000]"

lemma demo_admitted:
  "admitted demo_bpf 7 demo_times None = [100000000, 199000000, 200000000, 200000001, 300000000]"
  by (simp add: demo_bpf_def demo_times_def should_dedup_def dedup_entry_def DEDUP_WINDOW_NS_def DEDUP_MAX_COUNT_def)

theorem bursts_are_limited_witness:
  "unat (admitted demo_bpf 7 demo_times None ! 0) + 100000000 \<le> unat (admitted demo_bpf 7 demo_times None ! (0 + 3))"
proof (rule bursts_are_limited)
  show "0 + 3 < length (admitted demo_bpf 7 demo_times None)" by (simp add: demo_admitted)
qed (simp_all add: demo_bpf_def demo_times_def DEDUP_WINDOW_NS_def)

text \<open>
  The whitelist is complete: with the keys of the configured packages in the map, the eBPF filter
  accepts the task name of every such package, whether the kernel cut it after fifteen bytes
  or it shows the last fifteen.
\<close>

theorem whitelist_is_complete:
  assumes "p \<in> set pkgs" and "p \<noteq> []" and "\<forall>key \<in> set (target_entries pkgs). target_has k key b"
    and "c = comm_of p \<or> c = comm_of (drop (length p - 15) p)"
  shows "comm_matches k c b"
  using assms by (rule whitelisted_matches)

theorem whitelist_is_complete_witness:
  "comm_matches demo_bpf (comm_of ''com.tencent.mm'') None"
  by (rule whitelist_is_complete [of "''com.tencent.mm''" "[''com.tencent.mm'']"]) (simp_all add: demo_bpf_def)

text \<open>
  The map is large enough for the keys of a configuration of at most 2^30 packages (beyond
  that the 32-bit computation of its size wraps).
\<close>

theorem whitelist_fits:
  assumes "length pkgs \<le> 2 ^ 30"
  shows "length (target_entries pkgs) \<le> map_capacity (length pkgs)"
  using assms by (rule capacity_suffices)

theorem whitelist_fits_witness: "length (target_entries [''com.a'']) \<le> map_capacity (length [''com.a''])"
  by (rule whitelist_fits) simp

text \<open>
  C28. The daemon reads the events the eBPF program writes: the bytes of every event are read back
  as that event, whatever follows them in the ring buffer.
\<close>

theorem events_survive_the_ring:
  assumes "length (comm ev) = 16" and "\<forall>p \<in> {pe_pid ev, pe_tid ev, child_pid ev}. - (2 ^ 31) \<le> p \<and> p < 2 ^ 31"
  shows "decode_event (wire ev @ junk) = Some ev"
  using assms by (rule decode_wire)

theorem events_survive_the_ring_witness:
  "decode_event (wire \<lparr>pe_pid = 7, pe_tid = -1, child_pid = 0, comm = no_comm, event_type = EVENT_FORK\<rparr> @ []) =
     Some \<lparr>pe_pid = 7, pe_tid = -1, child_pid = 0, comm = no_comm, event_type = EVENT_FORK\<rparr>"
  by (rule events_survive_the_ring) (simp_all add: no_comm_def)

end
