(* ===== verification/Tracking_Properties.thy ===== *)
theory Tracking_Properties
  imports Tracking Daemon_Properties
begin

text \<open>
  The properties of the daemon that speak of the tracked processes in every run: the refinement of
  the moves of Tracking, and where tracked processes come from.
\<close>

section \<open>The first step of a daemon\<close>

lemma boot_pc: "gives (\<lambda>lp. lp_pc lp = PTop) (boot_loop env o' topo st)"
  unfolding boot_loop_def Let_def by (intro gives_bind_any gives_return) simp

lemma start_pc: "gives (\<lambda>s. \<forall>lp. s = StartLoop lp \<longrightarrow> lp_pc lp = PTop) (daemon_start env args)"
proof -
  have loaded: "gives (\<lambda>s. \<forall>lp. s = StartLoop lp \<longrightarrow> lp_pc lp = PTop) (start_loaded env o' topo r)" for o' topo r
    unfolding start_loaded_def
    by (cases r) (auto intro!: gives_return gives_bind_any gives_bind [OF boot_pc])
  have "gives (\<lambda>s. \<forall>lp. s = StartLoop lp \<longrightarrow> lp_pc lp = PTop) (start_options env o')" for o'
    unfolding start_options_def by (intro gives_bind_any loaded)
  then show ?thesis
    unfolding daemon_start_def by (auto intro!: gives_return split: sum.split)
qed

lemma demo_first:
  obtains lp lp' and w w' :: "nat world" where "reachable demo_env (lp, w)" "daemon_step demo_env (lp, w) (lp', w')"
    "lp_pc lp = PTop" "main_step demo_env (lp, w) = (lp', w')"
proof -
  obtain lp and w :: "nat world" where run: "run_state (daemon_start demo_env []) (world_new 0) = (StartLoop lp, w)"
    using demo_started by blast
  have top: "lp_pc lp = PTop"
    using givesD [OF start_pc, of demo_env "[]" "world_new 0"] run by simp
  obtain lp' w' where m: "main_step demo_env (lp, w) = (lp', w')" by (cases "main_step demo_env (lp, w)")
  have "daemon_step demo_env (lp, w) (main_step demo_env (lp, w))" by (intro daemon_step.main) (simp add: top)
  with that [OF reachable.started [OF run] _ top m] m show thesis by simp
qed

section \<open>The properties\<close>

text \<open>
  C11. The daemon refines the abstract machine on the view of its tracker. In a reachable state the
  requests, reloads, coverage and periodic phases only forget processes or scan them again, with
  the time of their last full scan kept; the cleanup only forgets; the poll runs the event
  specification, under the rules in force, over the events of its source; every other phase and
  every other thread leaves the tracker alone.
\<close>

theorem daemon_refines_tracking:
  assumes "reachable env (lp, w)" and "daemon_step env (lp, w) (lp', w')"
  shows "tracker w' = tracker w \<or> phase_move env lp w (tracked w')"
  using step_moves [of env lp w lp' w'] reachable_ok [OF assms(1)] assms(2) by simp

theorem daemon_refines_tracking_witness:
  "\<exists>lp lp' (w :: nat world) w'. reachable demo_env (lp, w) \<and> main_step demo_env (lp, w) = (lp', w') \<and>
     tracked w' = tracked w"
proof -
  obtain lp lp' and w w' :: "nat world" where c: "reachable demo_env (lp, w)" "daemon_step demo_env (lp, w) (lp', w')"
    "lp_pc lp = PTop" "main_step demo_env (lp, w) = (lp', w')" by (rule demo_first)
  from daemon_refines_tracking [OF c(1,2)] c(3) have "tracked w' = tracked w"
    by (auto simp: phase_move_def tracked_def)
  with c show ?thesis by blast
qed

text \<open>
  C12. A process is tracked only after an event: in a reachable state no step of any thread tracks a
  new process but the poll of the main loop, and then only one that a fork, exec or new thread
  among the events of the source is about, for a package the rules in force are interested in:
  the one the event carries, or else the one on the command line of the process.
\<close>

theorem only_events_track_processes:
  assumes "reachable env (lp, w)" and "daemon_step env (lp, w) (lp', w')"
  shows "\<exists>evs. polled env lp w evs \<and> (lp_pc lp = PPoll \<or> evs = []) \<and>
    dom (tracked w') \<subseteq> dom (tracked w) \<union> (\<Union>ev \<in> set evs. {p. announces (en_os env) (en_fnm env) (rules (lp_cfg lp)) ev p})"
proof (cases "tracker w' = tracker w")
  case True
  then show ?thesis by (intro exI [of _ "[]"]) (simp add: polled_def tracked_def)
next
  case False
  then have "phase_move env lp w (tracked w')"
    using step_moves [of env lp w lp' w'] reachable_ok [OF assms(1)] assms(2) by simp
  from move_births [OF this] show ?thesis by blast
qed

text \<open>The first poll of a daemon.\<close>

theorem only_events_track_processes_witness:
  "\<exists>lp lp' (w :: nat world) w' evs. reachable demo_env (lp, w) \<and> lp_pc lp = PPoll \<and>
     main_step demo_env (lp, w) = (lp', w') \<and> polled demo_env lp w evs \<and>
     dom (tracked w') \<subseteq> dom (tracked w) \<union>
       (\<Union>ev \<in> set evs. {p. announces (en_os demo_env) (en_fnm demo_env) (rules (lp_cfg lp)) ev p})"
proof -
  obtain lp0 and w0 :: "nat world" where "reachable demo_env (lp0, w0)" "lp_pc lp0 = PRequests"
    unfolding demo_is_with by (rule demo_round [OF no_doc])
  then obtain lp and w :: "nat world" where c: "reachable demo_env (lp, w)" "lp_pc lp = PPoll"
    using comes_to_poll [of demo_env lp0 w0] by (auto simp: before_poll_def)
  obtain lp' w' where step: "main_step demo_env (lp, w) = (lp', w')" by (cases "main_step demo_env (lp, w)")
  have "daemon_step demo_env (lp, w) (lp', w')"
    using daemon_step.main [of lp demo_env w] c(2) step by simp
  from only_events_track_processes [OF c(1) this] c step show ?thesis by blast
qed

end
