(* ===== verification/Inotify.thy ===== *)
theory Inotify
  imports Store Bytes System_Context
begin

text \<open>
  The thread that watches the configuration file (\<open>InotifyWatch\<close>, \<open>file_mtime\<close> and
  \<open>spawn_hot_reload\<close> of crates/core/src/store.rs), down to its descriptor: opening and
  re-installing the watch, the decoding of the events, the polling it falls back to, and the
  descriptors it holds. It refines \<open>hot_step\<close> of Store.
\<close>

section \<open>The calls\<close>

text \<open>
  A negative number is a failure of \<open>ino_init\<close> and \<open>ino_add\<close>. \<open>ino_read\<close> answers the bytes when
  there are any, otherwise the error number; \<open>ino_mtime\<close> the nanoseconds since the epoch.
\<close>

record 'k ino =
  ino_init :: "'k \<Rightarrow> int \<times> 'k"
  ino_add :: "int \<Rightarrow> string \<Rightarrow> 'k \<Rightarrow> int \<times> 'k"
  ino_rm :: "int \<Rightarrow> u32 \<Rightarrow> 'k \<Rightarrow> unit \<times> 'k"
  ino_close :: "int \<Rightarrow> 'k \<Rightarrow> unit \<times> 'k"
  ino_poll :: "int \<Rightarrow> int \<Rightarrow> 'k \<Rightarrow> poll_answer \<times> 'k"
  ino_read :: "int \<Rightarrow> 'k \<Rightarrow> (errno + string) \<times> 'k"
  ino_mtime :: "string \<Rightarrow> 'k \<Rightarrow> nat option \<times> 'k"

record InotifyWatch =
  iw_fd :: int
  iw_wd :: int
  iw_file :: string

section \<open>The watch\<close>

text \<open>\<open>CString::new\<close> fails on a name with a zero byte.\<close>

definition has_nul :: "string \<Rightarrow> bool" where
  "has_nul s = list_ex (\<lambda>c. char_code c = 0) s"

definition watch_init :: "'k ino \<Rightarrow> string \<Rightarrow> ('k, InotifyWatch option) state" where
  "watch_init io file = do {
     fd \<leftarrow> sys (ino_init io);
     if fd < 0 then ret None
     else if has_nul file then do { _ \<leftarrow> sys (ino_close io fd); ret None }
     else do {
       wd \<leftarrow> sys (ino_add io fd file);
       if wd < 0 then do { _ \<leftarrow> sys (ino_close io fd); ret None }
       else ret (Some \<lparr>iw_fd = fd, iw_wd = wd, iw_file = file\<rparr>)
     }
   }"

definition reinstall :: "'k ino \<Rightarrow> InotifyWatch \<Rightarrow> ('k, bool \<times> InotifyWatch) state" where
  "reinstall io w = do {
     _ \<leftarrow> sys (ino_rm io (iw_fd w) (word_of_int (iw_wd w)));
     if has_nul (iw_file w) then ret (False, w)
     else do {
       wd \<leftarrow> sys (ino_add io (iw_fd w) (iw_file w));
       ret (if wd < 0 then (False, w) else (True, w\<lparr>iw_wd := wd\<rparr>))
     }
   }"

definition watch_drop :: "'k ino \<Rightarrow> InotifyWatch option \<Rightarrow> ('k, unit) state" where
  "watch_drop io w = (case w of None \<Rightarrow> ret () | Some w \<Rightarrow> sys (ino_close io (iw_fd w)))"

text \<open>
  The events in the buffer, by their masks: an event is a header of four 32-bit numbers and as
  many further bytes as the fourth says.
\<close>

definition EVENT_HEADER :: nat where "EVENT_HEADER = 16"

function event_masks :: "string \<Rightarrow> u32 list" where
  "event_masks bytes =
     (if length bytes < EVENT_HEADER then []
      else read32 4 bytes # event_masks (drop (EVENT_HEADER + unat (read32 12 bytes)) bytes))"
  by auto
termination by (relation "measure length") (auto simp: EVENT_HEADER_def)

declare event_masks.simps [simp del]

fun watch_events ::
  "'k os \<Rightarrow> 'k ino \<Rightarrow> u32 list \<Rightarrow> bool \<Rightarrow> InotifyWatch \<Rightarrow> ('k, wait_result \<times> InotifyWatch) state" where
  "watch_events os io [] needed w = ret (if needed then NeedReload else NothingYet, w)"
| "watch_events os io (m # ms) needed w =
     (if m AND (IN_CLOSE_WRITE OR IN_DELETE_SELF OR IN_MOVE_SELF) = 0
      then watch_events os io ms needed w
      else if m AND (IN_DELETE_SELF OR IN_MOVE_SELF) = 0 then watch_events os io ms True w
      else do {
        _ \<leftarrow> sys (os_sleep os (from_secs 1));
        ok \<leftarrow> reinstall io w;
        if fst ok then watch_events os io ms True (snd ok) else ret (WatchBroken, snd ok)
      })"

text \<open>The timeout is computed as a 32-bit number (a build with overflow checks panics instead).\<close>

definition poll_timeout :: "u64 \<Rightarrow> int" where
  "poll_timeout secs = sint (ucast secs * 1000 :: u32)"

definition watch_wait ::
  "'k os \<Rightarrow> 'k ino \<Rightarrow> u64 \<Rightarrow> InotifyWatch \<Rightarrow> ('k, wait_result \<times> InotifyWatch) state" where
  "watch_wait os io poll_interval w = do {
     p \<leftarrow> sys (ino_poll io (iw_fd w) (poll_timeout poll_interval));
     (case p of
        PollErr e \<Rightarrow> ret (if e = EINTR then NothingYet else WatchBroken, w)
      | PollTimeout \<Rightarrow> ret (NothingYet, w)
      | PollReady \<Rightarrow> do {
          r \<leftarrow> sys (ino_read io (iw_fd w));
          (case r of
             Inl e \<Rightarrow> ret (if e \<noteq> EAGAIN then WatchBroken else NothingYet, w)
           | Inr bytes \<Rightarrow> watch_events os io (event_masks bytes) False w)
        })
   }"

section \<open>The thread\<close>

definition file_mtime :: "'k ino \<Rightarrow> string \<Rightarrow> ('k, int) state" where
  "file_mtime io path = do {
     r \<leftarrow> sys (ino_mtime io path);
     ret (case r of None \<Rightarrow> -1 | Some n \<Rightarrow> sint (word_of_nat n :: u64))
   }"

text \<open>
  The locals of the thread. The store is shared with the main loop (an \<open>Arc\<close>), so it is no part of them:
  an iteration takes the store as it is when the iteration comes to it.
\<close>

record hot_thread =
  ht_active :: bool
  ht_watch :: "InotifyWatch option"
  ht_mtime :: int

definition hot_start :: "'k ino \<Rightarrow> ConfigStore \<Rightarrow> ('k, hot_thread) state" where
  "hot_start io st = do {
     w \<leftarrow> watch_init io (store_file st);
     mt \<leftarrow> file_mtime io (store_file st);
     ret \<lparr>ht_active = (w \<noteq> None), ht_watch = w, ht_mtime = mt\<rparr>
   }"

text \<open>The thread, the store and the version that is sent.\<close>

type_synonym hot_result = "hot_thread \<times> ConfigStore \<times> u64 option"

definition thread_reload :: "'k os \<Rightarrow> kdl_parser \<Rightarrow> hot_thread \<Rightarrow> ConfigStore \<Rightarrow> ('k, hot_result) state" where
  "thread_reload os kdl_doc h st = do {
     rs \<leftarrow> reload os kdl_doc st;
     ret (h, snd rs, case fst rs of Inl _ \<Rightarrow> None | Inr _ \<Rightarrow> Some (version (current (snd rs))))
   }"

definition after_wait ::
  "'k os \<Rightarrow> 'k ino \<Rightarrow> kdl_parser \<Rightarrow> hot_thread \<Rightarrow> ConfigStore \<Rightarrow> wait_result \<Rightarrow> ('k, hot_result) state" where
  "after_wait os io kdl_doc h st waited =
     (case waited of
        NeedReload \<Rightarrow> thread_reload os kdl_doc h st
      | NothingYet \<Rightarrow> ret (h, st, None)
      | WatchBroken \<Rightarrow> do {
          _ \<leftarrow> watch_drop io (ht_watch h);
          ret (h\<lparr>ht_active := False, ht_watch := None, ht_mtime := -1\<rparr>, st, None)
        })"

definition poll_round ::
  "'k os \<Rightarrow> 'k ino \<Rightarrow> kdl_parser \<Rightarrow> u64 \<Rightarrow> hot_thread \<Rightarrow> ConfigStore \<Rightarrow> ('k, hot_result) state" where
  "poll_round os io kdl_doc poll_interval h st = do {
     mt \<leftarrow> file_mtime io (store_file st);
     r \<leftarrow> (if mt \<noteq> ht_mtime h
           then (if mt = -1 then ret (h\<lparr>ht_mtime := mt\<rparr>, st, None)
                 else thread_reload os kdl_doc (h\<lparr>ht_mtime := mt\<rparr>) st)
           else ret (h, st, None));
     _ \<leftarrow> sys (os_sleep os (from_secs (unat poll_interval)));
     ret r
   }"

text \<open>One iteration of the loop; \<open>None\<close> is the panic of \<open>unwrap\<close> on a missing watch.\<close>

definition hot_iter ::
  "'k os \<Rightarrow> 'k ino \<Rightarrow> kdl_parser \<Rightarrow> u64 \<Rightarrow> hot_thread \<Rightarrow> ConfigStore \<Rightarrow> ('k, hot_result option) state" where
  "hot_iter os io kdl_doc poll_interval h st =
     (if ht_active h
      then (case ht_watch h of
              None \<Rightarrow> ret None
            | Some w \<Rightarrow> do {
                r \<leftarrow> watch_wait os io poll_interval w;
                s \<leftarrow> after_wait os io kdl_doc (h\<lparr>ht_watch := Some (snd r)\<rparr>) st (fst r);
                ret (Some s)
              })
      else do { s \<leftarrow> poll_round os io kdl_doc poll_interval h st; ret (Some s) })"

text \<open>
  The thread from its start on, with the versions it sends. Each iteration comes with what the other
  threads did to the store since the last one, as a function of it; there are as many
  iterations as functions.
\<close>

type_synonym others = "ConfigStore \<Rightarrow> ConfigStore"

definition send :: "u64 option \<Rightarrow> u64 list \<Rightarrow> u64 list" where
  "send v vs = (case v of None \<Rightarrow> vs | Some n \<Rightarrow> vs @ [n])"

fun hot_loop ::
  "others list \<Rightarrow> 'k os \<Rightarrow> 'k ino \<Rightarrow> kdl_parser \<Rightarrow> u64 \<Rightarrow> hot_thread \<Rightarrow> ConfigStore \<Rightarrow> u64 list \<Rightarrow>
   ('k, (hot_thread \<times> ConfigStore \<times> u64 list) option) state" where
  "hot_loop [] os io kdl_doc poll_interval h st vs = ret (Some (h, st, vs))"
| "hot_loop (u # us) os io kdl_doc poll_interval h st vs = do {
     r \<leftarrow> hot_iter os io kdl_doc poll_interval h (u st);
     (case r of
        None \<Rightarrow> ret None
      | Some (h', st', v) \<Rightarrow> hot_loop us os io kdl_doc poll_interval h' st' (send v vs))
   }"

definition spawn_hot_reload ::
  "others list \<Rightarrow> 'k os \<Rightarrow> 'k ino \<Rightarrow> kdl_parser \<Rightarrow> u64 \<Rightarrow> ConfigStore \<Rightarrow>
   ('k, (hot_thread \<times> ConfigStore \<times> u64 list) option) state" where
  "spawn_hot_reload us os io kdl_doc poll_interval st = do {
     h \<leftarrow> hot_start io st;
     hot_loop us os io kdl_doc poll_interval h st []
   }"

end
