(* ===== verification/Inotify_Facts.thy ===== *)
theory Inotify_Facts
  imports Inotify Source_Facts
begin

text \<open>
  The watching thread: its iterations are iterations of \<open>hot_step\<close>, its descriptors are accounted
  for, and the events it decodes are those the kernel encoded.
\<close>

section \<open>The layout of inotify events\<close>

record inotify_event =
  ie_wd :: u32
  ie_mask :: u32
  ie_cookie :: u32
  ie_name :: string

definition event_bytes :: "inotify_event \<Rightarrow> string" where
  "event_bytes e = le32 (ie_wd e) @ le32 (ie_mask e) @ le32 (ie_cookie e) @
     le32 (word_of_nat (length (ie_name e))) @ ie_name e"

lemma masks_event:
  assumes "length (ie_name e) < 2 ^ 32"
  shows "event_masks (event_bytes e @ rest) = ie_mask e # event_masks rest"
proof -
  have "read32 4 (event_bytes e @ rest) = ie_mask e"
    using read32_at [of "le32 (ie_wd e)" 4] by (simp add: event_bytes_def)
  moreover have "read32 12 (event_bytes e @ rest) = word_of_nat (length (ie_name e))"
    using read32_at [of "le32 (ie_wd e) @ le32 (ie_mask e) @ le32 (ie_cookie e)" 12] by (simp add: event_bytes_def)
  moreover have "unat (word_of_nat (length (ie_name e)) :: u32) = length (ie_name e)"
    using assms by (simp add: unat_of_nat)
  ultimately show ?thesis
    by (subst event_masks.simps) (simp add: EVENT_HEADER_def event_bytes_def)
qed

lemma masks_events:
  assumes "\<forall>e \<in> set es. length (ie_name e) < 2 ^ 32"
  shows "event_masks (concat (map event_bytes es)) = map ie_mask es"
  using assms
proof (induction es)
  case Nil
  show ?case by (subst event_masks.simps) (simp add: EVENT_HEADER_def)
qed (simp add: masks_event)

section \<open>What a wait answers\<close>

definition file_changed :: "u32 \<Rightarrow> bool" where
  "file_changed m \<longleftrightarrow> m AND (IN_CLOSE_WRITE OR IN_DELETE_SELF OR IN_MOVE_SELF) \<noteq> 0"

definition file_lost :: "u32 \<Rightarrow> bool" where
  "file_lost m \<longleftrightarrow> m AND (IN_DELETE_SELF OR IN_MOVE_SELF) \<noteq> 0"

definition add_fails :: "'k ino \<Rightarrow> InotifyWatch \<Rightarrow> 'k \<Rightarrow> bool" where
  "add_fails io w k \<longleftrightarrow> has_nul (iw_file w) \<or> fst (ino_add io (iw_fd w) (iw_file w) k) < 0"

text \<open>
  What events mean: nothing when none of them says that the file changed, and otherwise a reload,
  unless the file was lost (moved or removed) and the watch could not be installed again.
\<close>

definition events_say :: "'k ino \<Rightarrow> InotifyWatch \<Rightarrow> bool \<Rightarrow> u32 list \<Rightarrow> wait_result \<Rightarrow> bool" where
  "events_say io w needed ms r \<longleftrightarrow>
     (r = NothingYet \<longleftrightarrow> \<not> needed \<and> \<not> list_ex file_changed ms) \<and>
     (r = WatchBroken \<longrightarrow> list_ex file_lost ms \<and> (\<exists>k. add_fails io w k)) \<and>
     (list_ex file_lost ms \<and> (\<forall>k. add_fails io w k) \<longrightarrow> r = WatchBroken)"

lemma lost_changed: "file_lost m \<Longrightarrow> file_changed m"
  unfolding file_lost_def file_changed_def
  by (simp add: bit.conj_disj_distrib or_eq_0_iff)

lemma watch_events_Cons:
  "watch_events os io (m # ms) needed w =
     (if \<not> file_changed m then watch_events os io ms needed w
      else if \<not> file_lost m then watch_events os io ms True w
      else do {
        _ \<leftarrow> sys (os_sleep os (from_secs 1));
        ok \<leftarrow> reinstall io w;
        if fst ok then watch_events os io ms True (snd ok) else ret (WatchBroken, snd ok)
      })"
  by (simp add: file_changed_def file_lost_def)

lemma reinstall_answer:
  assumes "run_state (reinstall io w) k = ((ok, w'), k')"
  shows "add_fails io w' = add_fails io w" and "\<not> ok \<longleftrightarrow> add_fails io w (snd (ino_rm io (iw_fd w) (word_of_int (iw_wd w)) k))"
  using assms by (auto simp: reinstall_def add_fails_def fun_eq_iff split: if_splits prod.splits)

lemma events_spec:
  "events_say io w needed ms (fst (fst (run_state (watch_events os io ms needed w) k)))"
proof (induction ms arbitrary: needed w k)
  case (Cons m ms)
  have IH: "events_say io w b ms (fst (fst (run_state (watch_events os io ms b w) k)))" for b w k by (rule Cons.IH)
  consider (no) "\<not> file_changed m" "\<not> file_lost m" | (written) "file_changed m" "\<not> file_lost m" | (lost) "file_changed m" "file_lost m"
    using lost_changed by blast
  then show ?case
  proof cases
    case no
    with IH [of w needed k] show ?thesis by (simp add: watch_events_Cons events_say_def del: watch_events.simps)
  next
    case written
    with IH [of w True k] show ?thesis by (simp add: watch_events_Cons events_say_def del: watch_events.simps)
  next
    case lost
    let ?k = "snd (os_sleep os (from_secs 1) k)"
    obtain ok w' k' where again: "run_state (reinstall io w) ?k = ((ok, w'), k')" by (metis prod.exhaust)
    have run: "fst (fst (run_state (watch_events os io (m # ms) needed w) k)) =
        (if ok then fst (fst (run_state (watch_events os io ms True w') k')) else WatchBroken)"
      using lost again by (simp add: watch_events_Cons case_prod_beta del: watch_events.simps)
    from IH [of w' True k'] lost reinstall_answer [OF again] show ?thesis
      unfolding run events_say_def by (cases ok) auto
  qed
qed (simp add: events_say_def)

text \<open>The same for a wait: an error of the poll or of the read, a timeout, or the bytes of events.\<close>

definition wait_says :: "'k ino \<Rightarrow> u64 \<Rightarrow> InotifyWatch \<Rightarrow> 'k \<Rightarrow> wait_result \<Rightarrow> bool" where
  "wait_says io secs w k r \<longleftrightarrow>
     (case ino_poll io (iw_fd w) (poll_timeout secs) k of
        (PollErr e, _) \<Rightarrow> r = (if e = EINTR then NothingYet else WatchBroken)
      | (PollTimeout, _) \<Rightarrow> r = NothingYet
      | (PollReady, k') \<Rightarrow>
          (case fst (ino_read io (iw_fd w) k') of
             Inl e \<Rightarrow> r = (if e = EAGAIN then NothingYet else WatchBroken)
           | Inr bytes \<Rightarrow> \<forall>es. bytes = concat (map event_bytes es) \<and> (\<forall>e \<in> set es. length (ie_name e) < 2 ^ 32) \<longrightarrow>
               events_say io w False (map ie_mask es) r))"

lemma wait_spec: "wait_says io secs w k (fst (fst (run_state (watch_wait os io secs w) k)))"
  using events_spec [of io w False _ os]
  by (auto simp: wait_says_def watch_wait_def masks_events split: prod.splits poll_answer.splits sum.splits)

lemma events_answer:
  assumes "\<And>fd path k. 0 \<le> fst (ino_add io fd path k)" and "\<not> has_nul (iw_file w)"
  shows "fst (fst (run_state (watch_events os io ms needed w) k)) =
    (if needed \<or> list_ex file_changed ms then NeedReload else NothingYet)"
proof -
  have "\<not> add_fails io w k" for k using assms by (simp add: add_fails_def not_less)
  with events_spec [of io w needed ms os k] show ?thesis
    by (cases "fst (fst (run_state (watch_events os io ms needed w) k))") (auto simp: events_say_def)
qed

section \<open>The iterations\<close>

definition hot_view :: "hot_thread \<Rightarrow> ConfigStore \<Rightarrow> hot_state" where
  "hot_view h st = \<lparr>inotify_active = ht_active h, last_mtime = ht_mtime h, hot_store = st\<rparr>"

definition sane :: "hot_thread \<Rightarrow> bool" where
  "sane h \<longleftrightarrow> (ht_active h \<longleftrightarrow> ht_watch h \<noteq> None)"

text \<open>
  What the thread hears from the kernel: the answer of a wait while it has a watch, and the
  modification time of the file, or \<open>-1\<close>, while it has none; and the state of the kernel after.
\<close>

definition mtime_says :: "'k ino \<Rightarrow> string \<Rightarrow> 'k \<Rightarrow> int \<Rightarrow> bool" where
  "mtime_says io path k t \<longleftrightarrow>
     (case fst (ino_mtime io path k) of None \<Rightarrow> t = -1 | Some n \<Rightarrow> n < 2 ^ 63 \<longrightarrow> t = int n)"

definition heard :: "'k ino \<Rightarrow> u64 \<Rightarrow> string \<Rightarrow> hot_thread \<Rightarrow> 'k \<Rightarrow> wait_result \<Rightarrow> int \<Rightarrow> bool" where
  "heard io secs path h k waited mtime \<longleftrightarrow>
     (case ht_watch h of Some w \<Rightarrow> wait_says io secs w k waited | None \<Rightarrow> mtime_says io path k mtime)"

definition asked :: "'k os \<Rightarrow> 'k ino \<Rightarrow> u64 \<Rightarrow> string \<Rightarrow> hot_thread \<Rightarrow> 'k \<Rightarrow> 'k" where
  "asked os io secs path h k =
     (case ht_watch h of
        Some w \<Rightarrow> snd (run_state (watch_wait os io secs w) k)
      | None \<Rightarrow> snd (ino_mtime io path k))"

text \<open>A version is sent exactly after a reload, one above the version it found in the store.\<close>

definition sends :: "ConfigStore \<Rightarrow> ConfigStore \<Rightarrow> u64 option \<Rightarrow> bool" where
  "sends st st' v \<longleftrightarrow>
     (case v of
        None \<Rightarrow> st' = st
      | Some n \<Rightarrow> n = version (snapshot st) + 1 \<and> n = version (snapshot st') \<and> store_file st' = store_file st)"

text \<open>The iteration is one \<open>hot_step\<close> on the shared store, with what the thread heard.\<close>

definition iterates ::
  "'k os \<Rightarrow> 'k ino \<Rightarrow> kdl_parser \<Rightarrow> u64 \<Rightarrow> hot_thread \<Rightarrow> ConfigStore \<Rightarrow> 'k \<Rightarrow> hot_result \<Rightarrow> bool" where
  "iterates os io kdl_doc secs h st k s \<longleftrightarrow>
     (\<exists>waited mtime. heard io secs (store_file st) h k waited mtime \<and>
        fst (run_state (hot_step os kdl_doc waited mtime (hot_view h st)) (asked os io secs (store_file st) h k)) =
          (hot_view (fst s) (fst (snd s)), snd (snd s))) \<and>
     sends st (fst (snd s)) (snd (snd s))"

text \<open>A run of the thread: its iterations, with what the others do to the store between them.\<close>

inductive watches ::
  "'k os \<Rightarrow> 'k ino \<Rightarrow> kdl_parser \<Rightarrow> u64 \<Rightarrow> others list \<Rightarrow> 'k \<Rightarrow> hot_thread \<times> ConfigStore \<times> u64 list \<Rightarrow>
   'k \<Rightarrow> hot_thread \<times> ConfigStore \<times> u64 list \<Rightarrow> bool" for os io kdl_doc secs where
  stays: "watches os io kdl_doc secs [] k x k x"
| iteration: "run_state (hot_iter os io kdl_doc secs h (u st)) k = (Some (h', st', v), k') \<Longrightarrow>
    iterates os io kdl_doc secs h (u st) k (h', st', v) \<Longrightarrow>
    watches os io kdl_doc secs us k' (h', st', send v vs) k'' y \<Longrightarrow>
    watches os io kdl_doc secs (u # us) k (h, st, vs) k'' y"

lemma reload_runs:
  assumes "run_state (thread_reload os kdl_doc h st) k = ((h', st', v), k')"
  shows "run_state (hot_reload_now os kdl_doc (hot_view h st)) k = ((hot_view h' st', v), k') \<and>
    h' = h \<and> sends st st' v"
proof -
  obtain r where r: "run_state (reload os kdl_doc st) k = ((r, st'), k')" "h' = h"
    "v = (case r of Inl _ \<Rightarrow> None | Inr _ \<Rightarrow> Some (version (current st')))"
    using assms by (auto simp: thread_reload_def split: prod.splits)
  moreover have "sends st st' v"
    using givesD [OF reload_result, of st os kdl_doc k] r
    by (auto simp: reload_post_def sends_def current_def split: sum.splits)
  ultimately show ?thesis by (auto simp: hot_reload_now_def hot_view_def split: sum.splits)
qed

lemma view_watch: "hot_view (h\<lparr>ht_watch := w\<rparr>) st = hot_view h st"
  by (simp add: hot_view_def)

lemma after_iterates:
  assumes "run_state (after_wait os io kdl_doc h st waited) k = ((h', st', v), k')" and "sane h" and "ht_active h"
  shows "sane h' \<and> sends st st' v \<and>
    fst (run_state (hot_step os kdl_doc waited t (hot_view h st)) k) = (hot_view h' st', v)"
proof (cases waited)
  case NeedReload
  with assms(1) have "run_state (thread_reload os kdl_doc h st) k = ((h', st', v), k')" by (simp add: after_wait_def)
  from reload_runs [OF this] assms(2,3) NeedReload show ?thesis
    by (simp add: hot_step_def hot_view_def)
next
  case NothingYet
  with assms show ?thesis by (simp add: after_wait_def hot_step_def hot_view_def sends_def)
next
  case WatchBroken
  with assms show ?thesis
    by (auto simp: after_wait_def hot_step_def hot_view_def sends_def sane_def split: prod.splits)
qed

lemma sint_small: "n < 2 ^ 63 \<Longrightarrow> sint (word_of_nat n :: u64) = int n"
  by (simp add: signed_of_nat signed_take_bit_int_eq_self)

lemma mtime_spec: "mtime_says io path k (fst (run_state (file_mtime io path) k))"
  by (auto simp: file_mtime_def mtime_says_def sint_small split: prod.splits option.splits)

lemma poll_iterates:
  assumes "run_state (poll_round os io kdl_doc secs h st) k = ((h', st', v), k')" and "sane h" and "\<not> ht_active h"
  shows "sane h' \<and> iterates os io kdl_doc secs h st k (h', st', v)"
proof -
  obtain t j where t: "run_state (file_mtime io (store_file st)) k = (t, j)"
    by (cases "run_state (file_mtime io (store_file st)) k")
  have j: "j = snd (ino_mtime io (store_file st) k)"
    using t by (auto simp: file_mtime_def split: prod.splits)
  have none: "ht_watch h = None" using assms(2,3) by (simp add: sane_def)
  have says: "heard io secs (store_file st) h k NothingYet t"
    using mtime_spec [of io "store_file st" k] t none by (simp add: heard_def)
  let ?m = "if t \<noteq> ht_mtime h
      then (if t = -1 then ret (h\<lparr>ht_mtime := t\<rparr>, st, None) else thread_reload os kdl_doc (h\<lparr>ht_mtime := t\<rparr>) st)
      else ret (h, st, None)"
  obtain j' where m: "run_state ?m j = ((h', st', v), j')"
    using assms(1) t by (auto simp: poll_round_def split: prod.splits if_splits)
  have "sane h' \<and> sends st st' v \<and>
      fst (run_state (hot_step os kdl_doc NothingYet t (hot_view h st)) j) = (hot_view h' st', v)"
    using m assms(2,3) reload_runs [of os kdl_doc "h\<lparr>ht_mtime := t\<rparr>" st j h' st' v j']
    by (auto simp: sane_def hot_step_def hot_view_def sends_def split: if_splits)
  with says none j show ?thesis by (auto simp: iterates_def asked_def)
qed

lemma iter_iterates:
  assumes "sane h"
  shows "\<exists>h' st' v k'. run_state (hot_iter os io kdl_doc secs h st) k = (Some (h', st', v), k') \<and> sane h' \<and>
    iterates os io kdl_doc secs h st k (h', st', v)"
proof (cases "ht_active h")
  case True
  with assms obtain w where w: "ht_watch h = Some w" by (auto simp: sane_def)
  obtain waited w' j where wait: "run_state (watch_wait os io secs w) k = ((waited, w'), j)" by (metis prod.exhaust)
  let ?h = "h\<lparr>ht_watch := Some w'\<rparr>"
  obtain h' st' v k' where after: "run_state (after_wait os io kdl_doc ?h st waited) j = ((h', st', v), k')"
    by (metis prod.exhaust)
  have "sane h' \<and> sends st st' v \<and>
      fst (run_state (hot_step os kdl_doc waited 0 (hot_view h st)) j) = (hot_view h' st', v)"
    using after_iterates [OF after, of 0] True by (simp add: sane_def view_watch)
  moreover have "heard io secs (store_file st) h k waited 0"
    using wait_spec [of io secs w k os] wait w by (simp add: heard_def)
  ultimately have "sane h' \<and> iterates os io kdl_doc secs h st k (h', st', v)"
    using wait w by (auto simp: iterates_def asked_def)
  then show ?thesis using wait after True w by (simp add: hot_iter_def)
next
  case False
  obtain h' st' v k' where r: "run_state (poll_round os io kdl_doc secs h st) k = ((h', st', v), k')"
    by (metis prod.exhaust)
  with poll_iterates [OF r assms False] False show ?thesis by (simp add: hot_iter_def)
qed

lemma loop_watches:
  "sane h \<Longrightarrow> \<exists>h' st' vs' k'. run_state (hot_loop us os io kdl_doc secs h st vs) k = (Some (h', st', vs'), k') \<and>
     watches os io kdl_doc secs us k (h, st, vs) k' (h', st', vs')"
proof (induction us arbitrary: h st vs k)
  case Nil
  then show ?case by (simp add: watches.stays)
next
  case (Cons u us)
  from iter_iterates [OF Cons.prems, of os io kdl_doc secs "u st" k] obtain h1 st1 v k1
    where one: "run_state (hot_iter os io kdl_doc secs h (u st)) k = (Some (h1, st1, v), k1)" "sane h1"
      "iterates os io kdl_doc secs h (u st) k (h1, st1, v)" by blast
  from Cons.IH [OF one(2), of st1 "send v vs" k1] obtain h' st' vs' k'
    where rest: "run_state (hot_loop us os io kdl_doc secs h1 st1 (send v vs)) k1 = (Some (h', st', vs'), k')"
      "watches os io kdl_doc secs us k1 (h1, st1, send v vs) k' (h', st', vs')" by blast
  from watches.iteration [of os io kdl_doc secs h u st k, OF one(1,3) rest(2)] one(1) rest(1) show ?case by auto
qed

lemma start_sane: "run_state (hot_start io st) k = (h, k') \<Longrightarrow> sane h"
  by (auto simp: hot_start_def sane_def split: prod.splits)

lemma spawn_watches:
  obtains h0 k0 h st' vs k' where "run_state (hot_start io st) k = (h0, k0)"
    "run_state (spawn_hot_reload us os io kdl_doc secs st) k = (Some (h, st', vs), k')"
    "watches os io kdl_doc secs us k0 (h0, st, []) k' (h, st', vs)"
proof -
  obtain h0 k0 where start: "run_state (hot_start io st) k = (h0, k0)" by (cases "run_state (hot_start io st) k")
  from loop_watches [OF start_sane [OF this], of us os io kdl_doc secs st "[]" k0] start that show thesis
    by (auto simp: spawn_hot_reload_def)
qed

text \<open>When the others leave the version alone, the versions that are sent count up.\<close>

definition counted :: "u64 \<Rightarrow> u64 list \<Rightarrow> bool" where
  "counted v vs \<longleftrightarrow> vs = map (\<lambda>i. v + word_of_nat (Suc i)) [0..<length vs]"

lemma counted_send: "counted v0 vs \<Longrightarrow> version (snapshot st) = v0 + word_of_nat (length vs) \<Longrightarrow> sends st st' v \<Longrightarrow>
    counted v0 (send v vs) \<and> version (snapshot st') = v0 + word_of_nat (length (send v vs))"
  by (cases v) (auto simp: counted_def sends_def send_def add.assoc)

lemma watches_count:
  assumes "watches os io kdl_doc secs us k x k' y" and "\<forall>u \<in> set us. \<forall>s. version (snapshot (u s)) = version (snapshot s)"
    and "counted v0 (snd (snd x))" and "version (snapshot (fst (snd x))) = v0 + word_of_nat (length (snd (snd x)))"
  shows "counted v0 (snd (snd y))"
  using assms
proof induction
  case (iteration h u st k h' st' v k' us vs k'' y)
  have "sends (u st) st' v" using iteration.hyps(2) by (simp add: iterates_def)
  with counted_send [of v0 vs "u st" st' v] iteration.prems iteration.IH show ?case by simp
qed simp

section \<open>Descriptors\<close>

text \<open>
  What the kernel promises about descriptors: \<open>opened k\<close> are those of the process, an
  initialisation opens a fresh one or none, a close closes its own, and the other calls the
  thread makes open and close none.
\<close>

definition fd_ledger :: "('k \<Rightarrow> int set) \<Rightarrow> 'k os \<Rightarrow> 'k ino \<Rightarrow> bool" where
  "fd_ledger opened os io \<longleftrightarrow>
     (\<forall>k fd k'. ino_init io k = (fd, k') \<longrightarrow>
        (if fd < 0 then opened k' = opened k else fd \<notin> opened k \<and> opened k' = insert fd (opened k))) \<and>
     (\<forall>fd k. opened (snd (ino_close io fd k)) = opened k - {fd}) \<and>
     (\<forall>fd path k. opened (snd (ino_add io fd path k)) = opened k) \<and>
     (\<forall>fd wd k. opened (snd (ino_rm io fd wd k)) = opened k) \<and>
     (\<forall>fd t k. opened (snd (ino_poll io fd t k)) = opened k) \<and>
     (\<forall>fd k. opened (snd (ino_read io fd k)) = opened k) \<and>
     (\<forall>path k. opened (snd (ino_mtime io path k)) = opened k) \<and>
     (\<forall>n k. opened (snd (os_sleep os n k)) = opened k) \<and>
     (\<forall>path k. opened (snd (os_read_file os path k)) = opened k)"

text \<open>The thread holds the descriptor of its watch and no other, beside those of the process.\<close>

definition holds :: "('k \<Rightarrow> int set) \<Rightarrow> int set \<Rightarrow> InotifyWatch option \<Rightarrow> 'k \<Rightarrow> bool" where
  "holds opened F w k \<longleftrightarrow>
     (case w of None \<Rightarrow> opened k = F | Some w \<Rightarrow> iw_fd w \<notin> F \<and> opened k = insert (iw_fd w) F)"

lemma holds_same: "iw_fd w' = iw_fd w \<Longrightarrow> holds opened F (Some w') = holds opened F (Some w)"
  by (simp add: holds_def fun_eq_iff)

lemma ledger_calls:
  assumes "fd_ledger opened os io"
  shows "keeps (holds opened F w) (sys (ino_add io fd path))"
    and "keeps (holds opened F w) (sys (ino_rm io fd wd))"
    and "keeps (holds opened F w) (sys (ino_poll io fd t))"
    and "keeps (holds opened F w) (sys (ino_read io fd))"
    and "keeps (holds opened F w) (sys (ino_mtime io path))"
    and "keeps (holds opened F w) (sys (os_sleep os n))"
    and "keeps (holds opened F w) (sys (os_read_file os path))"
  using assms by (auto simp: keeps_def holds_def fd_ledger_def split: option.splits)

lemma close_ends:
  assumes "fd_ledger opened os io"
  shows "ends (holds opened F w) (watch_drop io w) (\<lambda>_. holds opened F None)"
  using assms by (auto simp: watch_drop_def ends_def holds_def fd_ledger_def split: option.split)

lemma reload_holds:
  assumes "fd_ledger opened os io"
  shows "keeps (holds opened F w) (reload os kdl_doc st)"
  unfolding reload_def load_snapshot_def read_to_string_def
  by (intro keeps_intros ledger_calls [OF assms])

lemma init_ends:
  assumes ledger: "fd_ledger opened os io"
  shows "ends (\<lambda>k. opened k = F) (watch_init io file) (holds opened F)"
proof -
  let ?post = "\<lambda>fd k. if fd < 0 then opened k = F else fd \<notin> F \<and> opened k = insert fd F"
  have start: "ends (\<lambda>k. opened k = F) (sys (ino_init io)) ?post"
  proof -
    have "?post (fst (ino_init io k)) (snd (ino_init io k))" if "opened k = F" for k
      using ledger that unfolding fd_ledger_def by (metis prod.collapse)
    then show ?thesis by (simp add: ends_def)
  qed
  have closed: "ends (?post fd) (do { _ \<leftarrow> sys (ino_close io fd); ret None }) (holds opened F)" if "\<not> fd < 0" for fd
    using ledger that by (auto simp: ends_def holds_def fd_ledger_def case_prod_beta)
  have add: "ends (?post fd) (sys (ino_add io fd file)) (\<lambda>_. ?post fd)" for fd
    using ledger by (simp add: ends_def fd_ledger_def)
  show ?thesis
    unfolding watch_init_def
  proof (rule ends_seq [OF start], rule ends_if, goal_cases)
    case (1 fd)
    then show ?case by (intro ends_return) (simp add: holds_def)
  next
    case (2 fd)
    then show ?case
      by (intro ends_if closed ends_seq [OF add] ends_return) (auto simp: holds_def)
  qed
qed

lemma events_hold:
  assumes ledger: "fd_ledger opened os io"
  shows "ends (holds opened F (Some w)) (watch_events os io ms needed w) (\<lambda>r. holds opened F (Some (snd r)))"
proof (induction ms arbitrary: needed w)
  case Nil
  then show ?case by (simp add: ends_return)
next
  case (Cons m ms)
  have again: "ends (holds opened F (Some w)) (reinstall io w) (\<lambda>r. holds opened F (Some (snd r)))"
    unfolding reinstall_def
    by (intro ends_seq [OF ends_keeps] ledger_calls [OF ledger] ends_if ends_return) (auto simp: holds_def)
  show ?case unfolding watch_events.simps
    by (intro ends_if Cons.IH ends_seq [OF ends_keeps] ledger_calls [OF ledger] ends_seq [OF again] ends_return) auto
qed

lemma wait_holds:
  assumes ledger: "fd_ledger opened os io"
  shows "ends (holds opened F (Some w)) (watch_wait os io secs w) (\<lambda>r. holds opened F (Some (snd r)))"
proof -
  have ready: "ends (holds opened F (Some w)) (case r of
        Inl e \<Rightarrow> ret (if e \<noteq> EAGAIN then WatchBroken else NothingYet, w)
      | Inr bytes \<Rightarrow> watch_events os io (event_masks bytes) False w) (\<lambda>r. holds opened F (Some (snd r)))" for r
    by (cases r) (auto intro: ends_return events_hold [OF ledger])
  have "ends (holds opened F (Some w)) (case p of
        PollErr e \<Rightarrow> ret (if e = EINTR then NothingYet else WatchBroken, w)
      | PollTimeout \<Rightarrow> ret (NothingYet, w)
      | PollReady \<Rightarrow> do {
          r \<leftarrow> sys (ino_read io (iw_fd w));
          (case r of
             Inl e \<Rightarrow> ret (if e \<noteq> EAGAIN then WatchBroken else NothingYet, w)
           | Inr bytes \<Rightarrow> watch_events os io (event_masks bytes) False w)
        }) (\<lambda>r. holds opened F (Some (snd r)))" for p
    by (cases p) (auto intro!: ends_return ends_seq [OF ends_keeps] ledger_calls [OF ledger] ready)
  then show ?thesis
    unfolding watch_wait_def by (intro ends_seq [OF ends_keeps] ledger_calls [OF ledger])
qed

definition thread_holds :: "('k \<Rightarrow> int set) \<Rightarrow> int set \<Rightarrow> hot_thread \<Rightarrow> 'k \<Rightarrow> bool" where
  "thread_holds opened F h = holds opened F (ht_watch h)"

lemma thread_reload_ends:
  assumes ledger: "fd_ledger opened os io"
  shows "ends (thread_holds opened F h) (thread_reload os kdl_doc h st) (\<lambda>s. thread_holds opened F (fst s))"
  unfolding thread_reload_def thread_holds_def
  by (rule ends_seq [OF ends_keeps [OF reload_holds [OF ledger]]], rule ends_return) simp

lemma iter_ends:
  assumes ledger: "fd_ledger opened os io" and "sane h"
  shows "ends (thread_holds opened F h) (hot_iter os io kdl_doc secs h st)
    (\<lambda>r k. \<exists>s. r = Some s \<and> thread_holds opened F (fst s) k)"
proof (cases "ht_active h")
  case True
  with assms obtain w where w: "ht_watch h = Some w" by (auto simp: sane_def)
  have after: "ends (holds opened F (Some w')) (after_wait os io kdl_doc (h\<lparr>ht_watch := Some w'\<rparr>) st waited)
      (\<lambda>s. thread_holds opened F (fst s))" for w' waited
    using thread_reload_ends [OF ledger, of F "h\<lparr>ht_watch := Some w'\<rparr>" kdl_doc st]
    by (cases waited)
      (auto simp: after_wait_def thread_holds_def intro!: ends_return ends_seq [OF close_ends [OF ledger]])
  show ?thesis
    unfolding hot_iter_def thread_holds_def using True w
    by (simp only: if_True option.case)
      (rule ends_seq [OF wait_holds [OF ledger]], rule ends_seq [OF after], rule ends_return,
        auto simp: thread_holds_def)
next
  case False
  have step: "ends (thread_holds opened F h) (if mt \<noteq> ht_mtime h
      then (if mt = -1 then ret (h\<lparr>ht_mtime := mt\<rparr>, st, None) else thread_reload os kdl_doc (h\<lparr>ht_mtime := mt\<rparr>) st)
      else ret (h, st, None)) (\<lambda>s. thread_holds opened F (fst s))" for mt
    using thread_reload_ends [OF ledger, of F "h\<lparr>ht_mtime := mt\<rparr>" kdl_doc st]
    by (auto simp: thread_holds_def intro!: ends_return)
  have "ends (thread_holds opened F h) (poll_round os io kdl_doc secs h st) (\<lambda>s. thread_holds opened F (fst s))"
    unfolding poll_round_def file_mtime_def
    by (rule ends_seq [OF ends_keeps], unfold thread_holds_def, intro keeps_intros ledger_calls [OF ledger],
        rule ends_seq [OF step [unfolded thread_holds_def]],
        rule ends_seq [OF ends_keeps [OF ledger_calls(6) [OF ledger]]], rule ends_return)
  then show ?thesis
    unfolding hot_iter_def using False
    by (simp only: if_False) (rule ends_seq, assumption, rule ends_return, auto)
qed

lemma watches_hold:
  assumes "watches os io kdl_doc secs us k x k' y" and "fd_ledger opened os io"
    and "sane (fst x)" and "thread_holds opened F (fst x) k"
  shows "thread_holds opened F (fst y) k'"
  using assms
proof induction
  case (iteration h u st k h' st' v k' us vs k'' y)
  then have "sane h" "thread_holds opened F h k" by simp_all
  with endsD [OF iter_ends [OF iteration.prems(1)] _ iteration.hyps(1), of F]
    iter_iterates [of h os io kdl_doc secs "u st" k] iteration.hyps(1)
  have "sane h'" "thread_holds opened F h' k'" by auto
  with iteration.IH iteration.prems(1) show ?case by simp
qed simp

end
