(* ===== verification/Reload_Race.thy ===== *)
theory Reload_Race
  imports Store
begin

text \<open>
  Reloads that overlap (crates/core/src/store.rs). \<open>reload\<close> takes the lock of the store twice: once
  for the version of the current snapshot, once to put the new one; the file is read between. The
  relation \<open>race_step\<close> cuts it there and interleaves any number of threads (the daemon has two that
  reload: the main thread for its clients and the watching thread) with changes of the files.
  Theory Store has a whole reload as one step; \<open>alone\<close> shows that this is a reload nobody
  interrupts.
\<close>

section \<open>The parts of a reload\<close>

definition reload_begin :: "ConfigStore \<Rightarrow> u64" where
  "reload_begin st = version (current st) + 1"

definition reload_load ::
  "'k os \<Rightarrow> kdl_parser \<Rightarrow> ConfigStore \<Rightarrow> u64 \<Rightarrow> ('k, load_error + ConfigSnapshot) state" where
  "reload_load os kdl_doc st v = load_snapshot os kdl_doc (store_file st) (store_topo st) v"

definition reload_end :: "ConfigSnapshot \<Rightarrow> ConfigStore \<Rightarrow> ConfigStore" where
  "reload_end s st = st\<lparr>snapshot := s\<rparr>"

lemma reload_parts:
  "reload os kdl_doc st = do {
     r \<leftarrow> reload_load os kdl_doc st (reload_begin st);
     ret (case r of Inl e \<Rightarrow> (Inl e, st) | Inr s \<Rightarrow> (Inr (reload_begin st), reload_end s st)) }"
  by (simp add: reload_def reload_load_def reload_begin_def reload_end_def Let_def cong: sum.case_cong)

section \<open>Threads\<close>

text \<open>Where a thread is in \<open>reload\<close>; \<open>Resting\<close> holds the answer of its last one.\<close>

datatype reloader = Resting "(load_error + u64) option" | Begun u64 | Ready u64 ConfigSnapshot

text \<open>The snapshots put so far are a ghost of the model.\<close>

record 'k race =
  threads :: "nat \<Rightarrow> reloader"
  the_store :: ConfigStore
  race_kern :: 'k
  puts :: "ConfigSnapshot list"

definition loaded :: "load_error + ConfigSnapshot \<Rightarrow> u64 \<Rightarrow> reloader" where
  "loaded r v = (case r of Inl e \<Rightarrow> Resting (Some (Inl e)) | Inr s \<Rightarrow> Ready v s)"

inductive race_step :: "'k os \<Rightarrow> kdl_parser \<Rightarrow> 'k race \<Rightarrow> 'k race \<Rightarrow> bool" for os kdl_doc where
  begins: "threads c i = Resting a \<Longrightarrow>
    race_step os kdl_doc c (c\<lparr>threads := (threads c)(i := Begun (reload_begin (the_store c)))\<rparr>)"
| loads: "threads c i = Begun v \<Longrightarrow> run_state (reload_load os kdl_doc (the_store c) v) (race_kern c) = (r, k) \<Longrightarrow>
    race_step os kdl_doc c (c\<lparr>threads := (threads c)(i := loaded r v), race_kern := k\<rparr>)"
| ends: "threads c i = Ready v s \<Longrightarrow>
    race_step os kdl_doc c (c\<lparr>threads := (threads c)(i := Resting (Some (Inr v))),
      the_store := reload_end s (the_store c), puts := puts c @ [s]\<rparr>)"
| files: "race_step os kdl_doc c (c\<lparr>race_kern := k\<rparr>)"

definition race_start :: "ConfigStore \<Rightarrow> 'k \<Rightarrow> 'k race" where
  "race_start st k = \<lparr>threads = (\<lambda>_. Resting None), the_store = st, race_kern = k, puts = []\<rparr>"

abbreviation races :: "'k os \<Rightarrow> kdl_parser \<Rightarrow> 'k race \<Rightarrow> 'k race \<Rightarrow> bool" where
  "races os kdl_doc \<equiv> (race_step os kdl_doc)\<^sup>*\<^sup>*"

section \<open>What every interleaving keeps\<close>

text \<open>A version that \<open>n\<close> puts can have led to.\<close>

definition version_within :: "u64 \<Rightarrow> nat \<Rightarrow> u64 \<Rightarrow> bool" where
  "version_within v0 n v \<longleftrightarrow> (\<exists>j \<le> n. v = v0 + of_nat j)"

lemma within_mono: "version_within v0 n v \<Longrightarrow> n \<le> n' \<Longrightarrow> version_within v0 n' v"
  unfolding version_within_def using le_trans by blast

lemma within_next: "version_within v0 n v \<Longrightarrow> version_within v0 (Suc n) (v + 1)"
  unfolding version_within_def
proof (elim exE conjE)
  fix j
  assume "j \<le> n" "v = v0 + of_nat j"
  then show "\<exists>j' \<le> Suc n. v + 1 = v0 + of_nat j'" by (intro exI [of _ "Suc j"]) simp
qed

text \<open>A thread holds a version one above some state of the store, and loads the file of the store.\<close>

fun reloader_ok :: "ConfigStore \<Rightarrow> nat \<Rightarrow> reloader \<Rightarrow> bool" where
  "reloader_ok st0 n (Resting a) = True"
| "reloader_ok st0 n (Begun v) = version_within (version (snapshot st0)) (Suc n) v"
| "reloader_ok st0 n (Ready v s) = (version_within (version (snapshot st0)) (Suc n) v \<and> version s = v \<and>
     config_file s = store_file st0)"

lemma reloader_mono: "reloader_ok st0 n t \<Longrightarrow> reloader_ok st0 (Suc n) t"
  by (cases t) (auto elim: within_mono)

definition race_ok :: "ConfigStore \<Rightarrow> 'k race \<Rightarrow> bool" where
  "race_ok st0 c \<longleftrightarrow>
     (\<forall>i. reloader_ok st0 (length (puts c)) (threads c i)) \<and>
     snapshot (the_store c) = (if puts c = [] then snapshot st0 else last (puts c)) \<and>
     store_file (the_store c) = store_file st0 \<and> store_topo (the_store c) = store_topo st0 \<and>
     (\<forall>j < length (puts c). version_within (version (snapshot st0)) (Suc j) (version (puts c ! j)) \<and>
        config_file (puts c ! j) = store_file st0)"

lemma race_start_ok: "race_ok st (race_start st k)"
  by (simp add: race_ok_def race_start_def)

lemma store_version:
  assumes "race_ok st0 c"
  shows "version_within (version (snapshot st0)) (length (puts c)) (version (snapshot (the_store c)))"
proof (cases "puts c" rule: rev_cases)
  case Nil
  with assms show ?thesis by (auto simp: race_ok_def version_within_def intro: exI [of _ 0])
next
  case (snoc xs s)
  then have last: "length xs < length (puts c)" "puts c ! length xs = s" by simp_all
  with assms have "version_within (version (snapshot st0)) (Suc (length xs)) (version s)"
    unfolding race_ok_def by blast
  with snoc assms show ?thesis by (simp add: race_ok_def)
qed

lemma race_step_ok:
  assumes "race_step os kdl_doc c c'" and "race_ok st0 c"
  shows "race_ok st0 c'"
  using assms
proof (cases rule: race_step.cases)
  case (begins i a)
  with within_next [OF store_version [OF assms(2)]] assms(2) show ?thesis
    by (auto simp: race_ok_def reload_begin_def current_def)
next
  case (loads i v r k)
  have "r = Inr s \<Longrightarrow> version s = v \<and> config_file s = store_file (the_store c)" for s
    using givesD [OF load_version, of os kdl_doc "store_file (the_store c)" "store_topo (the_store c)" v "race_kern c"] loads(3)
    by (simp add: reload_load_def)
  moreover have "reloader_ok st0 (length (puts c)) (Begun v)" "store_file (the_store c) = store_file st0"
    using assms(2) loads(2) by (auto simp: race_ok_def) (metis reloader_ok.simps(2))
  ultimately have "reloader_ok st0 (length (puts c)) (loaded r v)"
    by (cases r) (simp_all add: loaded_def)
  with assms(2) loads(1) show ?thesis by (simp add: race_ok_def)
next
  case (ends i v s)
  then have s: "version_within (version (snapshot st0)) (Suc (length (puts c))) (version s)" "config_file s = store_file st0"
    using assms(2) by (auto simp: race_ok_def) (metis reloader_ok.simps(3))+
  with assms(2) ends(1) show ?thesis
    by (auto simp: race_ok_def reload_end_def nth_append less_Suc_eq intro: reloader_mono)
next
  case (files k)
  with assms(2) show ?thesis by (simp add: race_ok_def)
qed

lemma races_ok: "races os kdl_doc c c' \<Longrightarrow> race_ok st0 c \<Longrightarrow> race_ok st0 c'"
  by (induction rule: rtranclp_induct) (auto intro: race_step_ok)

section \<open>A reload nobody interrupts\<close>

lemma alone:
  assumes "threads c i = Resting a" and "run_state (reload os kdl_doc (the_store c)) (race_kern c) = ((Inr v, st), k)"
  shows "races os kdl_doc c (c\<lparr>threads := (threads c)(i := Resting (Some (Inr v))), the_store := st,
    race_kern := k, puts := puts c @ [snapshot st]\<rparr>)"
proof -
  obtain s where s: "run_state (reload_load os kdl_doc (the_store c) (reload_begin (the_store c))) (race_kern c) = (Inr s, k)"
    "v = reload_begin (the_store c)" "st = reload_end s (the_store c)"
    using assms(2) unfolding reload_parts by (auto split: prod.splits sum.splits)
  let ?v = "reload_begin (the_store c)"
  let ?c1 = "c\<lparr>threads := (threads c)(i := Begun ?v)\<rparr>"
  let ?c2 = "?c1\<lparr>threads := (threads ?c1)(i := Ready ?v s), race_kern := k\<rparr>"
  have "race_step os kdl_doc c ?c1" using assms(1) by (rule race_step.begins)
  moreover have "race_step os kdl_doc ?c1 ?c2"
    using race_step.loads [of ?c1 i ?v os kdl_doc "Inr s" k] s(1) by (simp add: loaded_def)
  moreover have "race_step os kdl_doc ?c2 (?c2\<lparr>threads := (threads ?c2)(i := Resting (Some (Inr ?v))),
      the_store := reload_end s (the_store ?c2), puts := puts ?c2 @ [s]\<rparr>)"
    by (rule race_step.ends [where i = i]) simp
  ultimately have run: "races os kdl_doc c (?c2\<lparr>threads := (threads ?c2)(i := Resting (Some (Inr ?v))),
      the_store := reload_end s (the_store ?c2), puts := puts ?c2 @ [s]\<rparr>)"
    by (meson converse_rtranclp_into_rtranclp rtranclp.rtrancl_refl)
  have eq: "?c2\<lparr>threads := (threads ?c2)(i := Resting (Some (Inr ?v))), the_store := reload_end s (the_store ?c2),
      puts := puts ?c2 @ [s]\<rparr> = c\<lparr>threads := (threads c)(i := Resting (Some (Inr v))), the_store := st,
      race_kern := k, puts := puts c @ [snapshot st]\<rparr>"
    using s(2,3) by (cases c) (simp add: reload_end_def)
  show ?thesis using run unfolding eq .
qed

section \<open>Two reloads that overlap\<close>

text \<open>The steps of one thread, as functions.\<close>

lemma raced_begin:
  "races os kdl_doc c0 c \<Longrightarrow> threads c i = Resting a \<Longrightarrow>
   races os kdl_doc c0 (c\<lparr>threads := (threads c)(i := Begun (reload_begin (the_store c)))\<rparr>)"
  by (blast intro: rtranclp.rtrancl_into_rtrancl race_step.begins)

lemma raced_load:
  "races os kdl_doc c0 c \<Longrightarrow> threads c i = Begun v \<Longrightarrow>
   run_state (reload_load os kdl_doc (the_store c) v) (race_kern c) = (Inr s, k) \<Longrightarrow>
   races os kdl_doc c0 (c\<lparr>threads := (threads c)(i := Ready v s), race_kern := k\<rparr>)"
  using race_step.loads [of c i v os kdl_doc "Inr s" k] by (auto simp: loaded_def intro: rtranclp.rtrancl_into_rtrancl)

lemma raced_end:
  "races os kdl_doc c0 c \<Longrightarrow> threads c i = Ready v s \<Longrightarrow>
   races os kdl_doc c0 (c\<lparr>threads := (threads c)(i := Resting (Some (Inr v))),
     the_store := reload_end s (the_store c), puts := puts c @ [s]\<rparr>)"
  by (blast intro: rtranclp.rtrancl_into_rtrancl race_step.ends)

lemma raced_files: "races os kdl_doc c0 c \<Longrightarrow> races os kdl_doc c0 (c\<lparr>race_kern := k\<rparr>)"
  by (blast intro: rtranclp.rtrancl_into_rtrancl race_step.files)

end
