(* ===== verification/Watch_Properties.thy ===== *)
theory Watch_Properties
  imports Inotify_Facts Reload_Race Apply_Properties
begin

text \<open>
  The properties of the thread that watches the configuration file: what it does to the store,
  what it answers to the events of the file, and the descriptors it holds.
\<close>

section \<open>A kernel without news\<close>

text \<open>The state is the number of open descriptors, all named 3; every poll reports a broken watch.\<close>

definition demo_ino :: "nat ino" where
  "demo_ino = \<lparr>ino_init = \<lambda>k. if k = 0 then (3, 1) else (-1, k), ino_add = \<lambda>_ _ k. (1, k),
     ino_rm = \<lambda>_ _ k. ((), k), ino_close = \<lambda>fd k. ((), if fd = 3 then 0 else k),
     ino_poll = \<lambda>_ _ k. (PollErr 9, k), ino_read = \<lambda>_ k. (Inl EAGAIN, k), ino_mtime = \<lambda>_ k. (Some 5, k)\<rparr>"

definition demo_fds :: "nat \<Rightarrow> int set" where
  "demo_fds k = (if k = 0 then {} else {3})"

lemma demo_ledger: "fd_ledger demo_fds demo_os demo_ino"
  by (simp add: fd_ledger_def demo_ino_def demo_os_def demo_fds_def)

section \<open>The store\<close>

text \<open>
  C18. Whatever the kernel does, and whatever the other threads do to the store between its iterations,
  the thread that watches the configuration file never panics for a missing watch, and each of
  its iterations is an iteration of the abstract loop \<open>hot_step\<close> on the shared store, with what
  the kernel said: after a wait with events, nothing when none is a change of the file, a broken
  watch only when the file was lost and the watch could not be installed again, a reload
  otherwise; without a watch, the modification time. It sends a version exactly after a reload
  of its own, one above the version the reload found in the store.
\<close>

theorem watcher_refines:
  "\<exists>h0 k0 h st' vs k'. run_state (hot_start io st) k = (h0, k0) \<and>
     run_state (spawn_hot_reload us os io kdl_doc secs st) k = (Some (h, st', vs), k') \<and>
     watches os io kdl_doc secs us k0 (h0, st, []) k' (h, st', vs)"
  by (rule spawn_watches [of io st k us os kdl_doc secs]) blast

text \<open>While no other thread changes the version, the versions that are sent count up from the start.\<close>

theorem watcher_counts:
  assumes "fst (run_state (spawn_hot_reload us os io kdl_doc secs st) k) = Some (h, st', vs)"
    and "\<forall>u \<in> set us. \<forall>s. version (snapshot (u s)) = version (snapshot s)"
  shows "vs = map (\<lambda>i. version (snapshot st) + word_of_nat (Suc i)) [0..<length vs]"
proof -
  obtain h0 k0 k' where "watches os io kdl_doc secs us k0 (h0, st, []) k' (h, st', vs)"
    by (rule spawn_watches [of io st k us os kdl_doc secs]) (use assms(1) in auto)
  from watches_count [OF this assms(2), of "version (snapshot st)"] show ?thesis
    by (simp add: counted_def)
qed

theorem watcher_counts_witness:
  "\<exists>r. fst (run_state (spawn_hot_reload [id, id] demo_os demo_ino kdl_doc 2 st) 0) = Some r \<and>
     snd (snd r) = map (\<lambda>i. version (snapshot st) + word_of_nat (Suc i)) [0..<length (snd (snd r))]"
proof -
  obtain h st' vs k where "run_state (spawn_hot_reload [id, id] demo_os demo_ino kdl_doc 2 st) 0 = (Some (h, st', vs), k)"
    by (rule spawn_watches [of demo_ino st 0 "[id, id]" demo_os kdl_doc 2])
  then have run: "fst (run_state (spawn_hot_reload [id, id] demo_os demo_ino kdl_doc 2 st) 0) = Some (h, st', vs)" by simp
  from watcher_counts [OF run] run show ?thesis by auto
qed

section \<open>Descriptors\<close>

text \<open>
  C19. The thread leaks no descriptor: after any number of iterations, with every failure of the
  kernel on the way, the process has the descriptors it had before the thread started and the
  one of the current watch, if there is one.
\<close>

theorem watcher_leaks_nothing:
  assumes "fd_ledger opened os io"
    and "run_state (spawn_hot_reload us os io kdl_doc secs st) k = (r, k')"
  shows "\<exists>h st' vs. r = Some (h, st', vs) \<and>
    (case ht_watch h of None \<Rightarrow> opened k' = opened k
     | Some w \<Rightarrow> iw_fd w \<notin> opened k \<and> opened k' = insert (iw_fd w) (opened k))"
proof -
  have start: "ends (\<lambda>k'. opened k' = opened k) (hot_start io st) (\<lambda>h. thread_holds opened (opened k) h)"
    unfolding hot_start_def file_mtime_def thread_holds_def
    by (rule ends_seq [OF init_ends [OF assms(1)]], rule ends_seq [OF ends_keeps],
        intro keeps_intros ledger_calls [OF assms(1)], rule ends_return) simp
  obtain h0 k0 where h0: "run_state (hot_start io st) k = (h0, k0)" by (cases "run_state (hot_start io st) k")
  then have "sane h0" by (rule start_sane)
  moreover from this obtain h st' vs where r: "r = Some (h, st', vs)"
    and run: "watches os io kdl_doc secs us k0 (h0, st, []) k' (h, st', vs)"
    using loop_watches [of h0 us os io kdl_doc secs st "[]" k0] h0 assms(2) by (auto simp: spawn_hot_reload_def)
  ultimately have "thread_holds opened (opened k) h k'"
    using watches_hold [OF run assms(1), of "opened k"] endsD [OF start _ h0] by simp
  with r show ?thesis by (auto simp: thread_holds_def holds_def)
qed

theorem watcher_leaks_nothing_witness:
  "\<forall>u kdl_doc st. demo_fds (snd (run_state (spawn_hot_reload [u] demo_os demo_ino kdl_doc 2 st) 0)) = {}"
proof (intro allI)
  fix u kdl_doc st
  obtain r k where run: "run_state (spawn_hot_reload [u] demo_os demo_ino kdl_doc 2 st) 0 = (r, k)"
    by (metis prod.exhaust)
  have "r = Some (h, st', vs) \<Longrightarrow> ht_watch h = None" for h st' vs
    using run by (auto simp: spawn_hot_reload_def hot_start_def watch_init_def demo_ino_def file_mtime_def
      hot_iter_def watch_wait_def after_wait_def watch_drop_def EINTR_def poll_round_def demo_os_def
      split: if_splits)
  with watcher_leaks_nothing [OF demo_ledger run] run
  show "demo_fds (snd (run_state (spawn_hot_reload [u] demo_os demo_ino kdl_doc 2 st) 0)) = {}"
    by (fastforce simp: demo_fds_def split: if_splits)
qed

section \<open>Events\<close>

text \<open>
  When the watch can be installed again, a wait that reads events asks for a reload exactly
  when one of them says that the file was written, moved or removed, in whatever order and with
  whatever names they come.
\<close>

theorem wait_answers_events:
  assumes "\<And>fd path k. 0 \<le> fst (ino_add io fd path k)" and "\<not> has_nul (iw_file w)"
    and "\<And>fd t k. fst (ino_poll io fd t k) = PollReady"
    and "\<And>fd k. fst (ino_read io fd k) = Inr (concat (map event_bytes es))"
    and "\<forall>e \<in> set es. length (ie_name e) < 2 ^ 32"
  shows "fst (fst (run_state (watch_wait os io secs w) k)) =
    (if \<exists>e \<in> set es. file_changed (ie_mask e) then NeedReload else NothingYet)"
  using events_answer [OF assms(1,2)] assms(3,4)
  by (simp add: watch_wait_def case_prod_beta masks_events [OF assms(5)] list_ex_iff)

theorem wait_answers_events_witness:
  "fst (fst (run_state (watch_wait demo_os
     (demo_ino\<lparr>ino_poll := \<lambda>_ _ k. (PollReady, k), ino_read := \<lambda>_ k.
        (Inr (concat (map event_bytes [\<lparr>ie_wd = 1, ie_mask = IN_MOVE_SELF, ie_cookie = 0, ie_name = ''a''\<rparr>])), k)\<rparr>)
     2 \<lparr>iw_fd = 3, iw_wd = 1, iw_file = ''c.kdl''\<rparr>) 0)) = NeedReload"
  by (subst wait_answers_events [where es = "[\<lparr>ie_wd = 1, ie_mask = IN_MOVE_SELF, ie_cookie = 0, ie_name = ''a''\<rparr>]"])
    (simp_all add: demo_ino_def has_nul_def char_code_def file_changed_def IN_MOVE_SELF_def IN_CLOSE_WRITE_def
      IN_DELETE_SELF_def)

section \<open>The timeout\<close>

text \<open>
  The timeout of the poll is the interval in milliseconds exactly for intervals of at most
  2147483 seconds; beyond, the 32-bit product wraps.
\<close>

theorem timeout_fits: "poll_timeout secs = 1000 * uint secs \<longleftrightarrow> secs \<le> 2147483"
proof
  have "uint (ucast secs * 1000 :: u32) = 1000 * uint secs mod 2 ^ 32"
    by (simp add: uint_word_ariths unsigned_ucast_eq take_bit_eq_mod mod_simps mult.commute)
  then have "uint (ucast secs * 1000 :: u32) = take_bit 32 (1000 * uint secs)"
    by (simp only: take_bit_eq_mod)
  then have eq: "poll_timeout secs = signed_take_bit 31 (1000 * uint secs)"
    by (simp only: poll_timeout_def sint_uint) (simp add: signed_take_bit_take_bit)
  show "secs \<le> 2147483" if "poll_timeout secs = 1000 * uint secs"
    using that signed_take_bit_int_less_exp [of 31 "1000 * uint secs"]
    unfolding eq by (simp add: word_le_def)
  show "poll_timeout secs = 1000 * uint secs" if "secs \<le> 2147483"
  proof -
    have fits: "0 \<le> x \<Longrightarrow> x \<le> 2147483 \<Longrightarrow> signed_take_bit 31 (1000 * x) = 1000 * x" for x :: int
      by (intro signed_take_bit_int_eq_self) simp_all
    show ?thesis unfolding eq by (rule fits) (use that in \<open>simp_all add: word_le_def\<close>)
  qed
qed

theorem timeout_wraps: "poll_timeout 4294968 = 704" "poll_timeout 2147484 < 0"
  by (simp_all add: poll_timeout_def)

section \<open>Reloads that overlap\<close>

text \<open>A file whose content follows the state of the kernel: without settings in state 0, with a pid file after.\<close>

definition race_os :: "nat os" where
  "race_os = demo_os\<lparr>os_read_file := \<lambda>_ k. (Some (if k = 0 then ''old'' else ''new''), k)\<rparr>"

definition race_kdl :: kdl_parser where
  "race_kdl s = Inr (if s = ''old'' then []
     else [KNode ''daemon'' [] (Some [KNode ''pid-file'' [(None, KString ''p'')] None])])"

definition race_snapshot :: "string \<Rightarrow> u64 \<Rightarrow> ConfigSnapshot" where
  "race_snapshot pid v = \<lparr>version = v, config_file = ''a.kdl'', daemon = daemon_default\<lparr>pid_file := pid\<rparr>,
     engine = engine_config_default, rules = fst (compile [] topo_default)\<rparr>"

definition race_store :: ConfigStore where
  "race_store = \<lparr>snapshot = race_snapshot ''q'' 1, store_file = ''a.kdl'', store_topo = topo_default\<rparr>"

lemma race_loads:
  "run_state (reload_load race_os race_kdl race_store (reload_begin race_store)) k =
     (Inr (race_snapshot (if k = 0 then ''./run/threadctl.pid'' else ''p'') 2), k)"
  by (simp add: reload_load_def reload_begin_def current_def race_store_def race_snapshot_def load_snapshot_def
      read_to_string_def race_os_def race_kdl_def parse_kdl_def parse_doc_def parse_node_def ends_with_def
      starts_with_def parse_daemon_def daemon_child_def children_of_def first_string_def first_value_def and_then_def
      to_rules_with_clusters_def daemon_default_def)

text \<open>
  Whatever reloads overlap, the store holds a whole snapshot: the one it started with or the
  last one put, loaded from its own file; and its version is at most as many above the first as
  there were puts.
\<close>

theorem overlapping_reloads_put_whole_snapshots:
  assumes "races os kdl_doc (race_start st k) c"
  shows "snapshot (the_store c) = last (snapshot st # puts c) \<and>
    store_file (the_store c) = store_file st \<and> store_topo (the_store c) = store_topo st \<and>
    list_all (\<lambda>s. config_file s = store_file st) (puts c) \<and>
    version_within (version (snapshot st)) (length (puts c)) (version (snapshot (the_store c)))"
  using races_ok [OF assms race_start_ok] store_version [OF races_ok [OF assms race_start_ok]]
  by (auto simp: race_ok_def list_all_length split: if_splits)

theorem overlapping_reloads_put_whole_snapshots_witness:
  "\<exists>c. races race_os race_kdl (race_start race_store 0) c \<and> version_within 1 0 (version (snapshot (the_store c)))"
proof -
  have "races race_os race_kdl (race_start race_store 0) (race_start race_store 0)" by simp
  from overlapping_reloads_put_whole_snapshots [OF this] this show ?thesis
    by (intro exI [of _ "race_start race_store 0"]) (simp add: race_start_def race_store_def race_snapshot_def)
qed

text \<open>
  C20. Reloads that overlap can leave an old configuration in force: thread 0 takes the version and
  loads the file, the file changes, thread 1 reloads it, and only then thread 0 puts what it has
  loaded. Both calls succeed with the same version, and the store holds the older file.
\<close>

theorem stale_reload_wins:
  assumes "run_state (reload_load os kdl_doc st (reload_begin st)) k0 = (Inr old, k0')"
    and "run_state (reload_load os kdl_doc st (reload_begin st)) k1 = (Inr new, k1')"
  shows "\<exists>c. races os kdl_doc (race_start st k0) c \<and> race_kern c = k1' \<and> puts c = [new, old] \<and>
    snapshot (the_store c) = old \<and> threads c 0 = Resting (Some (Inr (reload_begin st))) \<and>
    threads c 1 = Resting (Some (Inr (reload_begin st))) \<and> version old = version new"
proof -
  let ?v = "reload_begin st"
  let ?c0 = "race_start st k0"
  have "races os kdl_doc ?c0 (?c0\<lparr>threads := (threads ?c0)(0 := Begun ?v)\<rparr>)" (is "races _ _ _ ?c1")
    using raced_begin [of os kdl_doc ?c0 ?c0 0 None] by (simp add: race_start_def)
  from raced_begin [OF this, of 1 None]
  have "races os kdl_doc ?c0 (?c1\<lparr>threads := (threads ?c1)(1 := Begun ?v)\<rparr>)" (is "races _ _ _ ?c2")
    by (simp add: race_start_def)
  from raced_load [OF this, of 0 ?v old k0'] assms(1)
  have "races os kdl_doc ?c0 (?c2\<lparr>threads := (threads ?c2)(0 := Ready ?v old), race_kern := k0'\<rparr>)" (is "races _ _ _ ?c3")
    by (simp add: race_start_def)
  from raced_load [OF raced_files [OF this, of k1], of 1 ?v new k1'] assms(2)
  have "races os kdl_doc ?c0 (?c3\<lparr>race_kern := k1', threads := (threads ?c3)(1 := Ready ?v new)\<rparr>)" (is "races _ _ _ ?c4")
    by (simp add: race_start_def)
  from raced_end [OF this, of 1 ?v new]
  have "races os kdl_doc ?c0 (?c4\<lparr>threads := (threads ?c4)(1 := Resting (Some (Inr ?v))),
      the_store := reload_end new (the_store ?c4), puts := puts ?c4 @ [new]\<rparr>)" (is "races _ _ _ ?c5")
    by simp
  from raced_end [OF this, of 0 ?v old]
  have "races os kdl_doc ?c0 (?c5\<lparr>threads := (threads ?c5)(0 := Resting (Some (Inr ?v))),
      the_store := reload_end old (the_store ?c5), puts := puts ?c5 @ [old]\<rparr>)" (is "races _ _ _ ?c6")
    by (simp add: race_start_def)
  moreover have "race_kern ?c6 = k1'" "puts ?c6 = [new, old]" "snapshot (the_store ?c6) = old"
    "threads ?c6 0 = Resting (Some (Inr ?v))" "threads ?c6 1 = Resting (Some (Inr ?v))"
    by (simp_all add: race_start_def reload_end_def)
  moreover have "version old = ?v" "version new = ?v"
    using givesD [OF load_version, of os kdl_doc "store_file st" "store_topo st" ?v] assms
    by (metis fst_conv reload_load_def)+
  ultimately show ?thesis by metis
qed

theorem stale_reload_wins_witness:
  "\<exists>c. races race_os race_kdl (race_start race_store 0) c \<and> race_kern c = 1 \<and>
     pid_file (daemon (snapshot (the_store c))) \<noteq> ''p''"
  using stale_reload_wins [OF race_loads [of 0] race_loads [of 1]] by (auto simp: race_snapshot_def)

end
