(* ===== verification/Float_Text.thy ===== *)
theory Float_Text
  imports Floats Os "HOL-Library.Log_Nat"
begin

text \<open>
  Floating-point numbers as text. Theory Floats computes exactly; where a number is printed its
  digits depend on the rounding of \<open>f64\<close>, so this theory has the rounding to the nearest double
  (\<open>f64_round\<close>, ties to even, with subnormals and overflow) and \<open>format!("{:.1}")\<close> of a double, which
  rounds its exact value half to even at the first decimal. The sign of zero is not kept.
\<close>

section \<open>Rounding\<close>

definition round_half_even :: "rat \<Rightarrow> int" where
  "round_half_even x =
     (let n = \<lfloor>x\<rfloor>; rest = x - of_int n in
      if rest < 1 / 2 then n else if 1 / 2 < rest then n + 1 else if even n then n else n + 1)"

definition two_pow :: "int \<Rightarrow> rat" where
  "two_pow e = (if 0 \<le> e then 2 ^ nat e else 1 / 2 ^ nat (- e))"

text \<open>The exponent of a positive number: the greatest \<open>e\<close> with \<open>two_pow e \<le> r\<close>.\<close>

definition exponent2 :: "rat \<Rightarrow> int" where
  "exponent2 r =
     (case quotient_of r of (n, d) \<Rightarrow>
        let e = int (floorlog 2 (nat n)) - int (floorlog 2 (nat d))
        in if two_pow e \<le> r then e else e - 1)"

text \<open>The distance of neighbouring doubles around a positive number.\<close>

definition ulp64 :: "rat \<Rightarrow> rat" where
  "ulp64 r = two_pow (max (exponent2 r - 52) (-1074))"

definition nearest64 :: "rat \<Rightarrow> rat" where
  "nearest64 r = of_int (round_half_even (r / ulp64 r)) * ulp64 r"

definition f64_round :: "rat \<Rightarrow> f64" where
  "f64_round r =
     (if r = 0 then Fin 0
      else if 2 ^ 1024 \<le> nearest64 \<bar>r\<bar> then f_inf_sign (r < 0)
      else Fin (if r < 0 then - nearest64 \<bar>r\<bar> else nearest64 \<bar>r\<bar>))"

text \<open>An operation of \<open>f64\<close> is the exact one, rounded.\<close>

fun f_rounded :: "f64 \<Rightarrow> f64" where
  "f_rounded (Fin r) = f64_round r"
| "f_rounded x = x"

section \<open>One decimal\<close>

definition show_tenths :: "nat \<Rightarrow> string" where
  "show_tenths q = show_nat (q div 10) @ ''.'' @ show_nat (q mod 10)"

fun show_f1 :: "f64 \<Rightarrow> string" where
  "show_f1 Nan = ''NaN''"
| "show_f1 PInf = ''inf''"
| "show_f1 NInf = ''-inf''"
| "show_f1 (Fin r) = (if r < 0 then ''-'' else []) @ show_tenths (nat (round_half_even (10 * \<bar>r\<bar>)))"

section \<open>Rounding errors\<close>

lemma round_half_even_error: "\<bar>of_int (round_half_even x) - x\<bar> \<le> 1 / 2"
proof -
  have "0 \<le> x - of_int \<lfloor>x\<rfloor>" "x - of_int \<lfloor>x\<rfloor> < 1" by linarith+
  then show ?thesis by (auto simp: round_half_even_def Let_def)
qed

lemma round_half_even_nonneg: "0 \<le> x \<Longrightarrow> 0 \<le> round_half_even x"
  by (simp add: round_half_even_def Let_def)

lemma two_pow_pos [simp]: "0 < two_pow e"
  by (simp add: two_pow_def)

lemma two_pow_diff: "two_pow (int a - int b) = 2 ^ a / 2 ^ b"
proof (cases "b \<le> a")
  case True
  then have "nat (int a - int b) = a - b" by simp
  with True show ?thesis by (simp add: two_pow_def power_diff)
next
  case False
  then have "nat (- (int a - int b)) = b - a" by simp
  with False show ?thesis by (simp add: two_pow_def power_diff)
qed

lemma two_pow_pred: "two_pow (e - 1) = two_pow e / 2"
proof (cases "1 \<le> e")
  case True
  then have "nat e = Suc (nat (e - 1))" by simp
  with True show ?thesis by (simp add: two_pow_def)
next
  case False
  then have "nat (- (e - 1)) = Suc (nat (- e))" by simp
  with False show ?thesis by (auto simp: two_pow_def)
qed

lemma floorlog_two:
  assumes "0 < n"
  shows "2 ^ floorlog 2 n \<le> (2 * of_nat n :: rat)" "(of_nat n :: rat) < 2 ^ floorlog 2 n"
proof -
  have pos: "floorlog 2 n \<noteq> 0" using assms by (simp add: floorlog_eq_zero_iff)
  have "2 ^ (floorlog 2 n - 1) \<le> n" "n < 2 ^ floorlog 2 n" using floorlog_bounds [of n 2] assms by simp_all
  with pos have "2 ^ floorlog 2 n \<le> 2 * n" "n < 2 ^ floorlog 2 n" by (cases "floorlog 2 n"; simp)+
  then have "(of_nat (2 ^ floorlog 2 n) :: rat) \<le> of_nat (2 * n)" "(of_nat n :: rat) < of_nat (2 ^ floorlog 2 n)"
    by (simp_all only: of_nat_le_iff of_nat_less_iff)
  then show "2 ^ floorlog 2 n \<le> (2 * of_nat n :: rat)" "(of_nat n :: rat) < 2 ^ floorlog 2 n" by simp_all
qed

lemma quotient_within:
  fixes n d a b :: rat
  assumes "a \<le> 2 * n" "n < a" "b \<le> 2 * d" "d < b" "0 < n" "0 < d"
  shows "a / b \<le> 2 * (n / d)" "n / d < 2 * (a / b)"
proof -
  have b: "0 < b" using assms by simp
  have "a * d \<le> 2 * n * d" using assms(1,6) by (simp add: mult_right_mono)
  also have "\<dots> \<le> 2 * n * b" using assms(4,5) by simp
  finally show "a / b \<le> 2 * (n / d)" using assms(6) b by (simp add: field_simps)
  have "n * b < a * b" using assms(2) b by simp
  also have "\<dots> \<le> 2 * a * d" using assms(2,3,5) by (simp add: mult_left_mono)
  finally show "n / d < 2 * (a / b)" using assms(6) b by (simp add: field_simps)
qed

lemma exponent_bounds:
  assumes "0 < r"
  shows "two_pow (exponent2 r) \<le> r" "r < 2 * two_pow (exponent2 r)"
proof -
  obtain n d where q: "quotient_of r = (n, d)" by (cases "quotient_of r")
  then have d: "0 < d" and r: "r = of_int n / of_int d"
    using quotient_of_denom_pos quotient_of_div by auto
  with assms have n: "0 < n" by (simp add: zero_less_divide_iff)
  define e where "e = int (floorlog 2 (nat n)) - int (floorlog 2 (nat d))"
  have nd: "(of_nat (nat n) :: rat) = of_int n" "(of_nat (nat d) :: rat) = of_int d" using n d by simp_all
  have "two_pow e \<le> 2 * r" "r < 2 * two_pow e"
    using floorlog_two [of "nat n"] floorlog_two [of "nat d"] n d quotient_within
    unfolding e_def two_pow_diff r nd by (simp_all add: quotient_within)
  moreover have "exponent2 r = (if two_pow e \<le> r then e else e - 1)"
    by (simp add: exponent2_def q e_def)
  ultimately show "two_pow (exponent2 r) \<le> r" "r < 2 * two_pow (exponent2 r)"
    by (auto simp: two_pow_pred)
qed

lemma two_pow_mono: "e \<le> e' \<Longrightarrow> two_pow e \<le> two_pow e'"
proof (induction e' rule: int_ge_induct [of e])
  case (step i)
  have "two_pow i = two_pow (i + 1) / 2" using two_pow_pred [of "i + 1"] by simp
  then have "two_pow i \<le> two_pow (i + 1)" using two_pow_pos [of "i + 1"] by linarith
  with step show ?case by linarith
qed simp_all

lemma normal_exponent:
  assumes "two_pow (-1022) \<le> r"
  shows "-1022 \<le> exponent2 r"
proof (rule ccontr)
  assume "\<not> -1022 \<le> exponent2 r"
  then have "two_pow (exponent2 r) \<le> two_pow (-1023)" by (intro two_pow_mono) simp
  moreover have "two_pow (-1023) = two_pow (-1022) / 2" using two_pow_pred [of "-1022"] by simp
  moreover have "r < 2 * two_pow (exponent2 r)"
    using assms two_pow_pos [of "-1022"] by (intro exponent_bounds) linarith
  ultimately show False using assms by simp
qed

lemma ulp_normal:
  assumes "two_pow (-1022) \<le> r"
  shows "0 < ulp64 r" "ulp64 r \<le> r / 2 ^ 52"
proof -
  have "two_pow (e - int n) = two_pow e / 2 ^ n" for e n
  proof (induction n)
    case (Suc n)
    have "e - int (Suc n) = (e - int n) - 1" by simp
    then have "two_pow (e - int (Suc n)) = two_pow (e - int n) / 2" by (simp only: two_pow_pred)
    with Suc show ?case by simp
  qed simp
  from this [of "exponent2 r" 52] normal_exponent [OF assms]
  have "ulp64 r = two_pow (exponent2 r) / 2 ^ 52" by (simp add: ulp64_def)
  moreover have "two_pow (exponent2 r) \<le> r"
    using assms two_pow_pos [of "-1022"] by (intro exponent_bounds) linarith
  moreover have "0 < ulp64 r" by (simp add: ulp64_def)
  ultimately show "0 < ulp64 r" "ulp64 r \<le> r / 2 ^ 52" by simp_all
qed

lemma nearest_error:
  assumes "two_pow (-1022) \<le> r"
  shows "\<bar>nearest64 r - r\<bar> \<le> r / 2 ^ 53" "0 \<le> nearest64 r"
proof -
  let ?u = "ulp64 r"
  note u = ulp_normal [OF assms]
  have r: "0 < r" using assms two_pow_pos [of "-1022"] by linarith
  have "nearest64 r - r = (of_int (round_half_even (r / ?u)) - r / ?u) * ?u"
    using u(1) by (simp add: nearest64_def left_diff_distrib)
  then have "\<bar>nearest64 r - r\<bar> = \<bar>of_int (round_half_even (r / ?u)) - r / ?u\<bar> * ?u"
    using u(1) by (simp add: abs_mult)
  also have "\<dots> \<le> 1 / 2 * ?u" using round_half_even_error u(1) by (intro mult_right_mono) simp_all
  also have "\<dots> \<le> r / 2 ^ 53" using u(2) by simp
  finally show "\<bar>nearest64 r - r\<bar> \<le> r / 2 ^ 53" .
  show "0 \<le> nearest64 r"
    using round_half_even_nonneg [of "r / ?u"] u(1) r by (simp add: nearest64_def)
qed

text \<open>A normal number is rounded by at most one part in 2 to the power 53, and keeps its sign.\<close>

lemma f64_round_error:
  assumes "r = 0 \<or> two_pow (-1022) \<le> \<bar>r\<bar>" and "\<bar>r\<bar> < 2 ^ 1023"
  obtains y where "f64_round r = Fin y" "\<bar>y - r\<bar> \<le> \<bar>r\<bar> / 2 ^ 53"
proof (cases "r = 0")
  case True
  with that [of 0] show thesis by (simp add: f64_round_def)
next
  case False
  with assms(1) have n: "two_pow (-1022) \<le> \<bar>r\<bar>" by simp
  have "nearest64 \<bar>r\<bar> \<le> \<bar>r\<bar> + \<bar>r\<bar> / 2 ^ 53" using nearest_error(1) [OF n] by linarith
  also have "\<dots> \<le> 2 * \<bar>r\<bar>" by simp
  also have "\<dots> < 2 ^ 1024" using assms(2) by simp
  finally have "\<not> 2 ^ 1024 \<le> nearest64 \<bar>r\<bar>" by simp
  with False have "f64_round r = Fin (if r < 0 then - nearest64 \<bar>r\<bar> else nearest64 \<bar>r\<bar>)"
    by (simp add: f64_round_def)
  from that [OF this] nearest_error(1) [OF n] show thesis
    by (cases "r < 0") (auto simp: abs_le_iff)
qed

section \<open>Reading a printed decimal\<close>

lemma show_nat_no_char: "\<not> is_digit c \<Longrightarrow> c \<notin> set (show_nat n)"
  using show_nat_digits by blast

lemma parse_tenths: "parse_decimal (show_tenths q) = Some (of_nat q / 10)"
proof -
  have special: "\<not> is_digit (CHR ''e'')" "\<not> is_digit (CHR ''E'')" "\<not> is_digit (CHR ''.'')"
    by (simp_all add: is_digit_def char_code_def)
  have E: "CHR ''E'' \<notin> set (show_tenths q)" and e: "CHR ''e'' \<notin> set (show_tenths q)"
    by (simp_all add: show_tenths_def show_nat_no_char special del: show_nat.simps)
  have lower: "map (\<lambda>c. if c = CHR ''E'' then CHR ''e'' else c) (show_tenths q) = show_tenths q"
    using E by (intro map_idI) auto
  have point: "split_once (CHR ''.'') (show_tenths q) = Some (show_nat (q div 10), show_nat (q mod 10))"
    using split_once_sep [of "CHR ''.''" "show_nat (q div 10)" "show_nat (q mod 10)"]
    by (simp add: show_tenths_def show_nat_no_char special del: show_nat.simps)
  have digit: "show_nat (q mod 10) = [digit_char (q mod 10)]" by (subst show_nat.simps) simp
  have "parse_digits 0 (show_nat (q div 10) @ show_nat (q mod 10)) = Some q"
    unfolding parse_digits_append parse_digits_show_nat digit by simp
  then have "parse_mantissa (show_tenths q) = Some (of_nat q / 10)"
    by (simp add: parse_mantissa_def point digit del: show_nat.simps)
  then show ?thesis by (simp add: parse_decimal_def lower split_once_none [OF e])
qed

lemma tenths_head: "\<exists>c cs. show_tenths q = c # cs \<and> is_digit c"
  using show_nat_hd [of "q div 10"] by (cases "show_nat (q div 10)") (simp_all add: show_tenths_def del: show_nat.simps)

lemma parse_show_tenths: "parse_f64 (show_tenths q) = Some (Fin (of_nat q / 10))"
  and parse_minus_tenths: "parse_f64 (CHR ''-'' # show_tenths q) = Some (Fin (- (of_nat q / 10)))"
proof -
  obtain c cs where c: "show_tenths q = c # cs" "is_digit c" using tenths_head by blast
  then have c': "c \<noteq> CHR ''-''" "c \<noteq> CHR ''+''" by auto
  have "to_lower_char c = c" using c(2) by (simp add: to_lower_char_def is_digit_def)
  moreover have "\<not> is_digit (CHR ''n'')" "\<not> is_digit (CHR ''i'')" by (simp_all add: is_digit_def char_code_def)
  ultimately have name: "to_lowercase (show_tenths q) \<noteq> ''nan''" "to_lowercase (show_tenths q) \<noteq> ''inf''"
    "to_lowercase (show_tenths q) \<noteq> ''infinity''"
    using c by (auto simp: to_lowercase_def)
  show "parse_f64 (show_tenths q) = Some (Fin (of_nat q / 10))"
    using name c c' parse_tenths [of q] by (simp add: parse_f64_def Let_def)
  show "parse_f64 (CHR ''-'' # show_tenths q) = Some (Fin (- (of_nat q / 10)))"
    using name parse_tenths [of q] by (simp add: parse_f64_def Let_def)
qed

lemma show_f1_error:
  obtains z where "parse_f64 (show_f1 (Fin y)) = Some (Fin z)" "\<bar>z - y\<bar> \<le> 1 / 20"
proof -
  let ?q = "round_half_even (10 * \<bar>y\<bar>)"
  have q: "(of_nat (nat ?q) :: rat) = of_int ?q" using round_half_even_nonneg [of "10 * \<bar>y\<bar>"] by simp
  have err: "\<bar>of_int ?q - 10 * \<bar>y\<bar>\<bar> \<le> 1 / 2" by (rule round_half_even_error)
  show thesis
  proof (cases "y < 0")
    case True
    have "\<bar>- (of_int ?q / 10) - y\<bar> \<le> 1 / 20" using True err unfolding abs_le_iff by linarith
    moreover have "parse_f64 (show_f1 (Fin y)) = Some (Fin (- (of_int ?q / 10)))"
      using parse_minus_tenths [of "nat ?q"] True unfolding q by simp
    ultimately show thesis using that by blast
  next
    case False
    then have "\<bar>of_int ?q / 10 - y\<bar> \<le> 1 / 20" using err by (simp add: abs_le_iff field_simps)
    moreover have "parse_f64 (show_f1 (Fin y)) = Some (Fin (of_int ?q / 10))"
      using parse_show_tenths [of "nat ?q"] False unfolding q by simp
    ultimately show thesis using that by blast
  qed
qed

end
