(* ===== verification/Context_Text.thy ===== *)
theory Context_Text
  imports Float_Text System_Context
begin

text \<open>
  The summary of the system context (\<open>SystemContext::summary\<close> of crates/core/src/system_context.rs):
  the hottest valid sensor of each kind, to a tenth of a degree. \<open>sample\<close> parses the pressure
  exactly, the code to the nearest double; the summary rounds it when it is printed.
\<close>

section \<open>The text\<close>

text \<open>The degree sign and the flash, in UTF-8.\<close>

definition DEGREE :: string where "DEGREE = map char_of [0xC2, 0xB0 :: nat]"
definition FLASH :: string where "FLASH = map char_of [0xE2, 0x9A, 0xA1 :: nat]"

fun show_pressure :: "PressureLevel \<Rightarrow> string" where
  "show_pressure Normal = ''Normal''"
| "show_pressure Moderate = ''Moderate''"
| "show_pressure Critical = ''Critical''"

text \<open>\<open>v as f64 / 1000.0\<close>: the conversion rounds, and the division rounds again.\<close>

definition celsius :: "int \<Rightarrow> f64" where
  "celsius v = f_rounded (f_div (f64_round (of_int v)) (Fin 1000))"

definition valid_zones :: "SystemContext \<Rightarrow> ThermalZone list" where
  "valid_zones ctx = filter (\<lambda>z. -100000 < temperature_mc z) (thermal_zones ctx)"

definition kind_temps :: "string \<Rightarrow> ThermalZone list \<Rightarrow> int list" where
  "kind_temps prefix zones = map temperature_mc (filter (\<lambda>z. starts_with prefix (zone_type z)) zones)"

definition max_of :: "string \<Rightarrow> SystemContext \<Rightarrow> string" where
  "max_of prefix ctx =
     (case kind_temps prefix (valid_zones ctx) of
        [] \<Rightarrow> ''N/A'' | v # vs \<Rightarrow> show_f1 (celsius (fold max vs v)))"

definition context_summary :: "SystemContext \<Rightarrow> string" where
  "context_summary ctx =
     ''mem_pressure='' @ show_pressure (memory_pressure ctx) @
     ''(avg10='' @ show_f1 (f_rounded (memory_avg10 ctx)) @
     '') cpu_max='' @ max_of ''cpu'' ctx @ DEGREE @
     ''C gpu_max='' @ max_of ''gpu'' ctx @ DEGREE @
     ''C ddr_max='' @ max_of ''ddr'' ctx @ DEGREE @
     ''C battery='' @ show_nat (case battery_pct ctx of None \<Rightarrow> 0 | Some p \<Rightarrow> p) @ ''%'' @
     (if is_charging ctx then FLASH else []) @
     '' next_poll='' @ show_nat (next_poll_interval ctx) @
     ''s zones='' @ show_nat (length (valid_zones ctx))"

section \<open>Lemmas\<close>

lemma int_normal:
  assumes "v \<noteq> 0"
  shows "two_pow (-1022) \<le> \<bar>of_int v :: rat\<bar>"
proof -
  have "(1 :: rat) \<le> \<bar>of_int v\<bar>" using assms by (metis of_int_1_le_iff of_int_abs int_one_le_iff_zero_less zero_less_abs_iff)
  moreover have "two_pow (-1022) \<le> 1" by (simp add: two_pow_def)
  ultimately show ?thesis by linarith
qed

text \<open>Two roundings: at most one part in 2 to the power 51.\<close>

lemma celsius_error:
  assumes "\<bar>v\<bar> \<le> 2 ^ 63"
  obtains y where "celsius v = Fin y" "\<bar>y - of_int v / 1000\<bar> \<le> \<bar>of_int v\<bar> / 1000 / 2 ^ 51"
proof -
  have v: "\<bar>of_int v :: rat\<bar> \<le> 2 ^ 63" using assms by (metis of_int_abs of_int_le_iff of_int_numeral of_int_power)
  have big: "\<bar>of_int v :: rat\<bar> < 2 ^ 1023"
    using v by (rule le_less_trans) (rule power_strict_increasing; simp)
  obtain x where x: "f64_round (of_int v) = Fin x" "\<bar>x - of_int v\<bar> \<le> \<bar>of_int v\<bar> / 2 ^ 53"
    using int_normal [of v] big f64_round_error [of "of_int v"] by (metis of_int_eq_0_iff)
  define V where "V = \<bar>of_int v :: rat\<bar>"
  have V: "\<bar>x\<bar> \<le> 2 * V" "V \<le> 2 * \<bar>x\<bar>" "\<bar>x - of_int v\<bar> \<le> V / 2 ^ 53" "0 \<le> V"
  proof -
    show d: "\<bar>x - of_int v\<bar> \<le> V / 2 ^ 53" and p: "0 \<le> V" using x(2) by (simp_all add: V_def)
    have "V / 2 ^ 53 \<le> V / 2" using p by simp
    with d have "\<bar>x - of_int v\<bar> \<le> V / 2" by linarith
    moreover have "\<bar>x\<bar> \<le> V + \<bar>x - of_int v\<bar>" "V \<le> \<bar>x\<bar> + \<bar>x - of_int v\<bar>" unfolding V_def by linarith+
    ultimately show "\<bar>x\<bar> \<le> 2 * V" "V \<le> 2 * \<bar>x\<bar>" using p by linarith+
  qed
  have normal: "x / 1000 = 0 \<or> two_pow (-1022) \<le> \<bar>x / 1000\<bar>"
  proof (cases "v = 0")
    case False
    have "1 \<le> V" using False unfolding V_def by (metis of_int_1_le_iff of_int_abs int_one_le_iff_zero_less zero_less_abs_iff)
    with V(2) have "1 / 2 \<le> \<bar>x\<bar>" by linarith
    moreover have "two_pow (-1022) \<le> 1 / 2000" by (simp add: two_pow_def)
    ultimately show ?thesis by simp
  qed (use x in \<open>simp add: f64_round_def\<close>)
  have "\<bar>x / 1000\<bar> \<le> 2 ^ 63" using V(1) v unfolding V_def by simp
  then have small: "\<bar>x / 1000\<bar> < 2 ^ 1023"
    by (rule le_less_trans) (rule power_strict_increasing; simp)
  obtain y where y: "f64_round (x / 1000) = Fin y" "\<bar>y - x / 1000\<bar> \<le> \<bar>x / 1000\<bar> / 2 ^ 53"
    using f64_round_error [OF normal small] by metis
  have "\<bar>y - of_int v / 1000\<bar> \<le> \<bar>y - x / 1000\<bar> + \<bar>x - of_int v\<bar> / 1000"
  proof -
    have "\<bar>(x - of_int v) / 1000\<bar> = \<bar>x - of_int v\<bar> / 1000" by simp
    moreover have "y - of_int v / 1000 = (y - x / 1000) + (x - of_int v) / 1000" by (simp add: diff_divide_distrib)
    ultimately show ?thesis using abs_triangle_ineq [of "y - x / 1000" "(x - of_int v) / 1000"] by metis
  qed
  also have "\<dots> \<le> 2 * V / 1000 / 2 ^ 53 + V / 2 ^ 53 / 1000" using y(2) V(1,3) by simp
  also have "\<dots> \<le> V / 1000 / 2 ^ 51" using V(4) by simp
  finally have "\<bar>y - of_int v / 1000\<bar> \<le> \<bar>of_int v\<bar> / 1000 / 2 ^ 51" unfolding V_def .
  with that [of y] y(1) x(1) show thesis by (simp add: celsius_def)
qed

lemma fold_max: "fold max vs (v :: int) = Max (set (v # vs))"
  by (rule Max.set_eq_fold [symmetric])

lemma set_kind_temps:
  "set (kind_temps prefix (valid_zones ctx)) =
     {temperature_mc z | z. z \<in> set (thermal_zones ctx) \<and> starts_with prefix (zone_type z) \<and> -100000 < temperature_mc z}"
  by (auto simp: kind_temps_def valid_zones_def)

section \<open>The hottest sensor\<close>

text \<open>The text reads back as the number, to half a digit and the rounding of doubles.\<close>

definition reads_near :: "string \<Rightarrow> rat \<Rightarrow> bool" where
  "reads_near s r \<longleftrightarrow> (\<exists>x. parse_f64 s = Some (Fin x) \<and> \<bar>x - r\<bar> \<le> 1 / 20 + \<bar>r\<bar> / 2 ^ 51)"

text \<open>
  What is shown for a kind of sensor: N/A when no zone of the kind is above -100 degrees, otherwise
  the greatest of their temperatures.
\<close>

definition shows_hottest :: "string \<Rightarrow> SystemContext \<Rightarrow> string \<Rightarrow> bool" where
  "shows_hottest prefix ctx s \<longleftrightarrow>
     (let T = {temperature_mc z | z. z \<in> set (thermal_zones ctx) \<and> starts_with prefix (zone_type z) \<and>
        -100000 < temperature_mc z}
      in if T = {} then s = ''N/A'' else reads_near s (of_int (Max T) / 1000))"

lemma max_shows:
  assumes "\<forall>z \<in> set (thermal_zones ctx). \<bar>temperature_mc z\<bar> \<le> 2 ^ 63"
  shows "shows_hottest prefix ctx (max_of prefix ctx)"
proof -
  define T where "T = {temperature_mc z | z. z \<in> set (thermal_zones ctx) \<and> starts_with prefix (zone_type z) \<and>
      -100000 < temperature_mc z}"
  have set: "set (kind_temps prefix (valid_zones ctx)) = T" unfolding T_def by (rule set_kind_temps)
  have "if T = {} then max_of prefix ctx = ''N/A'' else reads_near (max_of prefix ctx) (of_int (Max T) / 1000)"
  proof (cases "kind_temps prefix (valid_zones ctx)")
    case Nil
    with set show ?thesis by (simp add: max_of_def)
  next
    case (Cons v vs)
    then have T: "T = set (v # vs)" using set by simp
    let ?m = "Max T"
    have "?m \<in> T" using T Max_in [of T] by auto
    then have "\<bar>?m\<bar> \<le> 2 ^ 63" using assms by (auto simp: T_def)
    then obtain y where y: "celsius ?m = Fin y" "\<bar>y - of_int ?m / 1000\<bar> \<le> \<bar>of_int ?m\<bar> / 1000 / 2 ^ 51"
      by (rule celsius_error)
    obtain x where x: "parse_f64 (show_f1 (Fin y)) = Some (Fin x)" "\<bar>x - y\<bar> \<le> 1 / 20" by (rule show_f1_error)
    have "\<bar>x - of_int ?m / 1000\<bar> \<le> \<bar>x - y\<bar> + \<bar>y - of_int ?m / 1000\<bar>" by linarith
    then have "\<bar>x - of_int ?m / 1000\<bar> \<le> 1 / 20 + \<bar>of_int ?m / 1000\<bar> / 2 ^ 51" using x(2) y(2) by simp
    moreover have "max_of prefix ctx = show_f1 (Fin y)"
      using Cons y(1) T by (simp add: max_of_def fold_max)
    ultimately show ?thesis using x(1) T by (auto simp: reads_near_def)
  qed
  then show ?thesis by (simp add: shows_hottest_def T_def [symmetric])
qed

lemma average_reads:
  assumes "1 / 100 \<le> r" and "r \<le> 2 ^ 63"
  shows "reads_near (show_f1 (f64_round r)) r"
proof -
  have "two_pow (-1022) \<le> (1 :: rat) / 100" by (simp add: two_pow_def)
  with assms(1) have normal: "r = 0 \<or> two_pow (-1022) \<le> \<bar>r\<bar>" by linarith
  have "\<bar>r\<bar> \<le> 2 ^ 63" using assms by linarith
  then have "\<bar>r\<bar> < 2 ^ 1023" by (rule le_less_trans) (rule power_strict_increasing; simp)
  with f64_round_error [OF normal] obtain y where y: "f64_round r = Fin y" "\<bar>y - r\<bar> \<le> \<bar>r\<bar> / 2 ^ 53" by metis
  obtain x where x: "parse_f64 (show_f1 (Fin y)) = Some (Fin x)" "\<bar>x - y\<bar> \<le> 1 / 20" by (rule show_f1_error)
  have "\<bar>x - r\<bar> \<le> 1 / 20 + \<bar>r\<bar> / 2 ^ 53" using x(2) y(2) by linarith
  moreover have "\<bar>r\<bar> / 2 ^ 53 \<le> \<bar>r\<bar> / 2 ^ 51" by simp
  ultimately have "\<bar>x - r\<bar> \<le> 1 / 20 + \<bar>r\<bar> / 2 ^ 51" by linarith
  with x(1) y(1) show ?thesis by (auto simp: reads_near_def)
qed

text \<open>
  C34. The summary of the system context has, each under its name, the level and the average of the
  memory pressure, the hottest sensor of the kinds cpu, gpu and ddr (N/A when there is none above
  -100 degrees), the battery and its charging, the next poll and the number of sensors above -100
  degrees: the numbers with a decimal read back within a twentieth, and one part in 2 to the
  power 51 for the rounding of doubles (the average when it is 0.01 or more).
\<close>

theorem summary_shows_hottest:
  assumes "\<forall>z \<in> set (thermal_zones ctx). \<bar>temperature_mc z\<bar> \<le> 2 ^ 63"
    and "memory_avg10 ctx = Fin r" and "1 / 100 \<le> r" and "r \<le> 2 ^ 63"
  shows "\<exists>avg cpu gpu ddr. context_summary ctx =
      ''mem_pressure='' @ (case memory_pressure ctx of Normal \<Rightarrow> ''Normal'' | Moderate \<Rightarrow> ''Moderate''
        | Critical \<Rightarrow> ''Critical'') @ ''(avg10='' @ avg @
      '') cpu_max='' @ cpu @ DEGREE @ ''C gpu_max='' @ gpu @ DEGREE @ ''C ddr_max='' @ ddr @ DEGREE @
      ''C battery='' @ show_nat (case battery_pct ctx of None \<Rightarrow> 0 | Some p \<Rightarrow> p) @
      ''%'' @ (if is_charging ctx then FLASH else []) @ '' next_poll='' @ show_nat (next_poll_interval ctx) @
      ''s zones='' @ show_nat (length (filter (\<lambda>z. -100000 < temperature_mc z) (thermal_zones ctx))) \<and>
    reads_near avg r \<and> shows_hottest ''cpu'' ctx cpu \<and> shows_hottest ''gpu'' ctx gpu \<and> shows_hottest ''ddr'' ctx ddr"
proof -
  have "show_pressure (memory_pressure ctx) = (case memory_pressure ctx of Normal \<Rightarrow> ''Normal'' | Moderate \<Rightarrow> ''Moderate''
        | Critical \<Rightarrow> ''Critical'')"
    by (cases "memory_pressure ctx") simp_all
  then have "context_summary ctx =
      ''mem_pressure='' @ (case memory_pressure ctx of Normal \<Rightarrow> ''Normal'' | Moderate \<Rightarrow> ''Moderate''
        | Critical \<Rightarrow> ''Critical'') @ ''(avg10='' @ show_f1 (f64_round r) @
      '') cpu_max='' @ max_of ''cpu'' ctx @ DEGREE @ ''C gpu_max='' @ max_of ''gpu'' ctx @ DEGREE @
      ''C ddr_max='' @ max_of ''ddr'' ctx @ DEGREE @
      ''C battery='' @ show_nat (case battery_pct ctx of None \<Rightarrow> 0 | Some p \<Rightarrow> p) @
      ''%'' @ (if is_charging ctx then FLASH else []) @ '' next_poll='' @ show_nat (next_poll_interval ctx) @
      ''s zones='' @ show_nat (length (filter (\<lambda>z. -100000 < temperature_mc z) (thermal_zones ctx)))"
    unfolding context_summary_def valid_zones_def assms(2) f_rounded.simps by (simp only:)
  then show ?thesis using average_reads [OF assms(3,4)] max_shows [OF assms(1)] by blast
qed

definition demo_context :: SystemContext where
  "demo_context = \<lparr>memory_pressure = Moderate, memory_avg10 = Fin (1225 / 100),
     thermal_zones = [\<lparr>zone_type = ''cpu0'', temperature_mc = 41250\<rparr>, \<lparr>zone_type = ''cpu1'', temperature_mc = 43350\<rparr>,
       \<lparr>zone_type = ''gpu'', temperature_mc = -273000\<rparr>, \<lparr>zone_type = ''skin'', temperature_mc = 99000\<rparr>],
     sc_thermal_pressure = Fin 0, battery_pct = Some 80, is_charging = False, sc_freq_throttle = Fin 1,
     next_poll_interval = 3\<rparr>"

theorem summary_shows_hottest_witness:
  "\<exists>avg cpu ddr. context_summary demo_context = ''mem_pressure=Moderate(avg10='' @ avg @ '') cpu_max='' @ cpu @ DEGREE @
      ''C gpu_max=N/A'' @ DEGREE @ ''C ddr_max='' @ ddr @ DEGREE @ ''C battery=80% next_poll=3s zones=3'' \<and>
     reads_near avg (1225 / 100) \<and> reads_near cpu (4335 / 100)"
proof -
  have zones: "\<forall>z \<in> set (thermal_zones demo_context). \<bar>temperature_mc z\<bar> \<le> 2 ^ 63" by (simp add: demo_context_def)
  have avg: "memory_avg10 demo_context = Fin (1225 / 100)" by (simp add: demo_context_def)
  have "{temperature_mc z | z. z \<in> set (thermal_zones demo_context) \<and> starts_with prefix (zone_type z) \<and>
      -100000 < temperature_mc z} = set (kind_temps prefix (valid_zones demo_context))" for prefix
    by (rule set_kind_temps [symmetric])
  moreover have "kind_temps ''cpu'' (valid_zones demo_context) = [41250, 43350]"
    "kind_temps ''gpu'' (valid_zones demo_context) = []"
    by (simp_all add: kind_temps_def valid_zones_def demo_context_def starts_with_def)
  ultimately have shown: "shows_hottest ''cpu'' demo_context s \<Longrightarrow> reads_near s (4335 / 100)"
    "shows_hottest ''gpu'' demo_context s \<Longrightarrow> s = ''N/A''" for s
    by (simp_all add: shows_hottest_def)
  have "(1 :: rat) / 100 \<le> 1225 / 100" "(1225 :: rat) / 100 \<le> 2 ^ 63" by simp_all
  note summary = summary_shows_hottest [OF zones avg this]
  have fields: "memory_pressure demo_context = Moderate" "battery_pct demo_context = Some 80" "\<not> is_charging demo_context"
    "next_poll_interval demo_context = 3"
    "length (filter (\<lambda>z. -100000 < temperature_mc z) (thermal_zones demo_context)) = 3"
    by (simp_all add: demo_context_def)
  have digits: "show_nat 80 = ''80''" "show_nat 3 = ''3''" by code_simp+
  from summary obtain avg cpu gpu ddr where
    "context_summary demo_context = ''mem_pressure=Moderate(avg10='' @ avg @ '') cpu_max='' @ cpu @ DEGREE @
      ''C gpu_max='' @ gpu @ DEGREE @ ''C ddr_max='' @ ddr @ DEGREE @ ''C battery=80% next_poll=3s zones=3''"
    "reads_near avg (1225 / 100)" "shows_hottest ''cpu'' demo_context cpu" "shows_hottest ''gpu'' demo_context gpu"
    unfolding fields digits option.case PressureLevel.case if_not_P [OF fields(3)] append.simps by blast
  with shown(1) [of cpu] shown(2) [of gpu] show ?thesis by (auto simp del: show_nat.simps)
qed

end
