(* ===== verification/I18n.thy ===== *)
theory I18n
  imports Os
begin

text \<open>
  The language of printed messages (crates/core/src/i18n.rs): detected once, from the Android
  properties or else from the environment, and remembered. The commands and the environment are
  the record of calls.
\<close>

record 'k lang =
  getprop :: "string \<Rightarrow> 'k \<Rightarrow> string option \<times> 'k"
  env_var :: "string \<Rightarrow> 'k \<Rightarrow> string option \<times> 'k"

text \<open>\<open>Option::or_else\<close> and \<open>Result::or_else\<close> on calls: the second is made when the first fails.\<close>

definition or_call :: "('s, 'a option) state \<Rightarrow> ('s, 'a option) state \<Rightarrow> ('s, 'a option) state" where
  "or_call m n = do { r \<leftarrow> m; (case r of None \<Rightarrow> n | Some x \<Rightarrow> ret (Some x)) }"

definition detect_zh :: "'k lang \<Rightarrow> ('k, bool) state" where
  "detect_zh lg = do {
     android \<leftarrow> or_call (sys (getprop lg ''persist.sys.locale'')) (sys (getprop lg ''ro.product.locale''));
     (case android of
        Some locale \<Rightarrow>
          (let l = to_lowercase (trim locale)
           in ret (starts_with ''zh'' l \<or> starts_with ''cmn'' l \<or> starts_with ''yue'' l))
      | None \<Rightarrow> do {
          env \<leftarrow> or_call (sys (env_var lg ''LANG'')) (sys (env_var lg ''LC_ALL''));
          (let l = to_lowercase (case env of None \<Rightarrow> [] | Some v \<Rightarrow> v)
           in ret (starts_with ''zh'' l \<or> starts_with ''cmn'' l))
        })
   }"

text \<open>The state is the once-cell and the system's.\<close>

definition is_zh :: "'k lang \<Rightarrow> (bool option \<times> 'k, bool) state" where
  "is_zh lg = State (\<lambda>(cell, k). case cell of
      Some b \<Rightarrow> (b, (cell, k))
    | None \<Rightarrow> (case run_state (detect_zh lg) k of (b, k') \<Rightarrow> (b, (Some b, k'))))"

definition pick :: "'k lang \<Rightarrow> string \<Rightarrow> string \<Rightarrow> (bool option \<times> 'k, string) state" where
  "pick lg zh en = do { b \<leftarrow> is_zh lg; ret (if b then zh else en) }"

section \<open>Lemmas\<close>

lemma is_zh_known: "run_state (is_zh lg) (Some b, k) = (b, (Some b, k))"
  by (simp add: is_zh_def)

lemma is_zh_run: "\<exists>b k'. run_state (is_zh lg) (cell, k) = (b, (Some b, k'))"
  by (cases cell; cases "run_state (detect_zh lg) k") (simp_all add: is_zh_def)

text \<open>The first query decides the language of all messages.\<close>

lemma language_is_fixed:
  "\<exists>b k'. run_state (pick lg zh en) (cell, k) = (if b then zh else en, (Some b, k')) \<and>
    (\<forall>zh' en' k''. run_state (pick lg zh' en') (Some b, k'') = (if b then zh' else en', (Some b, k'')))"
proof -
  obtain b k' where "run_state (is_zh lg) (cell, k) = (b, (Some b, k'))" using is_zh_run [of lg cell k] by auto
  then show ?thesis by (intro exI [of _ b] exI [of _ k']) (simp add: pick_def is_zh_known)
qed

text \<open>An empty property is an answer: the second property and the environment are not asked.\<close>

lemma empty_property_is_english:
  assumes "getprop lg ''persist.sys.locale'' k = (Some s, k')" and "trim s = []"
  shows "run_state (detect_zh lg) k = (False, k')"
  using assms by (simp add: detect_zh_def or_call_def to_lowercase_def starts_with_def)

end
