(* ===== verification/Spec2Isabelle.thy ===== *)
theory Spec2Isabelle
  imports Mask_Properties Rule_Properties Apply_Properties Affinity_Properties Control_Properties
    Daemon_Properties Engine_Properties Tracking_Properties Watch_Properties Context_Text Dry_Run Store Scene Tune Observe Affinity_Pool I18n
begin

text \<open>
  A verification library for threadctl, a daemon that pins the threads of Android and Linux
  processes to CPUs and sets their scheduling by rules (Rust, under src/crates/).

  How the program works. A KDL file names applications and their policies; it is parsed and
  expanded into rules (kdl_parser.rs, config.rs, profile.rs), and the rules are compiled into
  an index (ruleset.rs). Events of processes and threads come from an eBPF program or from
  scanning /proc; the engine (engine.rs) finds the rules of a thread, merges them (merge.rs)
  into one policy and applies it through the kernel (policy.rs, backend.rs), recording every
  attempt in the audit log (audit.rs). The tracker (tracker.rs) remembers the processes and
  the cpuset directories they use. Because the system moves threads back, the daemon relocks
  at a period that adapts (relock.rs), when the decision engine (decision.rs) allows it, given
  the state of the system (system_context.rs).

  Theories and sources (crates/core/src unless said otherwise):
  \<^item> Prelude: machine integers, text of the standard library, state-passing code and the
    \<open>keeps\<close> calculus of invariants;
  \<^item> Cpu_Set, Cpu_Ranges, Topology: topology.rs. A mask is sixteen 64-bit words; \<open>members\<close> is
    the set it stands for, and the locale \<open>cpu_mask\<close> the interface the parser uses;
  \<^item> Os: the kernel as a record of functions over its state, an argument of every definition
    that calls it; the readers of proc.rs, caps.rs;
  \<^item> Floats, System_Context, Decision: system_context.rs, decision.rs; Float_Text, Context_Text: the
    rounding to doubles and their printing, and with it the summary of the system context;
  \<^item> Policy, Merge, Config, Kdl_Config: the data of policy.rs and config.rs, merge.rs,
    profile.rs, the expansion of config.rs, kdl_parser.rs over the tree of the kdl crate;
  \<^item> Ruleset, Ruleset_Facts, Ruleset_Index, Dry_Run: ruleset.rs; the locale \<open>memo\<close> is the contract of the
    matching cache;
  \<^item> Audit_Log, World, Backend, Policy_Apply: audit.rs, the globals of the process as one
    record, backend.rs, policy.rs; the locale \<open>world_inv\<close> carries invariants through them;
  \<^item> Tracker, Tracker_Facts, Relock, Relock_Facts, Engine, Engine_Facts: tracker.rs, relock.rs,
    event.rs, engine.rs; the locale \<open>engine_inv\<close> is the contract between the engine and the
    tracker and rule set, interpreted for the reference counts, the audit bound and the rules;
    Engine_Spec: \<open>event_spec\<close>, what an event does to the abstract view of the tracker (the handled
    threads and the time of the last scan of each process), which \<open>handle_event\<close> refines;
  \<^item> Scene, Tune, Observe, Store: scene.rs, tune.rs, capability.rs, foreground.rs, observe.rs,
    store.rs; I18n: i18n.rs; Affinity_Pool: crates/libthreadctl/src/lib.rs;
  \<^item> Inotify, Inotify_Facts: the thread of store.rs that watches the configuration file, over the
    record of the inotify calls. The store is shared with the main loop: \<open>hot_loop\<close> takes, with each
    iteration, what the other threads did to the store before it. Each iteration refines the step
    \<open>hot_step\<close> of Store that the daemon runs (\<open>watches\<close>), with what the kernel said (\<open>heard\<close>);
    Reload_Race: the reloads of several threads, cut where the code gives up the lock of the store;
  \<^item> Bytes: little-endian numbers; Ebpf_Kernel, Ebpf_Kernel_Facts: the eBPF program of
    crates/ebpf/src/main.rs over the record of its maps and helpers;
  \<^item> Ebpf_Source, Ebpf_Source_Facts and Proc_Source, Proc_Source_Facts: the two event sources,
    ebpf_source.rs and proc_source.rs of crates/daemon/src; Source_Facts: the calculus of triples
    (what a computation keeps and what it answers) and of \<open>ends\<close> (what its final state is);
  \<^item> Utf8: valid UTF-8 and the white space of Unicode, for the lines of the clients;
  \<^item> Ipc, Ipc_Client, Ipc_Server, Daemon, Daemon_Loop, Replies: ipc.rs and main.rs of
    crates/daemon/src; Replies has the text of every reply, in both languages.
    \<open>system_step\<close> of Ipc_Server interleaves the thread of the control socket with the daemon and
    refines it. The main loop is a step
    function over its phases; the relation \<open>daemon_step\<close> interleaves it with the clients, the
    reload thread, signals and the kernel, and \<open>reachable\<close> starts it by \<open>daemon_start\<close>;
    Daemon_Facts carries the invariant through it, by interpreting \<open>engine_inv\<close> on the conjunction
    of the three invariants, Daemon_Frames says what the steps leave alone, Reload_Facts
    which processes a reload keeps, Tracking which moves of the abstract view of Engine_Spec
    the phases make, Runs counts the steps and messages of a run of all threads (\<open>daemon_run\<close>) and
    collects the times of its relocks (\<open>relock_run\<close>), and Fixed_Config follows the engine settings
    of a file through every reload.

  The properties are in Mask_Properties, Rule_Properties, Apply_Properties, Affinity_Properties (over a
  kernel that reports the affinities it is given), Engine_Properties,
  Control_Properties, Watch_Properties, Daemon_Properties, Tracking_Properties and Context_Text. Properties about calls replace one
  call of the kernel record by any function that agrees on the permitted arguments and show that
  nothing changes.

  Conventions. Rust's \<open>u64\<close> and \<open>u32\<close> are words where the code can wrap and natural numbers with
  an explicit bound where parsing has checked the range; strings are lists of bytes; \<open>f64\<close> is
  exact arithmetic with the special values (Floats says why comparisons are unaffected); a
  \<open>HashMap\<close> that is iterated is an association list, whose order stands for the unspecified
  one. Every loop is structural recursion or a fold, so all definitions are total and no fuel
  is needed; \<open>trim_start_matches\<close> and \<open>event_masks\<close> have termination proofs. \<open>hot_loop\<close> runs the
  endless loop of the watching thread for as many iterations as it is given. POSIX \<open>fnmatch\<close>, the grammar of the
  kdl crate and the creation of threads are arguments.

  Bounds. The queues hold 64 and 128 processes with at most three retries, a round of the eBPF
  source takes at most 256 messages, the audit log 1024 records; these are the constants of the
  code. \<open>steps_left\<close> bounds the steps of the main thread to the end of a round; in a run with the other
  threads every message they send adds one.

  Concurrency. The other threads step between the phases of the main loop, and between the
  messages of a queue; a phase and a reload are atomic. Reload_Race lifts the latter: it shows that
  overlapping reloads never mix snapshots, but can leave an older one in force. An \<open>Arc\<close> of a snapshot shares one
  matching cache in the code; here every holder has its own, which no query can tell, since the
  cache is transparent.

  Not modelled: messages printed to the terminal (debug.rs), thread creation, sockets and channels
  (which are parameters, steps or queues), the installation of the signal handler (a signal is a
  step), the module declarations of lib.rs, and the structures \<open>AppConfig\<close> and \<open>ThreadConfig\<close> of config.rs, which nothing uses.
\<close>

end
